(* ===== verification/Prelude.thy ===== *)
theory Prelude
  imports Main "HOL-Library.Word"
begin

text \<open>
  The vocabulary shared by every component of the go-sieve development.

  A Go \<open>string\<close> or \<open>[]byte\<close> is a list of bytes, here a list of \<open>char\<close>.
  A Go \<open>error\<close> result is the left injection of a sum.  Go's \<open>int\<close> is 64 bits
  wide: \<open>wrap64\<close> is its wrap-around.  The decimal conversions of package
  \<open>strconv\<close> are written out with their range checks.
\<close>

section \<open>Collections of rules\<close>

named_theorems consumes \<open>bounds on the input a reader leaves\<close>
named_theorems char_class \<open>definitions of the character classes\<close>

type_synonym bytes = "char list"
type_synonym ('e, 'a) result = "'e + 'a"

abbreviation ord :: "char \<Rightarrow> nat" where
  "ord c \<equiv> of_char c"

abbreviation CR :: char where
  "CR \<equiv> CHR 0x0D"

abbreviation LF :: char where
  "LF \<equiv> CHR 0x0A"

abbreviation TAB :: char where
  "TAB \<equiv> CHR 0x09"

abbreviation DQUOTE :: char where
  "DQUOTE \<equiv> CHR 0x22"

abbreviation BACKSLASH :: char where
  "BACKSLASH \<equiv> CHR 0x5C"

abbreviation crlf :: bytes where
  "crlf \<equiv> [CR, LF]"

section \<open>Character classes\<close>

definition is_lower :: "char \<Rightarrow> bool" where
  [char_class]: "is_lower b \<longleftrightarrow> 97 \<le> ord b \<and> ord b \<le> 122"

definition is_upper :: "char \<Rightarrow> bool" where
  [char_class]: "is_upper b \<longleftrightarrow> 65 \<le> ord b \<and> ord b \<le> 90"

definition is_digit :: "char \<Rightarrow> bool" where
  [char_class]: "is_digit b \<longleftrightarrow> 48 \<le> ord b \<and> ord b \<le> 57"

definition is_alpha :: "char \<Rightarrow> bool" where
  [char_class]: "is_alpha b \<longleftrightarrow> is_lower b \<or> is_upper b"

definition is_ident_char :: "char \<Rightarrow> bool" where
  [char_class]: "is_ident_char b \<longleftrightarrow> is_alpha b \<or> is_digit b \<or> b = CHR ''_''"

lemma ord_inject [simp]: "ord a = ord b \<longleftrightarrow> a = b"
  by (metis of_char_eq_iff)

lemma ord_less_256 [simp]: "ord b < 256"
  by (rule nat_of_char_less_256)

section \<open>Machine integers\<close>

definition maxInt64 :: int where
  "maxInt64 = 9223372036854775807"

definition maxUint64 :: nat where
  "maxUint64 = 18446744073709551615"

text \<open>Two's complement reading of an integer, modulo \<open>2^64\<close>: Go's \<open>int\<close> arithmetic.\<close>

definition wrap64 :: "int \<Rightarrow> int" where
  "wrap64 x = (x + 9223372036854775808) mod 18446744073709551616 - 9223372036854775808"

lemma wrap64_id: "- 9223372036854775808 \<le> x \<Longrightarrow> x \<le> maxInt64 \<Longrightarrow> wrap64 x = x"
  by (simp add: wrap64_def maxInt64_def)

lemma wrap64_bounds: "- 9223372036854775808 \<le> wrap64 x \<and> wrap64 x \<le> maxInt64"
proof -
  have "0 \<le> (x + 9223372036854775808) mod 18446744073709551616"
    and "(x + 9223372036854775808) mod 18446744073709551616 < 18446744073709551616"
    by simp_all
  then show ?thesis by (simp add: wrap64_def maxInt64_def)
qed

lemma wrap64_sint: "wrap64 x = sint (word_of_int x :: 64 word)"
  by (simp add: wrap64_def sint_sbintrunc' signed_take_bit_eq_take_bit_shift take_bit_eq_mod)

section \<open>Decimal numbers (package strconv)\<close>

definition digit_char :: "nat \<Rightarrow> char" where
  "digit_char d = char_of (48 + d)"

fun nat_to_dec :: "nat \<Rightarrow> bytes" where
  "nat_to_dec n = (if n < 10 then [digit_char n] else nat_to_dec (n div 10) @ [digit_char (n mod 10)])"

declare nat_to_dec.simps [simp del]

definition Itoa :: "int \<Rightarrow> bytes" where
  "Itoa x = (if x < 0 then CHR ''-'' # nat_to_dec (nat (- x)) else nat_to_dec (nat x))"

definition dec_value :: "bytes \<Rightarrow> nat" where
  "dec_value s = foldl (\<lambda>n b. 10 * n + (ord b - 48)) 0 s"

definition all_digits :: "bytes \<Rightarrow> bool" where
  "all_digits s \<longleftrightarrow> s \<noteq> [] \<and> list_all is_digit s"

text \<open>
  \<open>ParseUint(s, 10, w)\<close>: digits only and a value that fits in \<open>w\<close> bits.
  \<open>ParseInt(s, 10, 64)\<close> and \<open>Atoi\<close>: an optional sign, then digits, in the range of
  a signed 64-bit integer.
\<close>

definition ParseUint :: "nat \<Rightarrow> bytes \<Rightarrow> nat option" where
  "ParseUint w s = (if all_digits s \<and> dec_value s < 2 ^ w then Some (dec_value s) else None)"

definition Atoi :: "bytes \<Rightarrow> int option" where
  "Atoi s =
     (case s of
        [] \<Rightarrow> None
      | b # r \<Rightarrow>
          (if b = CHR ''-'' then
             (if all_digits r \<and> int (dec_value r) \<le> maxInt64 + 1 then Some (- int (dec_value r)) else None)
           else let ds = (if b = CHR ''+'' then r else s) in
             (if all_digits ds \<and> int (dec_value ds) \<le> maxInt64 then Some (int (dec_value ds)) else None)))"

lemma ord_digit_char: "d < 10 \<Longrightarrow> ord (digit_char d) = 48 + d"
  by (simp add: digit_char_def)

lemma is_digit_digit_char [simp]: "d < 10 \<Longrightarrow> is_digit (digit_char d)"
  by (simp add: is_digit_def ord_digit_char)

lemma dec_value_snoc [simp]: "dec_value (s @ [b]) = 10 * dec_value s + (ord b - 48)"
  by (simp add: dec_value_def)

lemma dec_value_single [simp]: "dec_value [b] = ord b - 48"
  by (simp add: dec_value_def)

lemma nat_to_dec_digits: "all_digits (nat_to_dec n)"
proof (induction n rule: nat_to_dec.induct)
  case (1 n)
  then show ?case
    by (subst nat_to_dec.simps) (auto simp: all_digits_def)
qed

lemma dec_value_nat_to_dec [simp]: "dec_value (nat_to_dec n) = n"
proof (induction n rule: nat_to_dec.induct)
  case (1 n)
  show ?case
  proof (cases "n < 10")
    case True
    then show ?thesis by (subst nat_to_dec.simps) (simp add: ord_digit_char)
  next
    case False
    with 1 have "dec_value (nat_to_dec (n div 10)) = n div 10" by simp
    with False show ?thesis by (subst nat_to_dec.simps) (simp add: ord_digit_char)
  qed
qed

lemma nat_to_dec_nonempty [simp]: "nat_to_dec n \<noteq> []"
  using nat_to_dec_digits [of n] by (simp add: all_digits_def)

lemma nat_to_dec_list_all [simp]: "list_all is_digit (nat_to_dec n)"
  using nat_to_dec_digits [of n] by (simp add: all_digits_def)

lemma Atoi_digits:
  assumes "all_digits s" and "int (dec_value s) \<le> maxInt64"
  shows "Atoi s = Some (int (dec_value s))"
proof -
  from assms(1) obtain b r where s: "s = b # r" and "is_digit b"
    by (cases s) (auto simp: all_digits_def)
  then have "b \<noteq> CHR ''-''" and "b \<noteq> CHR ''+''" by (auto simp: is_digit_def)
  with s assms show ?thesis by (simp add: Atoi_def Let_def)
qed

lemma Atoi_Itoa: "0 \<le> x \<Longrightarrow> x \<le> maxInt64 \<Longrightarrow> Atoi (Itoa x) = Some x"
  by (simp add: Itoa_def Atoi_digits nat_to_dec_digits)

lemma ParseUint_nat_to_dec: "n < 2 ^ w \<Longrightarrow> ParseUint w (nat_to_dec n) = Some n"
  by (simp add: ParseUint_def nat_to_dec_digits)

section \<open>Lists\<close>

lemma list_all_append_single [simp]: "list_all P (xs @ [x]) \<longleftrightarrow> list_all P xs \<and> P x"
  by simp

lemma takeWhile_append_stop:
  "list_all P xs \<Longrightarrow> \<not> P y \<Longrightarrow> takeWhile P (xs @ y # ys) = xs \<and> dropWhile P (xs @ y # ys) = y # ys"
  by (induction xs) auto

end
