(* ===== verification/Lexer.thy ===== *)
theory Lexer
  imports Prelude
begin

text \<open>
  Package \<open>lexer\<close> of go-sieve: tokens (\<open>token.go\<close>), the lexer (\<open>lex.go\<close>) and the
  printer (\<open>write.go\<close>).

  The buffered reader is the list of bytes still to be read, so that reading a byte
  removes the head, \<open>UnreadByte\<close> puts it back and \<open>Peek(4)\<close> fails when fewer than
  four bytes are left.  The only read error is the end of input.  The shared
  \<open>lexerState\<close> is threaded through as a position record.
\<close>

section \<open>Tokens\<close>

record position =
  File :: bytes
  Line :: int
  Col :: int

definition LineCol :: "int \<Rightarrow> int \<Rightarrow> position" where
  "LineCol line col = \<lparr>File = [], Line = line, Col = col\<rparr>"

datatype quantifier = NoQuantifier | Kilo | Mega | Giga

definition Multiplier :: "quantifier \<Rightarrow> int" where
  "Multiplier q =
     (case q of
        NoQuantifier \<Rightarrow> 1
      | Kilo \<Rightarrow> 1024
      | Mega \<Rightarrow> 1024 * 1024
      | Giga \<Rightarrow> 1024 * 1024 * 1024)"

datatype token =
    Identifier position bytes
  | Number position int quantifier
  | StringTok position bytes
  | ListStart position
  | ListEnd position
  | BlockStart position
  | BlockEnd position
  | TestListStart position
  | TestListEnd position
  | Comma position
  | Semicolon position
  | Colon position

section \<open>Options and errors\<close>

record lex_options =
  Filename :: bytes
  NoPosition :: bool
  MaxTokens :: int
  MaxStringBytes :: int

datatype lex_error =
    EOF
  | UnexpectedEOF
  | CRWithoutLF
  | NotAtCRLF
  | NulInInput
  | UnexpectedSlash
  | UnexpectedCharacter char
  | NumberOutOfRange bytes
  | StringTooLong int
  | TooManyTokens

type_synonym 'a lexed = "(lex_error, 'a \<times> bytes \<times> position) result"

definition advance :: "position \<Rightarrow> position" where
  "advance st = st\<lparr>Col := Col st + 1\<rparr>"

definition retreat :: "position \<Rightarrow> position" where
  "retreat st = st\<lparr>Col := Col st - 1\<rparr>"

definition newline :: "position \<Rightarrow> position" where
  "newline st = st\<lparr>Line := Line st + 1, Col := 0\<rparr>"

section \<open>The readers of the lexical elements\<close>

text \<open>\<open>consumeCRLF\<close> accepts CRLF and a bare LF; it panics on any other byte.\<close>

fun consumeCRLF :: "bytes \<Rightarrow> position \<Rightarrow> (lex_error, bytes \<times> position) result" where
  "consumeCRLF [] st = Inl EOF"
| "consumeCRLF (b # r) st =
     (if b = CR then
        (case r of
           [] \<Rightarrow> Inl EOF
         | b2 # r2 \<Rightarrow> if b2 \<noteq> LF then Inl CRWithoutLF else Inr (r2, newline st))
      else if b = LF then Inr (r, newline st)
      else Inl NotAtCRLF)"

lemma consumeCRLF_shorter [consumes]:
  "consumeCRLF r st = Inr (r', st') \<Longrightarrow> length r' < length r"
  by (cases r) (auto split: if_splits list.splits)

declare consumeCRLF.simps [simp del]

definition appendStringBytes :: "bytes \<Rightarrow> lex_options \<Rightarrow> bytes \<Rightarrow> (lex_error, bytes) result" where
  "appendStringBytes dst opts bs =
     (if MaxStringBytes opts > 0 \<and> int (length dst) + int (length bs) > MaxStringBytes opts
      then Inl (StringTooLong (MaxStringBytes opts))
      else Inr (dst @ bs))"

definition IsValidIdentifier :: "bytes \<Rightarrow> bool" where
  "IsValidIdentifier s = (case s of [] \<Rightarrow> False | first # r \<Rightarrow> is_alpha first \<and> list_all is_ident_char r)"

fun read_identifier :: "bytes \<Rightarrow> bytes \<Rightarrow> position \<Rightarrow> bytes \<times> bytes \<times> position" where
  "read_identifier [] name st = (name, [], st)"
| "read_identifier (b # r) name st =
     (let st1 = advance st in
      if is_ident_char b then read_identifier r (name @ [b]) st1
      else (name, b # r, retreat st1))"

definition quantifier_of :: "char \<Rightarrow> quantifier option" where
  "quantifier_of b =
     (if b = CHR ''K'' \<or> b = CHR ''k'' then Some Kilo
      else if b = CHR ''G'' \<or> b = CHR ''g'' then Some Giga
      else if b = CHR ''M'' \<or> b = CHR ''m'' then Some Mega
      else None)"

fun number_digits :: "bytes \<Rightarrow> bytes \<Rightarrow> position \<Rightarrow> bytes \<times> quantifier \<times> bytes \<times> position" where
  "number_digits [] num st = (num, NoQuantifier, [], st)"
| "number_digits (b # r) num st =
     (let st1 = advance st in
      case quantifier_of b of
        Some q \<Rightarrow> (num, q, r, st1)
      | None \<Rightarrow>
          (if is_digit b then number_digits r (num @ [b]) st1
           else (num, NoQuantifier, b # r, retreat st1)))"

definition number :: "bytes \<Rightarrow> bytes \<Rightarrow> position \<Rightarrow> (int \<times> quantifier) lexed" where
  "number r startWith st =
     (let (num, q, r', st') = number_digits r startWith st in
      case Atoi num of
        None \<Rightarrow> Inl (NumberOutOfRange num)
      | Some v \<Rightarrow> Inr ((v, q), r', st'))"

fun hashComment :: "bytes \<Rightarrow> position \<Rightarrow> (lex_error, bytes \<times> position) result" where
  "hashComment [] st = Inr ([], st)"
| "hashComment (b # r) st =
     (let st1 = advance st in
      if b = CR \<or> b = LF then consumeCRLF (b # r) st1
      else hashComment r st1)"

fun multilineComment :: "bool \<Rightarrow> bytes \<Rightarrow> position \<Rightarrow> (lex_error, bytes \<times> position) result" where
  "multilineComment wasStar [] st = Inl EOF"
| "multilineComment wasStar (b # r) st =
     (let st1 = (if b = LF then newline (advance st) else advance st) in
      if wasStar \<and> b = CHR ''/'' then Inr (r, st1)
      else multilineComment (b = CHR ''*'') r st1)"

function (sequential) quotedString :: "lex_options \<Rightarrow> bool \<Rightarrow> bytes \<Rightarrow> bytes \<Rightarrow> position \<Rightarrow> bytes lexed" where
  "quotedString opts atBackslash str [] st = Inl EOF"
| "quotedString opts atBackslash str (b # r) st =
     (let st1 = advance st in
      if b = CR \<or> b = LF then
        (case consumeCRLF (b # r) st1 of
           Inl e \<Rightarrow> Inl e
         | Inr (r2, st2) \<Rightarrow>
             (case appendStringBytes str opts crlf of
                Inl e \<Rightarrow> Inl e
              | Inr str' \<Rightarrow> quotedString opts False str' r2 st2))
      else if b = BACKSLASH \<and> \<not> atBackslash then quotedString opts True str r st1
      else if b = DQUOTE \<and> \<not> atBackslash then Inr (str, r, st1)
      else
        (case appendStringBytes str opts [b] of
           Inl e \<Rightarrow> Inl e
         | Inr str' \<Rightarrow> quotedString opts False str' r st1))"
  by pat_completeness auto
termination
  by (relation "measure (\<lambda>(opts, atBackslash, str, r, st). length r)") (auto dest: consumeCRLF_shorter)

text \<open>
  \<open>multilineString\<close> reads the body of a \<open>text:\<close> block.  The two flags are the
  variables \<open>atLF\<close> and \<open>atLFHadDot\<close>; both start out false.
\<close>

function (sequential) multilineString :: "lex_options \<Rightarrow> bool \<Rightarrow> bool \<Rightarrow> bytes \<Rightarrow> bytes \<Rightarrow> position \<Rightarrow> bytes lexed" where
  "multilineString opts atLF hadDot data [] st = Inl EOF"
| "multilineString opts atLF hadDot data (b # r) st =
     (let st1 = advance st in
      if b = CHR ''.'' then
        (if atLF then multilineString opts False True data r st1
         else (case appendStringBytes data opts [b] of
                 Inl e \<Rightarrow> Inl e
               | Inr data' \<Rightarrow> multilineString opts False False data' r st1))
      else if b = CR \<or> b = LF then
        (case consumeCRLF (b # r) st1 of
           Inl e \<Rightarrow> Inl e
         | Inr (r2, st2) \<Rightarrow>
             (if hadDot then Inr (data, r2, st2)
              else (case appendStringBytes data opts crlf of
                      Inl e \<Rightarrow> Inl e
                    | Inr data' \<Rightarrow> multilineString opts True False data' r2 st2)))
      else
        (case (if hadDot then appendStringBytes data opts ''.'' else Inr data) of
           Inl e \<Rightarrow> Inl e
         | Inr data' \<Rightarrow>
             (case appendStringBytes data' opts [b] of
                Inl e \<Rightarrow> Inl e
              | Inr data'' \<Rightarrow> multilineString opts False False data'' r st1)))"
  by pat_completeness auto
termination
  by (relation "measure (\<lambda>(opts, atLF, hadDot, data, r, st). length r)") (auto dest: consumeCRLF_shorter)

section \<open>The token stream\<close>

text \<open>
  The blanks between \<open>text:\<close> and the end of its line, which may hold a hash comment.
\<close>

fun textBlanks :: "bytes \<Rightarrow> position \<Rightarrow> (lex_error, bytes \<times> position) result" where
  "textBlanks [] st = Inl EOF"
| "textBlanks (b # r) st =
     (let st1 = advance st in
      if b = CHR '' '' \<or> b = TAB then textBlanks r st1
      else if b = CHR ''#'' then hashComment r st1
      else if b = CR \<or> b = LF then consumeCRLF (b # r) st1
      else Inl (UnexpectedCharacter b))"

text \<open>
  One turn of the loop of \<open>tokenStream\<close> after its byte \<open>b\<close> was read.  The result is
  the token appended, if any, and whether the turn ends in \<open>continue\<close>, which skips
  the check of \<open>MaxTokens\<close> at the end of the loop body.
\<close>

definition wordToken :: "char \<Rightarrow> bytes \<Rightarrow> position \<Rightarrow> (token option \<times> bool) lexed" where
  "wordToken b r st =
     (if is_alpha b then
        (let (str, r', st') = read_identifier r [b] st in Inr ((Some (Identifier st str), False), r', st'))
      else if is_digit b then
        (case number r [b] st of
           Inl e \<Rightarrow> Inl e
         | Inr ((v, q), r', st') \<Rightarrow> Inr ((Some (Number st v q), False), r', st'))
      else Inl (UnexpectedCharacter b))"

definition textToken :: "lex_options \<Rightarrow> bytes \<Rightarrow> position \<Rightarrow> (token option \<times> bool) lexed" where
  "textToken opts r st =
     (if length r < 4 then Inl EOF
      else if take 4 r = ''ext:'' then
        (case textBlanks (drop 4 r) (st\<lparr>Col := Col st + 4\<rparr>) of
           Inl e \<Rightarrow> Inl e
         | Inr (r1, st1) \<Rightarrow>
             (case multilineString opts False False [] r1 st1 of
                Inl e \<Rightarrow> Inl e
              | Inr (str, r2, st2) \<Rightarrow> Inr ((Some (StringTok st str), True), r2, st2)))
      else wordToken CHR ''t'' r st)"

definition delimiter :: "char \<Rightarrow> position \<Rightarrow> token option" where
  "delimiter b st =
     (if b = CHR ''['' then Some (ListStart st)
      else if b = CHR '']'' then Some (ListEnd st)
      else if b = CHR ''{'' then Some (BlockStart st)
      else if b = CHR ''}'' then Some (BlockEnd st)
      else if b = CHR ''('' then Some (TestListStart st)
      else if b = CHR '')'' then Some (TestListEnd st)
      else if b = CHR '','' then Some (Comma st)
      else if b = CHR '':'' then Some (Colon st)
      else if b = CHR '';'' then Some (Semicolon st)
      else None)"

definition nextToken :: "lex_options \<Rightarrow> char \<Rightarrow> bytes \<Rightarrow> position \<Rightarrow> (token option \<times> bool) lexed" where
  "nextToken opts b r st =
     (if b = CHR 0x00 then Inl NulInInput
      else if delimiter b st \<noteq> None then Inr ((delimiter b st, False), r, st)
      else if b = CHR '' '' \<or> b = TAB then Inr ((None, True), r, st)
      else if b = CR \<or> b = LF then
        (case consumeCRLF (b # r) st of
           Inl e \<Rightarrow> Inl e
         | Inr (r', st') \<Rightarrow> Inr ((None, False), r', st'))
      else if b = DQUOTE then
        (case quotedString opts False [] r st of
           Inl e \<Rightarrow> Inl e
         | Inr (str, r', st') \<Rightarrow> Inr ((Some (StringTok st str), False), r', st'))
      else if b = CHR ''#'' then
        (case hashComment r st of
           Inl e \<Rightarrow> Inl e
         | Inr (r', st') \<Rightarrow> Inr ((None, False), r', st'))
      else if b = CHR ''/'' then
        (case r of
           [] \<Rightarrow> Inl EOF
         | b2 # r2 \<Rightarrow>
             (if b2 \<noteq> CHR ''*'' then Inl UnexpectedSlash
              else (case multilineComment False r2 (advance st) of
                      Inl e \<Rightarrow> Inl e
                    | Inr (r', st') \<Rightarrow> Inr ((None, False), r', st'))))
      else if b = CHR ''t'' then textToken opts r st
      else wordToken b r st)"

text \<open>Every reader leaves at most the input it was given.\<close>

lemma read_identifier_length [consumes]:
  "read_identifier r name st = (str, r', st') \<Longrightarrow> length r' \<le> length r"
  by (induction r name st rule: read_identifier.induct) (auto simp: Let_def split: if_splits)

lemma number_digits_length [consumes]:
  "number_digits r num st = (num', q, r', st') \<Longrightarrow> length r' \<le> length r"
  by (induction r num st rule: number_digits.induct) (auto simp: Let_def split: if_splits option.splits)

lemma number_length [consumes]: "number r s st = Inr (vq, r', st') \<Longrightarrow> length r' \<le> length r"
  by (auto simp: number_def split: prod.splits option.splits dest: number_digits_length)

lemma hashComment_length [consumes]: "hashComment r st = Inr (r', st') \<Longrightarrow> length r' \<le> length r"
  by (induction r st rule: hashComment.induct)
    (auto simp: Let_def split: if_splits list.splits dest: consumeCRLF_shorter)

lemma multilineComment_length [consumes]:
  "multilineComment w r st = Inr (r', st') \<Longrightarrow> length r' \<le> length r"
  by (induction w r st rule: multilineComment.induct) (auto simp: Let_def split: if_splits)

text \<open>
  The two string readers share a loop rule: what holds of the text read so far, the
  input left and the position, and survives reading a byte, a line break and a dropped
  byte, holds of the result.
\<close>

definition stringStep :: "lex_options \<Rightarrow> (bytes \<Rightarrow> bytes \<Rightarrow> position \<Rightarrow> bool) \<Rightarrow> bool" where
  "stringStep opts P \<longleftrightarrow>
     (\<forall>str b r st. P str (b # r) st \<longrightarrow> P str r (advance st)) \<and>
     (\<forall>str r st r2 st2. P str r st \<longrightarrow> consumeCRLF r (advance st) = Inr (r2, st2) \<longrightarrow> P str r2 st2) \<and>
     (\<forall>str str2 r st. P str r st \<longrightarrow> appendStringBytes str opts crlf = Inr str2 \<longrightarrow> P str2 r st) \<and>
     (\<forall>str b str2 r st. P str r st \<longrightarrow> b \<noteq> CR \<longrightarrow> b \<noteq> LF \<longrightarrow>
        appendStringBytes str opts [b] = Inr str2 \<longrightarrow> P str2 r st)"

lemmas stringStepD =
  stringStep_def [THEN iffD1, THEN conjunct1, rule_format]
  stringStep_def [THEN iffD1, THEN conjunct2, THEN conjunct1, rule_format]
  stringStep_def [THEN iffD1, THEN conjunct2, THEN conjunct2, THEN conjunct1, rule_format]
  stringStep_def [THEN iffD1, THEN conjunct2, THEN conjunct2, THEN conjunct2, rule_format]

lemma quotedString_loop:
  "quotedString opts a str r st = Inr (str', r', st') \<Longrightarrow> stringStep opts P \<Longrightarrow> P str r st \<Longrightarrow> P str' r' st'"
proof (induction opts a str r st rule: quotedString.induct)
  case (2 opts a str b r st)
  note step = stringStepD [OF "2.prems"(2)]
  consider (crlf) "b = CR \<or> b = LF" | (esc) "b = BACKSLASH" "\<not> a" | (close) "b = DQUOTE" "\<not> a"
    | (byte) "b \<noteq> CR" "b \<noteq> LF" "\<not> (b = BACKSLASH \<and> \<not> a)" "\<not> (b = DQUOTE \<and> \<not> a)"
    by blast
  then show ?case
  proof cases
    case crlf
    with "2.prems"(1) obtain r2 st2 str2 where
      c: "consumeCRLF (b # r) (advance st) = Inr (r2, st2)"
      and a: "appendStringBytes str opts crlf = Inr str2"
      and rec: "quotedString opts False str2 r2 st2 = Inr (str', r', st')"
      by (auto simp: Let_def split: sum.split_asm)
    have "P str2 r2 st2"
      using "2.prems"(3) c a by (blast intro: step)
    with crlf c a rec show ?thesis by (intro "2.IH"(1)) (auto intro: "2.prems")
  next
    case esc
    with "2.prems" show ?thesis by (intro "2.IH"(2)) (auto simp: Let_def intro: step)
  next
    case close
    with "2.prems" show ?thesis by (auto simp: Let_def intro: step)
  next
    case byte
    with "2.prems"(1) obtain str2 where
      a: "appendStringBytes str opts [b] = Inr str2"
      and rec: "quotedString opts False str2 r (advance st) = Inr (str', r', st')"
      by (auto simp: Let_def split: sum.split_asm)
    have "P str2 r (advance st)"
      using "2.prems"(3) byte a by (blast intro: step)
    with byte a rec show ?thesis by (intro "2.IH"(3)) (auto intro: "2.prems")
  qed
qed simp

lemma multilineString_loop:
  "multilineString opts l h data r st = Inr (data', r', st') \<Longrightarrow> stringStep opts P \<Longrightarrow> P data r st \<Longrightarrow>
   P data' r' st'"
proof (induction opts l h data r st rule: multilineString.induct)
  case (2 opts l h data b r st)
  note step = stringStepD [OF "2.prems"(2)]
  consider (dot) "b = CHR ''.''" "l" | (dotbyte) "b = CHR ''.''" "\<not> l" | (crlf) "b = CR \<or> b = LF"
    | (byte) "b \<noteq> CR" "b \<noteq> LF" "b \<noteq> CHR ''.''"
    by blast
  then show ?case
  proof cases
    case dot
    with "2.prems" show ?thesis by (intro "2.IH"(1)) (auto simp: Let_def intro: step)
  next
    case dotbyte
    with "2.prems"(1) obtain d where
      a: "appendStringBytes data opts [b] = Inr d"
      and rec: "multilineString opts False False d r (advance st) = Inr (data', r', st')"
      by (auto simp: Let_def split: sum.split_asm)
    have "P d r (advance st)"
      using "2.prems"(3) dotbyte a by (auto intro: step)
    with dotbyte a rec show ?thesis by (intro "2.IH"(2)) (auto intro: "2.prems")
  next
    case crlf
    with "2.prems"(1) obtain r2 st2 where
      c: "consumeCRLF (b # r) (advance st) = Inr (r2, st2)"
      by (auto simp: Let_def split: sum.split_asm)
    then have P2: "P data r2 st2" using "2.prems"(3) by (blast intro: step)
    show ?thesis
    proof (cases h)
      case True
      with crlf c P2 "2.prems"(1) show ?thesis by (auto simp: Let_def)
    next
      case False
      with crlf c "2.prems"(1) obtain d where
        a: "appendStringBytes data opts crlf = Inr d"
        and rec: "multilineString opts True False d r2 st2 = Inr (data', r', st')"
        by (auto simp: Let_def split: sum.split_asm)
      have "P d r2 st2" using P2 a by (blast intro: step)
      with False crlf c a rec show ?thesis by (intro "2.IH"(3)) (auto intro: "2.prems")
    qed
  next
    case byte
    with "2.prems"(1) obtain d1 d2 where
      a1: "(if h then appendStringBytes data opts ''.'' else Inr data) = Inr d1"
      and a2: "appendStringBytes d1 opts [b] = Inr d2"
      and rec: "multilineString opts False False d2 r (advance st) = Inr (data', r', st')"
      by (auto simp: Let_def split: sum.split_asm)
    have "P d1 r (advance st)"
      using "2.prems"(3) a1 by (auto intro: step split: if_splits)
    then have "P d2 r (advance st)"
      using byte a2 by (blast intro: step)
    with byte a1 a2 rec show ?thesis by (intro "2.IH"(4)) (auto intro: "2.prems")
  qed
qed simp

lemma stringStep_length: "stringStep opts (\<lambda>str r st. length r \<le> n)"
  by (auto simp: stringStep_def dest: consumeCRLF_shorter)

lemma quotedString_length [consumes]:
  "quotedString opts a str r st = Inr (str', r', st') \<Longrightarrow> length r' \<le> length r"
  by (erule quotedString_loop [OF _ stringStep_length]) simp

lemma multilineString_length [consumes]:
  "multilineString opts a h data r st = Inr (str', r', st') \<Longrightarrow> length r' \<le> length r"
  by (erule multilineString_loop [OF _ stringStep_length]) simp

lemma textBlanks_length [consumes]: "textBlanks r st = Inr (r', st') \<Longrightarrow> length r' \<le> length r"
  by (induction r st rule: textBlanks.induct)
    (auto simp: Let_def split: if_splits dest: hashComment_length consumeCRLF_shorter)

lemma wordToken_length [consumes]: "wordToken b r st = Inr (tc, r', st') \<Longrightarrow> length r' \<le> length r"
  by (auto simp: wordToken_def split: if_splits sum.splits prod.splits
      dest: read_identifier_length number_length)

lemma textToken_length [consumes]: "textToken opts r st = Inr (tc, r', st') \<Longrightarrow> length r' \<le> length r"
  by (fastforce simp: textToken_def split: if_splits sum.splits prod.splits
      dest: textBlanks_length multilineString_length wordToken_length)

text \<open>
  Case analysis of a successful turn: which reader ran and what it left.
\<close>

lemma nextToken_cases:
  assumes "nextToken opts b r st = Inr ((tok, continue), r', st')"
  obtains (delimiter) "tok = delimiter b st" "tok \<noteq> None" "\<not> continue" "r' = r" "st' = st"
    | (blank) "tok = None" "continue" "r' = r" "st' = st"
    | (crlf) "tok = None" "\<not> continue" "consumeCRLF (b # r) st = Inr (r', st')"
    | (quoted) str where "tok = Some (StringTok st str)" "\<not> continue"
        "quotedString opts False [] r st = Inr (str, r', st')"
    | (hash) "tok = None" "\<not> continue" "hashComment r st = Inr (r', st')"
    | (comment) r2 where "tok = None" "\<not> continue" "r = CHR ''*'' # r2"
        "multilineComment False r2 (advance st) = Inr (r', st')"
    | (textblock) "b = CHR ''t''" "textToken opts r st = Inr ((tok, continue), r', st')"
    | (word) "wordToken b r st = Inr ((tok, continue), r', st')"
proof -
  note split_asm = if_split_asm sum.split_asm prod.split_asm list.split_asm
  consider "b = CHR 0x00" | "delimiter b st \<noteq> None" "b \<noteq> CHR 0x00"
    | "b = CHR '' '' \<or> b = TAB" | "b = CR \<or> b = LF" | "b = DQUOTE" | "b = CHR ''#''" | "b = CHR ''/''"
    | "b = CHR ''t''" | "nextToken opts b r st = wordToken b r st"
    unfolding nextToken_def by argo
  then show ?thesis
  proof cases
    case 1 with assms show ?thesis by (simp add: nextToken_def)
  next
    case 2 with assms show ?thesis by (intro delimiter) (auto simp: nextToken_def)
  next
    case 3 with assms show ?thesis by (intro blank) (auto simp: nextToken_def delimiter_def)
  next
    case 4 with assms show ?thesis
      by (intro crlf) (auto simp: nextToken_def delimiter_def split: split_asm)
  next
    case 5 with assms show ?thesis
      by (auto simp: nextToken_def delimiter_def split: split_asm intro: quoted)
  next
    case 6 with assms show ?thesis
      by (intro hash) (auto simp: nextToken_def delimiter_def split: split_asm)
  next
    case 7 with assms show ?thesis
      by (auto simp: nextToken_def delimiter_def split: split_asm intro: comment)
  next
    case 8 with assms show ?thesis by (intro textblock) (simp_all add: nextToken_def delimiter_def)
  next
    case 9 with assms show ?thesis by (intro word) simp
  qed
qed

lemma nextToken_length [consumes]: "nextToken opts b r st = Inr ((tok, c), r', st') \<Longrightarrow> length r' \<le> length r"
  by (erule nextToken_cases)
    (auto dest: textToken_length wordToken_length multilineComment_length hashComment_length
        quotedString_length consumeCRLF_shorter)

definition startPosition :: "lex_options \<Rightarrow> position \<Rightarrow> position" where
  "startPosition opts st = (if NoPosition opts then st\<lparr>Line := 0, Col := 0\<rparr> else advance st)"

definition appendToken :: "token list \<Rightarrow> token option \<Rightarrow> token list" where
  "appendToken res tok = (case tok of None \<Rightarrow> res | Some t \<Rightarrow> res @ [t])"

function (sequential) tokenStream ::
  "lex_options \<Rightarrow> bytes \<Rightarrow> position \<Rightarrow> token list \<Rightarrow> (lex_error, token list) result" where
  "tokenStream opts [] st res = Inr res"
| "tokenStream opts (b # r) st res =
     (case nextToken opts b r (startPosition opts st) of
        Inl e \<Rightarrow> Inl e
      | Inr ((tok, continue), r', st') \<Rightarrow>
          (let res' = appendToken res tok in
           if \<not> continue \<and> MaxTokens opts \<noteq> 0 \<and> int (length res') > MaxTokens opts
           then Inl TooManyTokens
           else tokenStream opts r' st' res'))"
  by pat_completeness auto
termination
  by (relation "measure (\<lambda>(opts, r, st, res). length r)") (auto dest: nextToken_length)

definition initState :: "lex_options \<Rightarrow> position" where
  "initState opts = \<lparr>File = Filename opts, Line = 1, Col = 0\<rparr>"

definition Lex :: "lex_options \<Rightarrow> bytes \<Rightarrow> (lex_error, token list) result" where
  "Lex opts r =
     (case tokenStream opts r (initState opts) [] of
        Inl e \<Rightarrow> if e = EOF then Inl UnexpectedEOF else Inl e
      | Inr toks \<Rightarrow> Inr toks)"

section \<open>Positions only move forward\<close>

definition follows :: "position \<Rightarrow> position \<Rightarrow> bool" where
  "follows st st' \<longleftrightarrow> File st' = File st \<and>
     (Line st < Line st' \<and> 0 \<le> Col st' \<or> Line st = Line st' \<and> Col st \<le> Col st')"

lemma follows_refl [simp]: "follows st st"
  by (simp add: follows_def)

lemma follows_trans [trans]: "follows a b \<Longrightarrow> follows b c \<Longrightarrow> follows a c"
  by (auto simp: follows_def)

lemma follows_advance [simp]: "follows st (advance st)"
  by (simp add: follows_def advance_def)

lemma follows_newline [simp]: "follows st (newline st)"
  by (simp add: follows_def newline_def)

lemma retreat_advance [simp]: "retreat (advance st) = st"
  by (simp add: retreat_def advance_def)

lemma follows_advanceD: "follows (advance st) st' \<Longrightarrow> follows st st'"
  by (rule follows_trans [OF follows_advance])

lemma follows_newlineD: "follows (newline st) st' \<Longrightarrow> follows st st'"
  by (rule follows_trans [OF follows_newline])

lemma consumeCRLF_follows: "consumeCRLF r st = Inr (r', st') \<Longrightarrow> follows st st'"
  by (cases r) (auto simp: consumeCRLF.simps split: if_splits list.splits)

lemma read_identifier_follows: "read_identifier r name st = (str, r', st') \<Longrightarrow> follows st st'"
  by (induction r name st rule: read_identifier.induct)
    (auto simp: Let_def dest: follows_advanceD split: if_splits)

lemma number_digits_follows: "number_digits r num st = (num', q, r', st') \<Longrightarrow> follows st st'"
  by (induction r num st rule: number_digits.induct)
    (auto simp: Let_def dest: follows_advanceD split: if_splits option.splits)

lemma number_follows: "number r s st = Inr (vq, r', st') \<Longrightarrow> follows st st'"
  by (auto simp: number_def split: prod.splits option.splits dest: number_digits_follows)

lemma hashComment_follows: "hashComment r st = Inr (r', st') \<Longrightarrow> follows st st'"
  by (induction r st rule: hashComment.induct)
    (auto simp: Let_def split: if_splits dest: follows_advanceD consumeCRLF_follows)

lemma multilineComment_follows: "multilineComment w r st = Inr (r', st') \<Longrightarrow> follows st st'"
  by (induction w r st rule: multilineComment.induct)
    (auto simp: Let_def dest: follows_advanceD follows_newlineD split: if_splits)

lemma stringStep_follows: "stringStep opts (\<lambda>str r st. follows st0 st)"
  by (auto simp: stringStep_def dest!: consumeCRLF_follows follows_advanceD
      intro: follows_trans follows_trans [OF _ follows_advance])

lemma quotedString_follows: "quotedString opts a str r st = Inr (str', r', st') \<Longrightarrow> follows st st'"
  by (erule quotedString_loop [OF _ stringStep_follows]) simp

lemma multilineString_follows:
  "multilineString opts a h data r st = Inr (str', r', st') \<Longrightarrow> follows st st'"
  by (erule multilineString_loop [OF _ stringStep_follows]) simp

lemma textBlanks_follows: "textBlanks r st = Inr (r', st') \<Longrightarrow> follows st st'"
  by (induction r st rule: textBlanks.induct)
    (auto simp: Let_def split: if_splits
      dest: follows_advanceD hashComment_follows consumeCRLF_follows)

lemmas reader_follows =
  consumeCRLF_follows read_identifier_follows number_follows hashComment_follows
  multilineComment_follows quotedString_follows multilineString_follows textBlanks_follows

lemma wordToken_cases:
  assumes "wordToken b r st = Inr ((tok, continue), r', st')"
  obtains (ident) str where "is_alpha b" "tok = Some (Identifier st str)" "\<not> continue"
      "read_identifier r [b] st = (str, r', st')"
    | (num) v q where "is_digit b" "tok = Some (Number st v q)" "\<not> continue"
      "number r [b] st = Inr ((v, q), r', st')"
  using assms
  by (auto simp: wordToken_def split: if_splits sum.splits prod.splits)

lemma textToken_cases:
  assumes "textToken opts r st = Inr ((tok, continue), r', st')"
  obtains (textblock) str r1 st1 where "tok = Some (StringTok st str)" "continue" "take 4 r = ''ext:''"
      "textBlanks (drop 4 r) (st\<lparr>Col := Col st + 4\<rparr>) = Inr (r1, st1)"
      "multilineString opts False False [] r1 st1 = Inr (str, r', st')"
    | (word) "wordToken CHR ''t'' r st = Inr ((tok, continue), r', st')"
  using assms
  by (auto simp: textToken_def split: if_splits sum.splits prod.splits)

text \<open>\<open>token.go\<close>: every token embeds the position at which it starts.\<close>

fun tok_pos :: "token \<Rightarrow> position" where
  "tok_pos (Identifier p s) = p"
| "tok_pos (Number p v q) = p"
| "tok_pos (StringTok p s) = p"
| "tok_pos (ListStart p) = p"
| "tok_pos (ListEnd p) = p"
| "tok_pos (BlockStart p) = p"
| "tok_pos (BlockEnd p) = p"
| "tok_pos (TestListStart p) = p"
| "tok_pos (TestListEnd p) = p"
| "tok_pos (Comma p) = p"
| "tok_pos (Semicolon p) = p"
| "tok_pos (Colon p) = p"

lemma delimiter_pos: "delimiter b st = Some t \<Longrightarrow> tok_pos t = st"
  by (auto simp: delimiter_def split: if_splits)

lemma wordToken_follows:
  "wordToken b r st = Inr ((tok, c), r', st') \<Longrightarrow> follows st st' \<and> (\<forall>t. tok = Some t \<longrightarrow> tok_pos t = st)"
  by (erule wordToken_cases) (auto dest: reader_follows)

lemma follows_skip4: "follows (st\<lparr>Col := Col st + 4\<rparr>) st' \<Longrightarrow> follows st st'"
  by (erule follows_trans [rotated]) (simp add: follows_def)

lemma textToken_follows:
  "textToken opts r st = Inr ((tok, c), r', st') \<Longrightarrow> follows st st' \<and> (\<forall>t. tok = Some t \<longrightarrow> tok_pos t = st)"
  by (erule textToken_cases)
    (auto dest: wordToken_follows follows_skip4 intro: follows_trans dest!: reader_follows)

lemma nextToken_follows:
  "nextToken opts b r st = Inr ((tok, c), r', st') \<Longrightarrow> follows st st' \<and> (\<forall>t. tok = Some t \<longrightarrow> tok_pos t = st)"
  by (erule nextToken_cases)
    (auto dest: delimiter_pos reader_follows follows_advanceD wordToken_follows textToken_follows)

lemma tokenStream_loop:
  "tokenStream opts r st res = Inr toks \<Longrightarrow> P st res \<Longrightarrow>
   (\<And>b r st res tok c r' st'. P st res \<Longrightarrow> nextToken opts b r (startPosition opts st) = Inr ((tok, c), r', st') \<Longrightarrow>
      c \<or> MaxTokens opts = 0 \<or> int (length (appendToken res tok)) \<le> MaxTokens opts \<Longrightarrow>
      P st' (appendToken res tok)) \<Longrightarrow>
   \<exists>st'. P st' toks"
proof (induction opts r st res rule: tokenStream.induct)
  case (2 opts b r st res)
  from "2.prems"(1) obtain tok c r' st' where
    n: "nextToken opts b r (startPosition opts st) = Inr ((tok, c), r', st')"
    and l: "\<not> (\<not> c \<and> MaxTokens opts \<noteq> 0 \<and> int (length (appendToken res tok)) > MaxTokens opts)"
    and rec: "tokenStream opts r' st' (appendToken res tok) = Inr toks"
    by (auto simp: Let_def split: sum.split_asm prod.split_asm if_split_asm)
  have "P st' (appendToken res tok)"
    using l by (intro "2.prems"(3) [OF "2.prems"(2) n]) auto
  with n l rec show ?case by (intro "2.IH") (auto intro: "2.prems"(3))
qed auto

definition pos_before :: "position \<Rightarrow> position \<Rightarrow> bool" where
  "pos_before p q \<longleftrightarrow> Line p < Line q \<or> Line p = Line q \<and> Col p < Col q"

lemma follows_pos_before: "follows p st \<Longrightarrow> pos_before p (advance st)"
  by (auto simp: follows_def pos_before_def advance_def)

definition positions_ok :: "lex_options \<Rightarrow> position \<Rightarrow> token list \<Rightarrow> bool" where
  "positions_ok opts st res \<longleftrightarrow>
     1 \<le> Line st \<and> 0 \<le> Col st \<and> File st = Filename opts \<and>
     sorted_wrt pos_before (map tok_pos res) \<and>
     (\<forall>p \<in> set (map tok_pos res). File p = Filename opts \<and> 1 \<le> Line p \<and> 1 \<le> Col p \<and> follows p st)"

lemma positions_ok_step:
  assumes ok: "positions_ok opts st res" and pos: "\<not> NoPosition opts"
    and n: "nextToken opts b r (startPosition opts st) = Inr ((tok, c), r', st')"
  shows "positions_ok opts st' (appendToken res tok)"
proof -
  have f: "follows (advance st) st'" and p: "\<And>t. tok = Some t \<Longrightarrow> tok_pos t = advance st"
    using nextToken_follows [OF n] pos by (auto simp: startPosition_def)
  have st': "1 \<le> Line st' \<and> 0 \<le> Col st' \<and> File st' = Filename opts"
    using f ok by (auto simp: positions_ok_def follows_def advance_def)
  have old: "\<forall>q \<in> set (map tok_pos res). follows q st' \<and> pos_before q (advance st)"
    using ok f by (auto simp: positions_ok_def intro: follows_pos_before follows_trans dest: follows_advanceD)
  have new: "1 \<le> Line (advance st) \<and> 1 \<le> Col (advance st) \<and> File (advance st) = Filename opts"
    using ok by (auto simp: positions_ok_def advance_def)
  show ?thesis
    using ok st' old new f p
    by (cases tok) (auto simp: positions_ok_def appendToken_def sorted_wrt_append)
qed

section \<open>Shape of the tokens\<close>

text \<open>
  A line break inside a string token is always CRLF: the readers turn a bare LF into
  CRLF and refuse a bare CR.
\<close>

fun crlf_normal :: "bytes \<Rightarrow> bool" where
  "crlf_normal [] = True"
| "crlf_normal (b # r) =
     (if b = CR then (case r of [] \<Rightarrow> False | b2 # r2 \<Rightarrow> b2 = LF \<and> crlf_normal r2)
      else b \<noteq> LF \<and> crlf_normal r)"

lemma crlf_normal_append: "crlf_normal a \<Longrightarrow> crlf_normal b \<Longrightarrow> crlf_normal (a @ b)"
  by (induction a rule: crlf_normal.induct) (auto split: if_splits list.splits)

fun wf_token :: "lex_options \<Rightarrow> token \<Rightarrow> bool" where
  "wf_token opts (Identifier p s) = IsValidIdentifier s"
| "wf_token opts (Number p v q) = (0 \<le> v \<and> v \<le> maxInt64)"
| "wf_token opts (StringTok p s) =
     (crlf_normal s \<and> (MaxStringBytes opts > 0 \<longrightarrow> int (length s) \<le> MaxStringBytes opts))"
| "wf_token opts t = True"

lemma stringStep_wf: "stringStep opts (\<lambda>str r st. wf_token opts (StringTok p str))"
  by (auto simp: stringStep_def appendStringBytes_def split: if_splits intro: crlf_normal_append)

lemma quotedString_wf:
  "quotedString opts a [] r st = Inr (str, r', st') \<Longrightarrow> wf_token opts (StringTok p str)"
  by (erule quotedString_loop [OF _ stringStep_wf]) simp

lemma multilineString_wf:
  "multilineString opts a h [] r st = Inr (str, r', st') \<Longrightarrow> wf_token opts (StringTok p str)"
  by (erule multilineString_loop [OF _ stringStep_wf]) simp

lemma read_identifier_valid:
  "read_identifier r name st = (str, r', st') \<Longrightarrow> IsValidIdentifier name \<Longrightarrow> IsValidIdentifier str"
  by (induction r name st rule: read_identifier.induct)
    (auto simp: Let_def IsValidIdentifier_def split: if_splits list.splits)

lemma number_digits_all:
  "number_digits r num st = (num', q, r', st') \<Longrightarrow> all_digits num \<Longrightarrow> all_digits num'"
  by (induction r num st rule: number_digits.induct)
    (auto simp: Let_def all_digits_def split: if_splits option.splits)

lemma Atoi_all_digits: "all_digits s \<Longrightarrow> Atoi s = Some v \<Longrightarrow> 0 \<le> v \<and> v \<le> maxInt64"
  by (cases s) (auto simp: Atoi_def Let_def all_digits_def char_class split: if_splits)

lemma number_wf: "number r [b] st = Inr ((v, q), r', st') \<Longrightarrow> is_digit b \<Longrightarrow> 0 \<le> v \<and> v \<le> maxInt64"
  by (auto simp: number_def split: prod.splits option.splits
      dest!: number_digits_all Atoi_all_digits) (simp_all add: all_digits_def)

lemma read_identifier_word:
  "read_identifier r [b] st = (str, r', st') \<Longrightarrow> is_alpha b \<Longrightarrow> IsValidIdentifier str"
  by (erule read_identifier_valid) (simp add: IsValidIdentifier_def)

lemma wordToken_wf:
  "wordToken b r st = Inr ((tok, c), r', st') \<Longrightarrow> tok = Some t \<Longrightarrow> wf_token opts t"
  by (erule wordToken_cases)
    (auto dest: number_wf read_identifier_word)

lemma textToken_wf:
  "textToken opts r st = Inr ((tok, c), r', st') \<Longrightarrow> tok = Some t \<Longrightarrow> wf_token opts t"
  by (erule textToken_cases) (auto dest: wordToken_wf multilineString_wf simp del: wf_token.simps)

lemma delimiter_wf: "delimiter b st = Some t \<Longrightarrow> wf_token opts t"
  by (auto simp: delimiter_def split: if_splits)

lemma nextToken_wf:
  "nextToken opts b r st = Inr ((tok, c), r', st') \<Longrightarrow> tok = Some t \<Longrightarrow> wf_token opts t"
  by (erule nextToken_cases)
    (auto dest: delimiter_wf quotedString_wf textToken_wf wordToken_wf simp del: wf_token.simps)

lemma tokenStream_wf:
  assumes "tokenStream opts r st res = Inr toks" and "list_all (wf_token opts) res"
  shows "list_all (wf_token opts) toks"
proof -
  have "\<exists>st' :: position. list_all (wf_token opts) toks"
    using assms
    by (rule tokenStream_loop [where P = "\<lambda>st res. list_all (wf_token opts) res"])
      (auto simp: appendToken_def dest: nextToken_wf split: option.splits)
  then show ?thesis by simp
qed

end
