(* ===== verification/Lexer_Write.thy ===== *)
theory Lexer_Write
  imports Lexer
begin

text \<open>
  The printer of package \<open>lexer\<close> (\<open>write.go\<close>) and the laws that tie it to the lexer:
  what \<open>Lex\<close> returns is well formed, its positions increase, and printing the tokens
  and lexing the text again gives the tokens back.
\<close>

section \<open>The printer\<close>

fun escape :: "bytes \<Rightarrow> bytes" where
  "escape [] = []"
| "escape (b # r) =
     (if b = DQUOTE then [BACKSLASH, DQUOTE]
      else if b = BACKSLASH then [BACKSLASH, BACKSLASH]
      else [b]) @ escape r"

definition formatString :: "bytes \<Rightarrow> bytes" where
  "formatString s = DQUOTE # escape s @ [DQUOTE]"

definition quantifier_suffix :: "quantifier \<Rightarrow> bytes" where
  "quantifier_suffix q =
     (case q of NoQuantifier \<Rightarrow> [] | Kilo \<Rightarrow> ''K'' | Mega \<Rightarrow> ''M'' | Giga \<Rightarrow> ''G'')"

fun writeToken :: "token \<Rightarrow> bytes" where
  "writeToken (Identifier p s) = s"
| "writeToken (Number p v q) = Itoa v @ quantifier_suffix q"
| "writeToken (StringTok p s) = formatString s"
| "writeToken (ListStart p) = ''[''"
| "writeToken (ListEnd p) = '']''"
| "writeToken (TestListStart p) = ''(''"
| "writeToken (TestListEnd p) = '')''"
| "writeToken (BlockStart p) = ''{''"
| "writeToken (BlockEnd p) = ''}''"
| "writeToken (Comma p) = '',''"
| "writeToken (Semicolon p) = '';''"
| "writeToken (Colon p) = '':''"

fun Write :: "token list \<Rightarrow> bytes" where
  "Write [] = []"
| "Write (t # ts) = writeToken t @ '' '' @ Write ts"

section \<open>Reading back one token\<close>

lemma read_identifier_stop:
  "list_all is_ident_char s \<Longrightarrow> \<not> is_ident_char b \<Longrightarrow>
   \<exists>st'. read_identifier (s @ b # r) name st = (name @ s, b # r, st')"
proof (induction s arbitrary: name st)
  case (Cons a s)
  then show ?case using Cons.IH [of "name @ [a]" "advance st"] by (auto simp: Let_def)
qed (simp add: Let_def)

lemma quantifier_of_digit: "is_digit b \<Longrightarrow> quantifier_of b = None"
  by (auto simp: quantifier_of_def is_digit_def)

lemma number_digits_stop:
  "list_all is_digit s \<Longrightarrow>
   \<exists>st'. number_digits (s @ quantifier_suffix q @ '' '' @ r) num st = (num @ s, q, '' '' @ r, st')"
proof (induction s arbitrary: num st)
  case Nil
  then show ?case
    by (cases q) (auto simp: quantifier_suffix_def Let_def quantifier_of_def is_digit_def)
next
  case (Cons b s)
  then show ?case using Cons.IH [of "num @ [b]" "advance st"]
    by (auto simp: Let_def quantifier_of_digit)
qed

lemma number_read_back:
  assumes "0 \<le> v" and "v \<le> maxInt64"
  shows "\<exists>b s st'. Itoa v = b # s \<and> is_digit b \<and>
    number (s @ quantifier_suffix q @ '' '' @ r) [b] st = Inr ((v, q), '' '' @ r, st')"
proof -
  obtain b s where i: "Itoa v = b # s" and d: "is_digit b" "list_all is_digit s"
    using assms nat_to_dec_digits [of "nat v"] unfolding Itoa_def all_digits_def
    by (cases "nat_to_dec (nat v)") auto
  obtain st' where "number_digits (s @ quantifier_suffix q @ '' '' @ r) [b] st = ([b] @ s, q, '' '' @ r, st')"
    using number_digits_stop [OF d(2)] by blast
  moreover have "Atoi ([b] @ s) = Some v" using Atoi_Itoa [OF assms] i by simp
  ultimately show ?thesis using i d by (auto simp: number_def)
qed

lemma appendStringBytes_fits:
  "MaxStringBytes opts > 0 \<longrightarrow> int (length (str @ s @ t)) \<le> MaxStringBytes opts \<Longrightarrow>
   appendStringBytes str opts s = Inr (str @ s)"
  by (auto simp: appendStringBytes_def)

lemma quotedString_read_back:
  "crlf_normal s \<Longrightarrow> MaxStringBytes opts > 0 \<longrightarrow> int (length (str @ s)) \<le> MaxStringBytes opts \<Longrightarrow>
   \<exists>st'. quotedString opts False str (escape s @ DQUOTE # r) st = Inr (str @ s, r, st')"
proof (induction s arbitrary: str st rule: crlf_normal.induct)
  case 1
  then show ?case by (simp add: Let_def)
next
  case (2 b s)
  show ?case
  proof (cases "b = CR")
    case True
    with "2.prems"(1) obtain s2 where s: "s = LF # s2" and n: "crlf_normal s2"
      by (auto split: list.splits)
    have a: "appendStringBytes str opts crlf = Inr (str @ crlf)"
      using "2.prems"(2) True s by (intro appendStringBytes_fits [where t = s2]) simp
    have "\<exists>st'. quotedString opts False (str @ crlf) (escape s2 @ DQUOTE # r) (newline (advance st))
        = Inr ((str @ crlf) @ s2, r, st')"
      using "2.prems"(2) True s n by (intro "2.IH"(1)) auto
    then show ?thesis using True s a by (auto simp: Let_def consumeCRLF.simps)
  next
    case False
    with "2.prems"(1) have b: "b \<noteq> LF" and n: "crlf_normal s" by auto
    have a: "appendStringBytes str opts [b] = Inr (str @ [b])"
      using "2.prems"(2) by (intro appendStringBytes_fits [where t = s]) simp
    have "\<exists>st'. quotedString opts False (str @ [b]) (escape s @ DQUOTE # r) st1
        = Inr ((str @ [b]) @ s, r, st')" for st1
      using "2.prems"(2) False n by (intro "2.IH"(2)) auto
    then show ?thesis using False b a by (auto simp: Let_def)
  qed
qed

text \<open>The bytes with a meaning of their own, which no word starts with.\<close>

definition special :: bytes where
  "special = CHR 0x00 # TAB # CR # LF # DQUOTE # ''[]{}(),:; #/''"

lemma alpha_not_special: "is_alpha b \<Longrightarrow> b \<notin> set special"
  by (auto simp: char_class special_def)

lemma digit_not_special: "is_digit b \<Longrightarrow> b \<notin> set special \<and> b \<noteq> CHR ''t'' \<and> \<not> is_alpha b"
  by (auto simp: char_class special_def)

lemma nextToken_word:
  "b \<notin> set special \<Longrightarrow>
   nextToken opts b r st = (if b = CHR ''t'' then textToken opts r st else wordToken b r st)"
  by (simp add: nextToken_def delimiter_def special_def)

lemma not_ident_space [simp]: "\<not> is_ident_char CHR '' ''"
  by (simp add: char_class)

lemma not_ext:
  assumes "list_all is_ident_char s"
  shows "take 4 (s @ '' '' @ rest) \<noteq> ''ext:''"
proof
  assume e: "take 4 (s @ '' '' @ rest) = ''ext:''"
  have "\<not> 4 \<le> length s"
  proof
    assume "4 \<le> length s"
    with e have "take 4 s = ''ext:''" by simp
    then have "CHR '':'' \<in> set s"
      by (metis in_set_takeD list.set_intros(1) list.set_intros(2))
    with assms show False by (auto simp: list_all_iff char_class)
  qed
  then have "CHR '' '' \<in> set (take 4 (s @ '' '' @ rest))"
    by (simp add: take_Cons')
  with e show False by auto
qed

text \<open>
  \<open>Peek(4)\<close> after a \<open>t\<close> fails when fewer than four bytes are left, so an identifier
  that starts with \<open>t\<close> needs enough input behind it.
\<close>

definition peek_fits :: "token \<Rightarrow> nat \<Rightarrow> bool" where
  "peek_fits t behind =
     (case t of
        Identifier p s \<Rightarrow> (case s of [] \<Rightarrow> True | b # r \<Rightarrow> b \<noteq> CHR ''t'' \<or> 4 \<le> length r + 1 + behind)
      | _ \<Rightarrow> True)"

fun peek_ok :: "token list \<Rightarrow> bool" where
  "peek_ok [] = True"
| "peek_ok (t # ts) = (peek_fits t (length (Write ts)) \<and> peek_ok ts)"

lemma nextToken_identifier:
  assumes "IsValidIdentifier (b # s)" and "b \<noteq> CHR ''t'' \<or> 4 \<le> length s + 1 + length rest"
  shows "\<exists>st'. nextToken opts b (s @ '' '' @ rest) st = Inr ((Some (Identifier st (b # s)), False), '' '' @ rest, st')"
proof -
  have b: "is_alpha b" and s: "list_all is_ident_char s"
    using assms(1) by (auto simp: IsValidIdentifier_def)
  obtain st' where "read_identifier (s @ CHR '' '' # rest) [b] st = ([b] @ s, CHR '' '' # rest, st')"
    using read_identifier_stop [OF s not_ident_space] by blast
  then have w: "wordToken b (s @ '' '' @ rest) st = Inr ((Some (Identifier st (b # s)), False), '' '' @ rest, st')"
    using b by (simp add: wordToken_def)
  show ?thesis
  proof (cases "b = CHR ''t''")
    case True
    with assms(2) have "\<not> length (s @ '' '' @ rest) < 4" by simp
    with True w not_ext [OF s, of rest] alpha_not_special [OF b] show ?thesis
      by (auto simp: nextToken_word textToken_def)
  next
    case False
    with w alpha_not_special [OF b] show ?thesis by (auto simp: nextToken_word)
  qed
qed

lemma nextToken_read_back:
  assumes wf: "wf_token opts t" and peek: "peek_fits t (length rest)"
  shows "\<exists>b s st'. writeToken t = b # s \<and>
    nextToken opts b (s @ '' '' @ rest) (tok_pos t) = Inr ((Some t, False), '' '' @ rest, st')"
proof (cases t)
  case (Identifier p s)
  with wf obtain b r where "s = b # r" by (cases s) (auto simp: IsValidIdentifier_def)
  with Identifier wf peek show ?thesis
    by (auto simp: peek_fits_def intro: nextToken_identifier [simplified])
next
  case (Number p v q)
  with wf obtain b s st' where i: "Itoa v = b # s" and d: "is_digit b"
    and n: "number (s @ quantifier_suffix q @ '' '' @ rest) [b] p = Inr ((v, q), '' '' @ rest, st')"
    using number_read_back [of v q rest p] by auto
  with Number digit_not_special [OF d] show ?thesis
    by (auto simp: nextToken_word wordToken_def)
next
  case (StringTok p s)
  with wf obtain st' where
    "quotedString opts False [] (escape s @ DQUOTE # '' '' @ rest) p = Inr ([] @ s, '' '' @ rest, st')"
    using quotedString_read_back [of s opts "[]" "'' '' @ rest" p] by auto
  with StringTok show ?thesis
    by (auto simp: formatString_def nextToken_def delimiter_def)
qed (auto simp: nextToken_def delimiter_def)

section \<open>Reading back a token list\<close>

text \<open>A token moved to another position: what two tokens share is what they are at the same one.\<close>

fun at_pos :: "position \<Rightarrow> token \<Rightarrow> token" where
  "at_pos p (Identifier _ s) = Identifier p s"
| "at_pos p (Number _ v q) = Number p v q"
| "at_pos p (StringTok _ s) = StringTok p s"
| "at_pos p (ListStart _) = ListStart p"
| "at_pos p (ListEnd _) = ListEnd p"
| "at_pos p (BlockStart _) = BlockStart p"
| "at_pos p (BlockEnd _) = BlockEnd p"
| "at_pos p (TestListStart _) = TestListStart p"
| "at_pos p (TestListEnd _) = TestListEnd p"
| "at_pos p (Comma _) = Comma p"
| "at_pos p (Semicolon _) = Semicolon p"
| "at_pos p (Colon _) = Colon p"

lemma at_pos_simps [simp]:
  "tok_pos (at_pos p t) = p" "writeToken (at_pos p t) = writeToken t" "wf_token opts (at_pos p t) = wf_token opts t"
  "at_pos p (at_pos q t) = at_pos p t" "peek_fits (at_pos p t) n = peek_fits t n"
  by (cases t; simp add: peek_fits_def)+

lemma at_pos_same [simp]: "at_pos (tok_pos t) t = t"
  by (cases t) simp_all

definition noPosition :: "lex_options \<Rightarrow> position" where
  "noPosition opts = \<lparr>File = Filename opts, Line = 0, Col = 0\<rparr>"

lemma startPosition_none:
  "NoPosition opts \<Longrightarrow> File st = Filename opts \<Longrightarrow> startPosition opts st = noPosition opts"
  by (simp add: startPosition_def noPosition_def)

lemma nextToken_blank [simp]: "nextToken opts CHR '' '' r st = Inr ((None, True), r, st)"
  by (simp add: nextToken_def delimiter_def)

lemma tokenStream_read_back:
  assumes "list_all (wf_token opts) ts" and "peek_ok ts"
    and "MaxTokens opts = 0 \<or> int (length res + length ts) \<le> MaxTokens opts"
  shows "\<exists>us. tokenStream opts (Write ts) st res = Inr (res @ us) \<and> map (at_pos p) us = map (at_pos p) ts"
  using assms
proof (induction ts arbitrary: st res)
  case (Cons t ts)
  let ?t = "at_pos (startPosition opts st) t"
  obtain b s st' where w: "writeToken t = b # s" and
    n: "nextToken opts b (s @ '' '' @ Write ts) (startPosition opts st) = Inr ((Some ?t, False), '' '' @ Write ts, st')"
    using nextToken_read_back [of opts ?t "Write ts"] Cons.prems by auto
  obtain us where "tokenStream opts (Write ts) (startPosition opts st') (res @ [?t]) = Inr ((res @ [?t]) @ us)"
    and "map (at_pos p) us = map (at_pos p) ts"
    using Cons.IH [of "res @ [?t]"] Cons.prems by auto
  then show ?case
    using Cons.prems w n by (intro exI [of _ "?t # us"]) (auto simp: appendToken_def)
qed simp

lemma positions_none_step:
  assumes "NoPosition opts" and "File st = Filename opts \<and> (\<forall>t \<in> set res. tok_pos t = noPosition opts)"
    and "nextToken opts b r (startPosition opts st) = Inr ((tok, c), r', st')"
  shows "File st' = Filename opts \<and> (\<forall>t \<in> set (appendToken res tok). tok_pos t = noPosition opts)"
  using assms nextToken_follows [OF assms(3)]
  by (auto simp: startPosition_none follows_def noPosition_def appendToken_def split: option.splits)

lemma positions_none:
  assumes "tokenStream opts r (initState opts) [] = Inr toks" "NoPosition opts"
  shows "\<forall>t \<in> set toks. tok_pos t = noPosition opts"
proof -
  have "\<exists>st' :: position. File st' = Filename opts \<and> (\<forall>t \<in> set toks. tok_pos t = noPosition opts)"
    using assms(1) by (rule tokenStream_loop) (use assms(2) in \<open>auto simp: initState_def dest: positions_none_step\<close>)
  then show ?thesis by simp
qed

lemma at_noPosition: "\<forall>t \<in> set ts. tok_pos t = p \<Longrightarrow> map (at_pos p) ts = ts"
  by (induction ts) auto

section \<open>Text blocks\<close>

text \<open>
  Dot-stuffing (RFC 5228, 2.4.2): a dot that starts a line is doubled.  The flag says whether
  the text starts at the beginning of a line, so \<open>dot_stuff True\<close> encodes a whole text.
  \<open>multilineString\<close> starts with \<open>atLF\<close> false and does not undo the stuffing of the first line.
\<close>

fun dot_stuff :: "bool \<Rightarrow> bytes \<Rightarrow> bytes" where
  "dot_stuff l [] = []"
| "dot_stuff l (b # s) = (if l \<and> b = CHR ''.'' then ''..'' else [b]) @ dot_stuff (b = LF) s"

definition ends_line :: "bool \<Rightarrow> bytes \<Rightarrow> bool" where
  "ends_line l s = (if s = [] then l else last s = LF)"

lemma multilineString_read_back:
  "crlf_normal s \<Longrightarrow> ends_line l s \<Longrightarrow>
   MaxStringBytes opts > 0 \<longrightarrow> int (length (str @ s)) \<le> MaxStringBytes opts \<Longrightarrow>
   \<exists>st'. multilineString opts l False str (dot_stuff l s @ CHR ''.'' # crlf @ r) st = Inr (str @ s, r, st')"
proof (induction s arbitrary: l str st rule: crlf_normal.induct)
  case 1
  then show ?case by (simp add: Let_def ends_line_def consumeCRLF.simps)
next
  case (2 b s)
  show ?case
  proof (cases "b = CR")
    case True
    with "2.prems"(1) obtain s2 where s: "s = LF # s2" and n: "crlf_normal s2"
      by (auto split: list.splits)
    have a: "appendStringBytes str opts crlf = Inr (str @ crlf)"
      using "2.prems"(3) True s by (intro appendStringBytes_fits [where t = s2]) simp
    have "\<exists>st'. multilineString opts True False (str @ crlf) (dot_stuff True s2 @ CHR ''.'' # crlf @ r)
        (newline (advance st)) = Inr ((str @ crlf) @ s2, r, st')"
      using "2.prems"(2,3) True s n by (intro "2.IH"(1)) (auto simp: ends_line_def)
    then show ?thesis using True s a by (auto simp: Let_def consumeCRLF.simps)
  next
    case False
    with "2.prems"(1) have b: "b \<noteq> LF" and n: "crlf_normal s" by auto
    with "2.prems"(2) have e: "ends_line False s" by (auto simp: ends_line_def)
    have a: "appendStringBytes str opts [b] = Inr (str @ [b])"
      using "2.prems"(3) by (intro appendStringBytes_fits [where t = s]) simp
    have "\<exists>st'. multilineString opts False False (str @ [b]) (dot_stuff False s @ CHR ''.'' # crlf @ r) st1
        = Inr ((str @ [b]) @ s, r, st')" for st1
      using "2.prems"(3) False n e by (intro "2.IH"(2)) auto
    then show ?thesis using False b a by (auto simp: Let_def)
  qed
qed

lemma wordToken_no_continue: "wordToken b r st = Inr ((tok, c), r', st') \<Longrightarrow> \<not> c"
  by (erule wordToken_cases) auto

lemma textToken_continue:
  "textToken opts r st = Inr ((tok, c), r', st') \<Longrightarrow> c \<Longrightarrow> \<exists>p s. tok = Some (StringTok p s)"
  by (erule textToken_cases) (auto dest: wordToken_no_continue)

lemma nextToken_continue:
  "nextToken opts b r st = Inr ((tok, c), r', st') \<Longrightarrow> c \<Longrightarrow> tok = None \<or> (\<exists>p s. tok = Some (StringTok p s))"
  by (erule nextToken_cases) (auto dest: wordToken_no_continue textToken_continue)

section \<open>Properties\<close>

text \<open>
  C21. Every token \<open>Lex\<close> returns is well formed: an identifier is a letter followed by
  letters, digits and underscores, a number is a non-negative 64-bit integer, and a string
  holds line breaks as CRLF only and respects \<open>MaxStringBytes\<close>.
\<close>

theorem lex_wf_tokens:
  assumes "Lex opts r = Inr toks"
  shows "list_all (wf_token opts) toks"
  using assms
  by (auto simp: Lex_def split: sum.splits if_splits intro: tokenStream_wf)

theorem lex_wf_tokens_witness:
  "Lex \<lparr>Filename = [], NoPosition = False, MaxTokens = 0, MaxStringBytes = 3\<rparr> ''a 7K''
     = Inr [Identifier (LineCol 1 1) ''a'', Number (LineCol 1 3) 7 Kilo] \<and>
   list_all (wf_token \<lparr>Filename = [], NoPosition = False, MaxTokens = 0, MaxStringBytes = 3\<rparr>)
     [Identifier (LineCol 1 1) ''a'', Number (LineCol 1 3) 7 Kilo]"
proof -
  have "Lex \<lparr>Filename = [], NoPosition = False, MaxTokens = 0, MaxStringBytes = 3\<rparr> ''a 7K''
     = Inr [Identifier (LineCol 1 1) ''a'', Number (LineCol 1 3) 7 Kilo]"
    by code_simp
  with lex_wf_tokens [OF this] show ?thesis by blast
qed

text \<open>
  C6. The fuzz property of the lexer, with its missing hypotheses made explicit: printing
  the tokens of any script and lexing the text again gives the same tokens up to their
  positions, and the very same when \<open>NoPosition\<close> is set.  Every identifier that starts with
  \<open>t\<close> must have four bytes behind its first letter, and the number of tokens must be within
  \<open>MaxTokens\<close>, which \<open>text:\<close> blocks can exceed.
\<close>

theorem lex_write_roundtrip:
  assumes "Lex opts r = Inr toks" and "peek_ok toks"
    and "MaxTokens opts = 0 \<or> int (length toks) \<le> MaxTokens opts"
  shows "\<exists>toks'. Lex opts (Write toks) = Inr toks' \<and> map (at_pos p) toks' = map (at_pos p) toks \<and>
    (NoPosition opts \<longrightarrow> toks' = toks)"
proof -
  have t: "tokenStream opts r (initState opts) [] = Inr toks"
    using assms(1) by (auto simp: Lex_def split: sum.splits if_splits)
  then have "list_all (wf_token opts) toks" by (auto intro: tokenStream_wf)
  then obtain us where us: "tokenStream opts (Write toks) (initState opts) [] = Inr us"
    and same: "map (at_pos (noPosition opts)) us = map (at_pos (noPosition opts)) toks"
    using tokenStream_read_back [of opts toks "[]" "initState opts" "noPosition opts"] assms by auto
  have "map (at_pos p) us = map (at_pos p \<circ> at_pos (noPosition opts)) us" by simp
  also have "\<dots> = map (at_pos p) (map (at_pos (noPosition opts)) toks)" using same by (metis map_map)
  finally have "map (at_pos p) us = map (at_pos p) toks" by simp
  moreover have "us = toks" if "NoPosition opts"
    using same at_noPosition [OF positions_none [OF t that]] at_noPosition [OF positions_none [OF us that]] by simp
  ultimately show ?thesis using us by (simp add: Lex_def)
qed

theorem lex_write_roundtrip_witness:
  "\<exists>toks'. Lex \<lparr>Filename = [], NoPosition = False, MaxTokens = 9, MaxStringBytes = 0\<rparr>
      (Write [Identifier (LineCol 1 1) ''test'', Semicolon (LineCol 1 8)]) = Inr toks' \<and>
    map (at_pos (LineCol 0 0)) toks' = [Identifier (LineCol 0 0) ''test'', Semicolon (LineCol 0 0)]"
proof -
  let ?o = "\<lparr>Filename = [], NoPosition = False, MaxTokens = 9, MaxStringBytes = 0\<rparr>"
  have l: "Lex ?o ''test   ;'' = Inr [Identifier (LineCol 1 1) ''test'', Semicolon (LineCol 1 8)]"
    by code_simp
  have p: "peek_ok [Identifier (LineCol 1 1) ''test'', Semicolon (LineCol 1 8)]"
    by code_simp
  show ?thesis using lex_write_roundtrip [OF l p, of "LineCol 0 0"] by simp
qed

text \<open>
  The hypothesis of the round trip is needed: there is a script that lexes, whose printed
  tokens do not, because \<open>Peek(4)\<close> runs into the end of the input behind a \<open>t\<close>.
\<close>

theorem lex_write_short_identifier:
  "\<exists>r toks. Lex \<lparr>Filename = [], NoPosition = True, MaxTokens = 0, MaxStringBytes = 0\<rparr> r = Inr toks \<and>
     Lex \<lparr>Filename = [], NoPosition = True, MaxTokens = 0, MaxStringBytes = 0\<rparr> (Write toks) = Inl UnexpectedEOF"
proof (intro exI conjI)
  show "Lex \<lparr>Filename = [], NoPosition = True, MaxTokens = 0, MaxStringBytes = 0\<rparr> ''to   ''
      = Inr [Identifier (LineCol 0 0) ''to'']"
    by code_simp
  show "Lex \<lparr>Filename = [], NoPosition = True, MaxTokens = 0, MaxStringBytes = 0\<rparr>
      (Write [Identifier (LineCol 0 0) ''to'']) = Inl UnexpectedEOF"
    by code_simp
qed

text \<open>
  C34. Unless \<open>NoPosition\<close> is set, the tokens carry the file name and real positions (line
  and column count from one), and the positions increase strictly along the token list.
\<close>

theorem lex_positions:
  assumes "Lex opts r = Inr toks" and "\<not> NoPosition opts"
  shows "sorted_wrt pos_before (map tok_pos toks) \<and>
    (\<forall>t \<in> set toks. File (tok_pos t) = Filename opts \<and> 1 \<le> Line (tok_pos t) \<and> 1 \<le> Col (tok_pos t))"
proof -
  have "tokenStream opts r (initState opts) [] = Inr toks"
    using assms(1) by (auto simp: Lex_def split: sum.splits if_splits)
  then have "\<exists>st'. positions_ok opts st' toks"
  proof (rule tokenStream_loop)
    show "positions_ok opts (initState opts) []" by (simp add: positions_ok_def initState_def)
  qed (rule positions_ok_step [OF _ assms(2)])
  then show ?thesis by (auto simp: positions_ok_def)
qed

theorem lex_positions_witness:
  "Lex \<lparr>Filename = ''f'', NoPosition = False, MaxTokens = 0, MaxStringBytes = 0\<rparr> [CHR '';'', LF, CHR '';'']
     = Inr [Semicolon \<lparr>File = ''f'', Line = 1, Col = 1\<rparr>, Semicolon \<lparr>File = ''f'', Line = 2, Col = 1\<rparr>] \<and>
   sorted_wrt pos_before
     (map tok_pos [Semicolon \<lparr>File = ''f'', Line = 1, Col = 1\<rparr>, Semicolon \<lparr>File = ''f'', Line = 2, Col = 1\<rparr>])"
proof -
  have l: "Lex \<lparr>Filename = ''f'', NoPosition = False, MaxTokens = 0, MaxStringBytes = 0\<rparr> [CHR '';'', LF, CHR '';'']
     = Inr [Semicolon \<lparr>File = ''f'', Line = 1, Col = 1\<rparr>, Semicolon \<lparr>File = ''f'', Line = 2, Col = 1\<rparr>]"
    by code_simp
  show ?thesis using l lex_positions [OF l] by simp
qed

lemma text_block_read_back:
  assumes "crlf_normal s" and "s \<noteq> []" and "last s = LF"
    and "MaxStringBytes opts > 0 \<longrightarrow> int (length s) \<le> MaxStringBytes opts"
  shows "\<exists>st'. textToken opts (''ext:'' @ crlf @ dot_stuff False s @ CHR ''.'' # crlf @ r) st
    = Inr ((Some (StringTok st s), True), r, st')"
proof -
  obtain st' where "multilineString opts False False [] (dot_stuff False s @ CHR ''.'' # crlf @ r)
      (newline (advance (st\<lparr>Col := Col st + 4\<rparr>))) = Inr ([] @ s, r, st')"
    using multilineString_read_back [of s False opts "[]" r] assms by (auto simp: ends_line_def)
  then show ?thesis by (simp add: textToken_def Let_def consumeCRLF.simps)
qed

text \<open>
  C35. A dot-stuffed \<open>text:\<close> block gives back the text it encodes: dots doubled at the start
  of a line are undone, line breaks are CRLF and the lone dot ends the block.  The text is not
  empty, ends in a line break, does not start with a dot and is within \<open>MaxStringBytes\<close>.
\<close>

theorem text_block_roundtrip:
  assumes "crlf_normal s" and "s \<noteq> []" and "last s = LF" and "hd s \<noteq> CHR ''.''"
    and "MaxStringBytes opts > 0 \<longrightarrow> int (length s) \<le> MaxStringBytes opts"
  shows "\<exists>st'. textToken opts (''ext:'' @ crlf @ dot_stuff True s @ CHR ''.'' # crlf @ r) st
    = Inr ((Some (StringTok st s), True), r, st')"
proof -
  have "dot_stuff True s = dot_stuff False s" using assms(2,4) by (cases s) simp_all
  then show ?thesis using text_block_read_back [OF assms(1,2,3,5)] by simp
qed

theorem text_block_roundtrip_witness:
  "\<exists>st'. textToken \<lparr>Filename = [], NoPosition = False, MaxTokens = 0, MaxStringBytes = 9\<rparr>
     (''ext:'' @ crlf @ dot_stuff True (''a'' @ crlf @ ''.b'' @ crlf) @ CHR ''.'' # crlf @ '';'') (LineCol 1 1)
    = Inr ((Some (StringTok (LineCol 1 1) (''a'' @ crlf @ ''.b'' @ crlf)), True), '';'', st')"
  by (rule text_block_roundtrip) simp_all

text \<open>
  The condition on the first byte is needed: a text that starts with a dot, stuffed as the RFC
  has it, is read with that dot doubled.
\<close>

lemma text_block_leading_dot:
  assumes "crlf_normal s" and "s \<noteq> []" and "last s = LF"
    and "MaxStringBytes opts > 0 \<longrightarrow> 2 + int (length s) \<le> MaxStringBytes opts"
  shows "\<exists>st'. textToken opts (''ext:'' @ crlf @ dot_stuff True (CHR ''.'' # s) @ CHR ''.'' # crlf @ r) st
    = Inr ((Some (StringTok st (''..'' @ s)), True), r, st')"
  using text_block_read_back [of "''..'' @ s" opts r st] assms by simp

section \<open>The limit on the number of tokens\<close>

text \<open>How often \<open>text:\<close> occurs in a script.\<close>

fun textMarks :: "bytes \<Rightarrow> nat" where
  "textMarks [] = 0"
| "textMarks (b # r) = (if take 5 (b # r) = ''text:'' then 1 else 0) + textMarks r"

declare textMarks.simps(2) [simp del]

lemma textMarks_Cons: "textMarks r \<le> textMarks (b # r)"
  by (simp add: textMarks.simps)

lemma textMarks_drop: "textMarks (drop n r) \<le> textMarks r"
proof (induction r arbitrary: n)
  case (Cons b r)
  then show ?case using textMarks_Cons [of r b] by (cases n) (auto intro: le_trans)
qed simp

lemma consumeCRLF_marks: "consumeCRLF r st = Inr (r', st') \<Longrightarrow> textMarks r' \<le> textMarks r"
  using textMarks_drop [of 2 r] textMarks_drop [of 1 r]
  by (cases r) (auto simp: consumeCRLF.simps split: if_splits list.splits)

lemma read_identifier_marks: "read_identifier r name st = (str, r', st') \<Longrightarrow> textMarks r' \<le> textMarks r"
  by (induction r name st rule: read_identifier.induct)
    (auto simp: Let_def split: if_splits intro: le_trans [OF _ textMarks_Cons])

lemma number_marks: "number r s st = Inr (vq, r', st') \<Longrightarrow> textMarks r' \<le> textMarks r"
proof -
  have "number_digits r s st = (num', q, r', st') \<Longrightarrow> textMarks r' \<le> textMarks r" for num' q
    by (induction r s st rule: number_digits.induct)
      (auto simp: Let_def textMarks_Cons split: if_splits option.splits intro: le_trans [OF _ textMarks_Cons])
  then show "number r s st = Inr (vq, r', st') \<Longrightarrow> textMarks r' \<le> textMarks r"
    by (auto simp: number_def split: prod.splits option.splits)
qed

lemma hashComment_marks: "hashComment r st = Inr (r', st') \<Longrightarrow> textMarks r' \<le> textMarks r"
  by (induction r st rule: hashComment.induct)
    (auto simp: Let_def split: if_splits list.splits dest: consumeCRLF_marks intro: le_trans [OF _ textMarks_Cons])

lemma multilineComment_marks: "multilineComment w r st = Inr (r', st') \<Longrightarrow> textMarks r' \<le> textMarks r"
  by (induction w r st rule: multilineComment.induct)
    (auto simp: Let_def textMarks_Cons split: if_splits intro: le_trans [OF _ textMarks_Cons])

lemma stringStep_marks: "stringStep opts (\<lambda>str r st. textMarks r \<le> n)"
  unfolding stringStep_def by (meson consumeCRLF_marks le_trans textMarks_Cons)

lemma string_marks:
  "quotedString opts a str r st = Inr (str', r', st') \<Longrightarrow> textMarks r' \<le> textMarks r"
  "multilineString opts a h str r st = Inr (str', r', st') \<Longrightarrow> textMarks r' \<le> textMarks r"
  by (erule quotedString_loop [OF _ stringStep_marks] multilineString_loop [OF _ stringStep_marks], simp)+

lemma textBlanks_marks: "textBlanks r st = Inr (r', st') \<Longrightarrow> textMarks r' \<le> textMarks r"
  by (induction r st rule: textBlanks.induct)
    (auto simp: Let_def split: if_splits dest: hashComment_marks consumeCRLF_marks intro: le_trans [OF _ textMarks_Cons])

lemma wordToken_marks: "wordToken b r st = Inr ((tok, c), r', st') \<Longrightarrow> \<not> c \<and> textMarks r' \<le> textMarks r"
  by (erule wordToken_cases) (auto dest: read_identifier_marks number_marks)

text \<open>A turn that appends a token and ends in \<open>continue\<close> has read one \<open>text:\<close> more.\<close>

lemma nextToken_marks:
  assumes "nextToken opts b r st = Inr ((tok, c), r', st')"
  shows "textMarks r' + (if c \<and> tok \<noteq> None then 1 else 0) \<le> textMarks (b # r)"
  using assms
proof (cases rule: nextToken_cases)
  case textblock
  from textblock(2) show ?thesis
  proof (cases rule: textToken_cases)
    case (textblock str r1 st1)
    have "take 5 (b # r) = ''text:''" using textblock(3) \<open>b = CHR ''t''\<close> by (simp add: numeral_eq_Suc)
    moreover have "textMarks r' \<le> textMarks r"
      using string_marks(2) [OF textblock(5)] textBlanks_marks [OF textblock(4)] textMarks_drop [of 4 r] by simp
    ultimately show ?thesis by (simp add: textMarks.simps)
  next
    case word
    then show ?thesis using wordToken_marks textMarks_Cons [of r b] by fastforce
  qed
next
  case (comment r2)
  then show ?thesis
    using multilineComment_marks textMarks_Cons [of r b] textMarks_Cons [of r2 "CHR ''*''"] by fastforce
next
  case word
  then show ?thesis using wordToken_marks textMarks_Cons [of r b] by fastforce
qed (use textMarks_Cons [of r b] in \<open>fastforce dest: consumeCRLF_marks string_marks hashComment_marks\<close>)+

lemma tokenStream_limit:
  assumes "0 < MaxTokens opts"
  shows "tokenStream opts r st res = Inr toks \<Longrightarrow> int (length res) \<le> MaxTokens opts + int k \<Longrightarrow>
    int (length toks) \<le> MaxTokens opts + int k + int (textMarks r)"
  using assms
proof (induction opts r st res arbitrary: k rule: tokenStream.induct)
  case (2 opts b r st res)
  from "2.prems"(1) obtain tok c r' st' where
    n: "nextToken opts b r (startPosition opts st) = Inr ((tok, c), r', st')"
    and l: "\<not> (\<not> c \<and> MaxTokens opts \<noteq> 0 \<and> int (length (appendToken res tok)) > MaxTokens opts)"
    and rec: "tokenStream opts r' st' (appendToken res tok) = Inr toks"
    by (auto simp: Let_def split: sum.split_asm prod.split_asm if_split_asm)
  let ?d = "if c \<and> tok \<noteq> None then 1 else 0 :: nat"
  have "int (length (appendToken res tok)) \<le> MaxTokens opts + int (k + ?d)"
    using l "2.prems"(2,3) by (auto simp: appendToken_def split: option.splits)
  then have "int (length toks) \<le> MaxTokens opts + int (k + ?d) + int (textMarks r')"
    using n l rec "2.prems"(3) by (intro "2.IH") auto
  then show ?case using nextToken_marks [OF n] by simp
qed simp

text \<open>
  C37. \<open>MaxTokens\<close> bounds the token list, except that \<open>text:\<close> blocks escape the check: the
  tokens beyond the limit are all strings, and they are no more than the script has occurrences
  of \<open>text:\<close>.  A script without \<open>text:\<close> keeps to the limit.
\<close>

theorem lex_max_tokens:
  assumes "Lex opts r = Inr toks" and "0 < MaxTokens opts"
  shows "int (length toks) \<le> MaxTokens opts + int (textMarks r) \<and>
    (\<forall>t \<in> set (drop (nat (MaxTokens opts)) toks). \<exists>p s. t = StringTok p s)"
proof
  have t: "tokenStream opts r (initState opts) [] = Inr toks"
    using assms(1) by (auto simp: Lex_def split: sum.splits if_splits)
  then show "int (length toks) \<le> MaxTokens opts + int (textMarks r)"
    using tokenStream_limit [OF assms(2), of r "initState opts" "[]" toks 0] assms(2) by simp
  let ?P = "\<lambda>st :: position. \<lambda>ts. \<forall>t \<in> set (drop (nat (MaxTokens opts)) ts). \<exists>p s. t = StringTok p s"
  from t have "\<exists>st'. ?P st' toks"
  proof (rule tokenStream_loop)
    fix b r st res tok c r' st'
    assume "?P st res" and "nextToken opts b r (startPosition opts st) = Inr ((tok, c), r', st')"
      and "c \<or> MaxTokens opts = 0 \<or> int (length (appendToken res tok)) \<le> MaxTokens opts"
    then show "?P st' (appendToken res tok)"
      using assms(2) by (auto simp: appendToken_def drop_Cons' split: option.splits if_splits dest!: nextToken_continue)
  qed simp
  then show "\<forall>t \<in> set (drop (nat (MaxTokens opts)) toks). \<exists>p s. t = StringTok p s" by simp
qed

theorem lex_max_tokens_witness:
  "Lex \<lparr>Filename = [], NoPosition = True, MaxTokens = 1, MaxStringBytes = 0\<rparr> '';''
     = Inr [Semicolon (LineCol 0 0)] \<and>
   int (length [Semicolon (LineCol 0 0)]) \<le> 1 + int (textMarks '';'')"
proof -
  have l: "Lex \<lparr>Filename = [], NoPosition = True, MaxTokens = 1, MaxStringBytes = 0\<rparr> '';''
     = Inr [Semicolon (LineCol 0 0)]"
    by code_simp
  show ?thesis using l lex_max_tokens [OF l] by simp
qed

text \<open>
  The escape is unbounded: under a limit of one token, \<open>n\<close> consecutive \<open>text:\<close> blocks
  lex to \<open>n\<close> tokens, because the branch that reads a block ends in \<open>continue\<close>.
\<close>

definition sample_block :: bytes where
  "sample_block = ''text:'' @ [LF] @ ''a'' @ [LF] @ ''.'' @ [LF]"

lemma nextToken_sample_block:
  "\<exists>t st'. nextToken \<lparr>Filename = [], NoPosition = True, MaxTokens = 1, MaxStringBytes = 0\<rparr> CHR ''t''
     (tl sample_block @ r) st = Inr ((Some t, True), r, st')"
  by (simp add: nextToken_def delimiter_def textToken_def sample_block_def Let_def consumeCRLF.simps
      appendStringBytes_def)

theorem lex_text_blocks_unbounded:
  "\<exists>toks. Lex \<lparr>Filename = [], NoPosition = True, MaxTokens = 1, MaxStringBytes = 0\<rparr>
     (concat (replicate n sample_block)) = Inr toks \<and> length toks = n"
proof -
  let ?o = "\<lparr>Filename = [], NoPosition = True, MaxTokens = 1, MaxStringBytes = 0\<rparr>"
  have "\<exists>toks. tokenStream ?o (concat (replicate n sample_block)) st res = Inr toks \<and> length toks = length res + n"
    for st res
  proof (induction n arbitrary: st res)
    case (Suc n)
    obtain t st' where n: "nextToken ?o CHR ''t'' (tl sample_block @ concat (replicate n sample_block))
        (startPosition ?o st) = Inr ((Some t, True), concat (replicate n sample_block), st')"
      using nextToken_sample_block by blast
    have "concat (replicate (Suc n) sample_block)
        = CHR ''t'' # (tl sample_block @ concat (replicate n sample_block))"
      by (simp add: sample_block_def)
    then have "tokenStream ?o (concat (replicate (Suc n) sample_block)) st res
        = tokenStream ?o (concat (replicate n sample_block)) st' (res @ [t])"
      by (simp only: tokenStream.simps n) (simp add: appendToken_def)
    with Suc.IH [of st' "res @ [t]"] show ?case by auto
  qed simp
  from this [of "initState ?o" "[]"] show ?thesis by (auto simp: Lex_def)
qed

end
