(* ===== verification/Lexer_Stream.thy ===== *)
theory Lexer_Stream
  imports Lexer
begin

text \<open>
  The token stream of package \<open>lexer\<close> (\<open>stream.go\<close>) and its interface.  The cursor
  starts before the first token; \<open>Pop\<close> moves it even past the end, where it yields no
  token.
\<close>

record stream =
  cursor :: int
  stoks :: "token list"

definition NewStream :: "token list \<Rightarrow> stream" where
  "NewStream ts = \<lparr>cursor = -1, stoks = ts\<rparr>"

definition tokenAt :: "stream \<Rightarrow> int \<Rightarrow> token option" where
  "tokenAt s cur = (if cur \<ge> int (length (stoks s)) then None else Some (stoks s ! nat cur))"

definition Last :: "stream \<Rightarrow> token option" where
  "Last s = tokenAt s (cursor s)"

definition Pop :: "stream \<Rightarrow> token option \<times> stream" where
  "Pop s = (let s' = s\<lparr>cursor := cursor s + 1\<rparr> in (tokenAt s' (cursor s'), s'))"

definition Peek :: "stream \<Rightarrow> token option" where
  "Peek s = tokenAt s (cursor s + 1)"

text \<open>
  The contract of a token stream: \<open>rest\<close> is the list of the tokens still to come,
  \<open>peek\<close> shows its head, \<open>pop\<close> removes it and \<open>last\<close> is the token popped last.
  \<open>valid\<close> excludes the states the constructor and the operations never produce.
\<close>

locale token_stream =
  fixes new :: "'t list \<Rightarrow> 's"
    and pop :: "'s \<Rightarrow> 't option \<times> 's"
    and peek :: "'s \<Rightarrow> 't option"
    and last_tok :: "'s \<Rightarrow> 't option"
    and rest :: "'s \<Rightarrow> 't list"
    and valid :: "'s \<Rightarrow> bool"
  assumes new_valid: "valid (new ts)"
    and new_rest: "rest (new ts) = ts"
    and pop_valid: "valid s \<Longrightarrow> valid (snd (pop s))"
    and pop_rest: "valid s \<Longrightarrow> rest (snd (pop s)) = tl (rest s)"
    and pop_token: "valid s \<Longrightarrow> fst (pop s) = (case rest s of [] \<Rightarrow> None | t # ts \<Rightarrow> Some t)"
    and peek_token: "valid s \<Longrightarrow> peek s = (case rest s of [] \<Rightarrow> None | t # ts \<Rightarrow> Some t)"
    and pop_last: "valid s \<Longrightarrow> last_tok (snd (pop s)) = fst (pop s)"
begin

lemma pop_Some:
  assumes "valid s" and "pop s = (Some t, s')"
  shows "rest s = t # rest s' \<and> valid s' \<and> last_tok s' = Some t"
  using pop_rest [OF assms(1)] pop_token [OF assms(1)] pop_valid [OF assms(1)] pop_last [OF assms(1)]
    assms(2)
  by (auto split: list.splits)

lemma pop_None:
  assumes "valid s" and "pop s = (None, s')"
  shows "rest s = [] \<and> rest s' = [] \<and> valid s' \<and> last_tok s' = None"
  using pop_rest [OF assms(1)] pop_token [OF assms(1)] pop_valid [OF assms(1)] pop_last [OF assms(1)]
    assms(2)
  by (auto split: list.splits)

lemma peek_pop: "valid s \<Longrightarrow> fst (pop s) = peek s"
  by (simp add: pop_token peek_token)

lemma pop_Cons:
  assumes "valid s" and "rest s = t # ts"
  shows "\<exists>s'. pop s = (Some t, s') \<and> rest s' = ts \<and> valid s' \<and> last_tok s' = Some t"
  using pop_rest [OF assms(1)] pop_token [OF assms(1)] pop_valid [OF assms(1)] pop_last [OF assms(1)]
    assms(2)
  by (cases "pop s") auto

lemma pop_Nil:
  assumes "valid s" and "rest s = []"
  shows "\<exists>s'. pop s = (None, s') \<and> rest s' = [] \<and> valid s' \<and> last_tok s' = None"
  using pop_rest [OF assms(1)] pop_token [OF assms(1)] pop_valid [OF assms(1)] pop_last [OF assms(1)]
    assms(2)
  by (cases "pop s") auto

lemma peek_Cons: "valid s \<Longrightarrow> rest s = t # ts \<Longrightarrow> peek s = Some t"
  by (simp add: peek_token)

lemma peek_Some: "valid s \<Longrightarrow> peek s = Some t \<Longrightarrow> \<exists>s'. pop s = (Some t, s')"
  by (metis peek_pop prod.collapse)

lemma pop_shorter: "valid s \<Longrightarrow> pop s = (Some t, s') \<Longrightarrow> length (rest s') < length (rest s)"
  using pop_Some by fastforce

end

definition remaining :: "stream \<Rightarrow> token list" where
  "remaining s = drop (nat (cursor s + 1)) (stoks s)"

definition valid_stream :: "stream \<Rightarrow> bool" where
  "valid_stream s \<longleftrightarrow> -1 \<le> cursor s"

lemma drop_nat_Suc: "-1 \<le> c \<Longrightarrow> drop (nat (c + 2)) xs = tl (drop (nat (c + 1)) xs)"
proof -
  assume "-1 \<le> c"
  then have "nat (c + 2) = Suc (nat (c + 1))" by linarith
  then show ?thesis by (simp add: drop_Suc tl_drop)
qed

lemma tokenAt_remaining:
  "valid_stream s \<Longrightarrow> tokenAt s (cursor s + 1) = (case remaining s of [] \<Rightarrow> None | t # ts \<Rightarrow> Some t)"
proof -
  assume v: "valid_stream s"
  let ?i = "nat (cursor s + 1)"
  show ?thesis
  proof (cases "?i < length (stoks s)")
    case True
    then have "remaining s = stoks s ! ?i # drop (Suc ?i) (stoks s)"
      by (simp add: remaining_def Cons_nth_drop_Suc)
    with True v show ?thesis by (auto simp: tokenAt_def valid_stream_def)
  next
    case False
    with v show ?thesis by (auto simp: tokenAt_def remaining_def valid_stream_def)
  qed
qed

interpretation ts: token_stream NewStream Pop Peek Last remaining valid_stream
proof (unfold_locales, goal_cases)
  case (4 s)
  then show ?case using drop_nat_Suc [of "cursor s" "stoks s"]
    by (simp add: Pop_def Let_def remaining_def valid_stream_def add.commute)
next
  case (5 s)
  then show ?case using tokenAt_remaining [of s]
    by (simp add: Pop_def Let_def tokenAt_def split: if_splits)
next
  case (6 s)
  then show ?case by (simp add: Peek_def tokenAt_remaining)
qed (auto simp: Let_def NewStream_def valid_stream_def remaining_def Pop_def Last_def tokenAt_def)

end
