(* ===== verification/Parser.thy ===== *)
theory Parser
  imports Lexer_Stream
begin

text \<open>
  Package \<open>parser\<close> of go-sieve: the syntax tree (\<open>command.go\<close>) and the recursive
  descent parser (\<open>parse.go\<close>).

  The three mutually recursive functions take fuel; each call that follows a consumed
  token may spend two units, and \<open>Parse\<close> starts with enough for the whole stream
  (\<open>parse_total\<close>).  A loop of the source is the function with suffix \<open>Loop\<close>.
\<close>

section \<open>Syntax tree\<close>

datatype arg =
    NumberArg int position
  | StringArg bytes position
  | StringListArg "bytes list" position
  | TagArg bytes position

datatype test = Test (test_pos: position) (test_id: bytes) (test_args: "arg list") (test_tests: "test list")

text \<open>\<open>Block\<close> is \<open>None\<close> for the nil slice of a command that ends in a semicolon.\<close>

datatype cmd =
  Cmd (cmd_pos: position) (cmd_id: bytes) (cmd_args: "arg list") (cmd_tests: "test list")
    (cmd_block: "cmd list option")

record parse_options =
  MaxBlockNesting :: int
  MaxTestNesting :: int

datatype parse_error_kind =
    BlockNestingExceeded
  | TestNestingExceeded
  | ExpectedCommand
  | ExpectedCommandEnd
  | ExpectedClosingBrace
  | UnexpectedCommandEnd
  | ArgumentsEOF
  | UnexpectedArgument
  | ExpectedTagIdentifier
  | TestListEOF
  | UnexpectedTestListToken
  | StringListEOF
  | UnexpectedStringListToken
  | StreamPanic
  | OutOfFuel

type_synonym parse_error = "parse_error_kind \<times> token option"

text \<open>
  \<open>Stream.Err\<close> attaches the last token; with the cursor still before the first token
  the index expression of \<open>Last\<close> panics.
\<close>

definition Err :: "stream \<Rightarrow> parse_error_kind \<Rightarrow> (parse_error, 'a) result" where
  "Err s k = (if cursor s < 0 then Inl (StreamPanic, None) else Inl (k, Last s))"

section \<open>The parser\<close>

fun readStringListLoop ::
  "nat \<Rightarrow> stream \<Rightarrow> bool \<Rightarrow> bytes list \<Rightarrow> (parse_error, bytes list \<times> stream) result" where
  "readStringListLoop 0 s needString res = Inl (OutOfFuel, None)"
| "readStringListLoop (Suc n) s needString res =
     (case Pop s of
        (None, s1) \<Rightarrow> Err s1 StringListEOF
      | (Some (StringTok p str), s1) \<Rightarrow>
          (if \<not> needString then Err s1 UnexpectedStringListToken
           else readStringListLoop n s1 False (res @ [str]))
      | (Some (Comma p), s1) \<Rightarrow>
          (if needString then Err s1 UnexpectedStringListToken
           else readStringListLoop n s1 True res)
      | (Some (ListEnd p), s1) \<Rightarrow> Inr (res, s1)
      | (Some _, s1) \<Rightarrow> Err s1 UnexpectedStringListToken)"

definition readStringList :: "nat \<Rightarrow> stream \<Rightarrow> (parse_error, bytes list \<times> stream) result" where
  "readStringList n s = readStringListLoop n s True []"

fun readArguments ::
  "nat \<Rightarrow> stream \<Rightarrow> bool \<Rightarrow> int \<Rightarrow> parse_options \<Rightarrow> (parse_error, (arg list \<times> test list) \<times> stream) result"
and readArgumentsLoop ::
  "nat \<Rightarrow> stream \<Rightarrow> bool \<Rightarrow> int \<Rightarrow> parse_options \<Rightarrow> arg list \<Rightarrow> test list \<Rightarrow>
     (parse_error, (arg list \<times> test list) \<times> stream) result"
and readTestListLoop ::
  "nat \<Rightarrow> stream \<Rightarrow> int \<Rightarrow> parse_options \<Rightarrow> bool \<Rightarrow> test list \<Rightarrow> (parse_error, test list \<times> stream) result" where
  "readArguments 0 s forTest nesting opts = Inl (OutOfFuel, None)"
| "readArguments (Suc n) s forTest nesting opts =
     (if MaxTestNesting opts \<noteq> 0 \<and> nesting > MaxTestNesting opts then Err s TestNestingExceeded
      else readArgumentsLoop n s forTest nesting opts [] [])"
| "readArgumentsLoop 0 s forTest nesting opts args tests = Inl (OutOfFuel, None)"
| "readArgumentsLoop (Suc n) s forTest nesting opts args tests =
     (case Peek s of
        None \<Rightarrow> Err s ArgumentsEOF
      | Some (Semicolon p) \<Rightarrow> Inr ((args, tests), s)
      | Some (BlockStart p) \<Rightarrow> Inr ((args, tests), s)
      | Some (Comma p) \<Rightarrow> (if \<not> forTest then Err s UnexpectedArgument else Inr ((args, tests), s))
      | Some (TestListEnd p) \<Rightarrow> (if \<not> forTest then Err s UnexpectedArgument else Inr ((args, tests), s))
      | Some (StringTok p str) \<Rightarrow>
          readArgumentsLoop n (snd (Pop s)) forTest nesting opts (args @ [StringArg str p]) tests
      | Some (ListStart p) \<Rightarrow>
          (case readStringList n (snd (Pop s)) of
             Inl e \<Rightarrow> Inl e
           | Inr (list, s1) \<Rightarrow>
               readArgumentsLoop n s1 forTest nesting opts (args @ [StringListArg list p]) tests)
      | Some (Number p v q) \<Rightarrow>
          readArgumentsLoop n (snd (Pop s)) forTest nesting opts
            (args @ [NumberArg (wrap64 (v * Multiplier q)) p]) tests
      | Some (Colon p) \<Rightarrow>
          (case Pop (snd (Pop s)) of
             (Some (Identifier p2 str), s2) \<Rightarrow>
               readArgumentsLoop n s2 forTest nesting opts (args @ [TagArg str p]) tests
           | (_, s2) \<Rightarrow> Err s2 ExpectedTagIdentifier)
      | Some (Identifier p str) \<Rightarrow>
          (case readArguments n (snd (Pop s)) True (nesting + 1) opts of
             Inl e \<Rightarrow> Inl e
           | Inr ((tArgs, tTests), s1) \<Rightarrow>
               readArgumentsLoop n s1 forTest nesting opts args (tests @ [Test p str tArgs tTests]))
      | Some (TestListStart p) \<Rightarrow>
          (case readTestListLoop n (snd (Pop s)) nesting opts True [] of
             Inl e \<Rightarrow> Inl e
           | Inr (tests', s1) \<Rightarrow> Inr ((args, tests'), s1))
      | Some _ \<Rightarrow> Err s UnexpectedArgument)"
| "readTestListLoop 0 s nesting opts needTest res = Inl (OutOfFuel, None)"
| "readTestListLoop (Suc n) s nesting opts needTest res =
     (case Pop s of
        (None, s1) \<Rightarrow> Err s1 TestListEOF
      | (Some (Identifier p str), s1) \<Rightarrow>
          (if \<not> needTest then Err s1 UnexpectedTestListToken
           else (case readArguments n s1 True (nesting + 1) opts of
                   Inl e \<Rightarrow> Inl e
                 | Inr ((args, tests), s2) \<Rightarrow>
                     readTestListLoop n s2 nesting opts False (res @ [Test p str args tests])))
      | (Some (Comma p), s1) \<Rightarrow>
          (if needTest then Err s1 UnexpectedTestListToken
           else readTestListLoop n s1 nesting opts True res)
      | (Some (TestListEnd p), s1) \<Rightarrow> Inr (res, s1)
      | (Some _, s1) \<Rightarrow> Err s1 UnexpectedTestListToken)"

fun parse :: "nat \<Rightarrow> stream \<Rightarrow> int \<Rightarrow> parse_options \<Rightarrow> (parse_error, cmd list \<times> stream) result"
and parseLoop ::
  "nat \<Rightarrow> stream \<Rightarrow> int \<Rightarrow> parse_options \<Rightarrow> cmd list \<Rightarrow> (parse_error, cmd list \<times> stream) result" where
  "parse 0 s nesting opts = Inl (OutOfFuel, None)"
| "parse (Suc n) s nesting opts =
     (if MaxBlockNesting opts \<noteq> 0 \<and> nesting > MaxBlockNesting opts then Err s BlockNestingExceeded
      else parseLoop n s nesting opts [])"
| "parseLoop 0 s nesting opts res = Inl (OutOfFuel, None)"
| "parseLoop (Suc n) s nesting opts res =
     (case Pop s of
        (None, s1) \<Rightarrow> Inr (res, s1)
      | (Some (BlockEnd p), s1) \<Rightarrow> Inr (res, s1)
      | (Some (Identifier p str), s1) \<Rightarrow>
          (case readArguments n s1 False 0 opts of
             Inl e \<Rightarrow> Inl e
           | Inr ((args, tests), s2) \<Rightarrow>
               (case Pop s2 of
                  (None, s3) \<Rightarrow> Err s3 ExpectedCommandEnd
                | (Some (Semicolon p2), s3) \<Rightarrow>
                    parseLoop n s3 nesting opts (res @ [Cmd p str args tests None])
                | (Some (BlockStart p2), s3) \<Rightarrow>
                    (case parse n s3 (nesting + 1) opts of
                       Inl e \<Rightarrow> Inl e
                     | Inr (cmds, s4) \<Rightarrow>
                         (if Last s4 = None then Err s4 ExpectedClosingBrace
                          else parseLoop n s4 nesting opts (res @ [Cmd p str args tests (Some cmds)])))
                | (Some _, s3) \<Rightarrow> Err s3 UnexpectedCommandEnd))
      | (Some _, s1) \<Rightarrow> Err s1 ExpectedCommand)"

definition parseFuel :: "stream \<Rightarrow> nat" where
  "parseFuel s = 2 * length (remaining s) + 2"

definition Parse :: "stream \<Rightarrow> parse_options \<Rightarrow> (parse_error, cmd list) result" where
  "Parse s opts = map_sum id fst (parse (parseFuel s) s 0 opts)"

end
