(* ===== verification/Parser_Total.thy ===== *)
theory Parser_Total
  imports Parser
begin

text \<open>
  The parser returns on every token list: the fuel of \<open>Parse\<close> is enough, and no error
  is reported before a token was read, where \<open>Stream.Last\<close> would index before the list.
\<close>

section \<open>Streams that move forward\<close>

definition after :: "stream \<Rightarrow> stream \<Rightarrow> bool" where
  "after s s' \<longleftrightarrow> valid_stream s' \<and> length (remaining s') \<le> length (remaining s) \<and> cursor s \<le> cursor s'"

lemma after_trans [trans]: "after s s1 \<Longrightarrow> after s1 s2 \<Longrightarrow> after s s2"
  by (auto simp: after_def)

lemma Pop_cursor: "Pop s = (t, s1) \<Longrightarrow> cursor s1 = cursor s + 1"
  by (auto simp: Pop_def Let_def)

text \<open>What a stream that has no token left, or still has one, answers.\<close>

lemma stream_cases:
  assumes "valid_stream s"
  obtains (Nil) s1 where "remaining s = []" "Peek s = None" "Pop s = (None, s1)" "valid_stream s1"
      "remaining s1 = []" "Last s1 = None" "cursor s1 = cursor s + 1"
    | (Cons) t s1 where "remaining s = t # remaining s1" "Peek s = Some t" "Pop s = (Some t, s1)"
      "valid_stream s1" "Last s1 = Some t" "cursor s1 = cursor s + 1"
proof (cases "remaining s")
  case Nil
  with assms show ?thesis using ts.pop_Nil [of s] by (auto simp: ts.peek_token Pop_cursor intro: that(1))
next
  case (Cons t ts)
  with assms show ?thesis using ts.pop_Cons [of s t ts] by (auto simp: ts.peek_token Pop_cursor intro: that(2))
qed

text \<open>An answer of the parser is good when it is a proper error or a later stream.\<close>

fun good :: "(parse_error, 'a \<times> stream) result \<Rightarrow> stream \<Rightarrow> bool" where
  "good (Inl e) s \<longleftrightarrow> fst e \<noteq> OutOfFuel \<and> fst e \<noteq> StreamPanic"
| "good (Inr (x, s')) s \<longleftrightarrow> after s s'"

lemma good_Err [simp]: "k \<noteq> OutOfFuel \<Longrightarrow> k \<noteq> StreamPanic \<Longrightarrow> 0 \<le> cursor s1 \<Longrightarrow> good (Err s1 k) s"
  by (simp add: Err_def)

lemma good_mono: "good r s1 \<Longrightarrow> after s s1 \<Longrightarrow> good r s"
  by (cases r) (auto intro: after_trans)

lemma good_bind:
  assumes "good r s1" and "\<And>x s2. after s1 s2 \<Longrightarrow> good (f x s2) s"
  shows "good (case r of Inl e \<Rightarrow> Inl e | Inr (x, s2) \<Rightarrow> f x s2) s"
proof (cases r)
  case (Inl e)
  with assms(1) show ?thesis by simp
next
  case (Inr xs)
  obtain x s2 where xs: "xs = (x, s2)" by (cases xs)
  have "good (f x s2) s"
    by (rule assms(2)) (use assms(1) Inr xs in simp)
  with Inr xs show ?thesis by simp
qed

lemma good_bind2:
  assumes "good r s1" and "\<And>x y s2. after s1 s2 \<Longrightarrow> good (f x y s2) s"
  shows "good (case r of Inl e \<Rightarrow> Inl e | Inr ((x, y), s2) \<Rightarrow> f x y s2) s"
proof (cases r)
  case (Inl e)
  with assms(1) show ?thesis by simp
next
  case (Inr xs)
  obtain x y s2 where xs: "xs = ((x, y), s2)" by (metis surj_pair)
  have "good (f x y s2) s"
    by (rule assms(2)) (use assms(1) Inr xs in simp)
  with Inr xs show ?thesis by simp
qed

section \<open>Argument and test lists\<close>

lemma readStringListLoop_good:
  "valid_stream s \<Longrightarrow> length (remaining s) < n \<Longrightarrow> good (readStringListLoop n s b res) s"
proof (induction n arbitrary: s b res)
  case (Suc n)
  from Suc.prems(1) show ?case
  proof (cases rule: stream_cases)
    case (Cons t s1)
    have IH: "good (readStringListLoop n s1 b res) s" for b res
      using Suc Cons by (intro good_mono [OF Suc.IH]) (auto simp: after_def)
    with Suc.prems Cons show ?thesis by (cases t) (auto simp: after_def valid_stream_def)
  qed (use Suc.prems in \<open>auto simp: valid_stream_def\<close>)
qed simp

lemma readStringList_good:
  "valid_stream s \<Longrightarrow> length (remaining s) < n \<Longrightarrow> good (readStringList n s) s"
  by (simp add: readStringList_def readStringListLoop_good)

lemma args_good:
  "(\<forall>s f k. valid_stream s \<longrightarrow> 0 \<le> cursor s \<longrightarrow> 2 * length (remaining s) + 2 \<le> n \<longrightarrow>
      good (readArguments n s f k opts) s) \<and>
   (\<forall>s f k args tests. valid_stream s \<longrightarrow> 0 \<le> cursor s \<longrightarrow> 2 * length (remaining s) + 1 \<le> n \<longrightarrow>
      good (readArgumentsLoop n s f k opts args tests) s) \<and>
   (\<forall>s k b res. valid_stream s \<longrightarrow> 0 \<le> cursor s \<longrightarrow> 2 * length (remaining s) + 1 \<le> n \<longrightarrow>
      good (readTestListLoop n s k opts b res) s)"
proof (induction n)
  case (Suc n)
  have IHa: "good (readArguments n s f k opts) s"
    if "valid_stream s" "0 \<le> cursor s" "2 * length (remaining s) + 2 \<le> n" for s f k
    using Suc.IH that by blast
  have IHl: "good (readArgumentsLoop n s f k opts args tests) s"
    if "valid_stream s" "0 \<le> cursor s" "2 * length (remaining s) + 1 \<le> n" for s f k args tests
    using Suc.IH that by blast
  have IHt: "good (readTestListLoop n s k opts b res) s"
    if "valid_stream s" "0 \<le> cursor s" "2 * length (remaining s) + 1 \<le> n" for s k b res
    using Suc.IH that by blast
  have "good (readArguments (Suc n) s f k opts) s"
    if "valid_stream s" "0 \<le> cursor s" "2 * length (remaining s) + 2 \<le> Suc n" for s f k
    using that by (simp add: IHl)
  moreover have "good (readTestListLoop (Suc n) s k opts b res) s"
    if v: "valid_stream s" "0 \<le> cursor s" and l: "2 * length (remaining s) + 1 \<le> Suc n" for s k b res
    using v(1)
  proof (cases rule: stream_cases)
    case (Cons t s1)
    have t: "good (readTestListLoop n s1 k opts b res) s" for b res
      using Cons v l by (intro good_mono [OF IHt]) (auto simp: after_def)
    have a: "good (case readArguments n s1 True (k + 1) opts of Inl e \<Rightarrow> Inl e
       | Inr ((args, tests), s2) \<Rightarrow> readTestListLoop n s2 k opts False (res @ [Test p str args tests])) s" for p str
      using Cons v l by (intro good_bind2 [OF IHa] good_mono [OF IHt]) (auto simp: after_def)
    show ?thesis using v Cons t a by (cases t) (auto simp: after_def)
  qed (use v in auto)
  moreover have "good (readArgumentsLoop (Suc n) s f k opts args tests) s"
    if v: "valid_stream s" "0 \<le> cursor s" and l: "2 * length (remaining s) + 1 \<le> Suc n" for s f k args tests
    using v(1)
  proof (cases rule: stream_cases)
    case (Cons t s1)
    have loop: "good (readArgumentsLoop n s1 f k opts args tests) s" for args tests
      using Cons v l by (intro good_mono [OF IHl]) (auto simp: after_def)
    have test: "good (case readArguments n s1 True (k + 1) opts of Inl e \<Rightarrow> Inl e
       | Inr ((tArgs, tTests), s2) \<Rightarrow>
           readArgumentsLoop n s2 f k opts args (tests @ [Test p str tArgs tTests])) s" for p str
      using Cons v l by (intro good_bind2 [OF IHa] good_mono [OF IHl]) (auto simp: after_def)
    have strs: "good (case readStringList n s1 of Inl e \<Rightarrow> Inl e
       | Inr (list, s2) \<Rightarrow> readArgumentsLoop n s2 f k opts (args @ [StringListArg list p]) tests) s" for p
      using Cons v l by (intro good_bind [OF readStringList_good] good_mono [OF IHl]) (auto simp: after_def)
    have tlist: "good (case readTestListLoop n s1 k opts True [] of Inl e \<Rightarrow> Inl e
       | Inr (tests', s2) \<Rightarrow> Inr ((args, tests'), s2)) s"
      using Cons v l by (intro good_bind [OF IHt]) (auto simp: after_def)
    have tag: "good (case Pop s1 of
             (Some (Identifier p2 str), s2) \<Rightarrow> readArgumentsLoop n s2 f k opts (args @ [TagArg str p]) tests
           | (_, s2) \<Rightarrow> Err s2 ExpectedTagIdentifier) s" for p
      using \<open>valid_stream s1\<close>
    proof (cases rule: stream_cases)
      case 2: (Cons t2 s2)
      have "good (readArgumentsLoop n s2 f k opts args tests) s" for args tests
        using Cons 2 v l by (intro good_mono [OF IHl]) (auto simp: after_def)
      with v Cons 2 show ?thesis by (cases t2) auto
    qed (use v Cons in auto)
    show ?thesis using v Cons loop test strs tlist tag by (cases t) (auto simp: after_def)
  qed (use v in auto)
  ultimately show ?case by blast
qed simp

lemma readArguments_good:
  "valid_stream s \<Longrightarrow> 0 \<le> cursor s \<Longrightarrow> 2 * length (remaining s) + 2 \<le> n \<Longrightarrow>
   good (readArguments n s f k opts) s"
  using args_good by blast

section \<open>Commands\<close>

lemma parse_good:
  "(\<forall>s k. valid_stream s \<longrightarrow> 0 \<le> cursor s \<or> k = 0 \<and> 0 \<le> MaxBlockNesting opts \<longrightarrow>
      2 * length (remaining s) + 2 \<le> n \<longrightarrow> good (parse n s k opts) s) \<and>
   (\<forall>s k res. valid_stream s \<longrightarrow> 2 * length (remaining s) + 1 \<le> n \<longrightarrow> good (parseLoop n s k opts res) s)"
proof (induction n)
  case (Suc n)
  have IHp: "good (parse n s k opts) s"
    if "valid_stream s" "0 \<le> cursor s" "2 * length (remaining s) + 2 \<le> n" for s k
    using Suc.IH that by blast
  have IHl: "good (parseLoop n s k opts res) s"
    if "valid_stream s" "2 * length (remaining s) + 1 \<le> n" for s k res
    using Suc.IH that by blast
  have "good (parse (Suc n) s k opts) s"
    if "valid_stream s" "0 \<le> cursor s \<or> k = 0 \<and> 0 \<le> MaxBlockNesting opts"
      "2 * length (remaining s) + 2 \<le> Suc n" for s k
    using that by (auto simp: IHl)
  moreover have "good (parseLoop (Suc n) s k opts res) s"
    if v: "valid_stream s" and l: "2 * length (remaining s) + 1 \<le> Suc n" for s k res
    using v
  proof (cases rule: stream_cases)
    case (Cons t s1)
    have c1: "0 \<le> cursor s1" using v Cons by (simp add: valid_stream_def)
    define ending where "ending = (\<lambda>p str args tests s2. case Pop s2 of
        (None, s3) \<Rightarrow> Err s3 ExpectedCommandEnd
      | (Some (Semicolon p2), s3) \<Rightarrow> parseLoop n s3 k opts (res @ [Cmd p str args tests None])
      | (Some (BlockStart p2), s3) \<Rightarrow>
          (case parse n s3 (k + 1) opts of
             Inl e \<Rightarrow> Inl e
           | Inr (cmds, s4) \<Rightarrow>
               (if Last s4 = None then Err s4 ExpectedClosingBrace
                else parseLoop n s4 k opts (res @ [Cmd p str args tests (Some cmds)])))
      | (Some _, s3) \<Rightarrow> Err s3 UnexpectedCommandEnd)"
    have ending: "good (ending p str args tests s2) s" if a: "after s1 s2" for p str args tests s2
    proof -
      have "valid_stream s2" using a by (simp add: after_def)
      then show ?thesis
      proof (cases rule: stream_cases)
        case 2: (Cons t2 s3)
        have loop: "good (parseLoop n s3 k opts res) s" for res
          using Cons 2 l a by (intro good_mono [OF IHl]) (auto simp: after_def)
        have block: "good (case parse n s3 (k + 1) opts of
             Inl e \<Rightarrow> Inl e
           | Inr (cmds, s4) \<Rightarrow>
               (if Last s4 = None then Err s4 ExpectedClosingBrace
                else parseLoop n s4 k opts (res @ [Cmd p str args tests (Some cmds)]))) s"
        proof (rule good_bind [OF IHp])
          fix cmds s4
          assume a4: "after s3 s4"
          have "good (parseLoop n s4 k opts r) s" for r
            using Cons 2 l a a4 by (intro good_mono [OF IHl]) (auto simp: after_def)
          then show "good (if Last s4 = None then Err s4 ExpectedClosingBrace
              else parseLoop n s4 k opts (res @ [Cmd p str args tests (Some cmds)])) s"
            using a a4 2 c1 by (auto simp: after_def)
        qed (use Cons 2 l a c1 in \<open>auto simp: after_def\<close>)
        show ?thesis using a 2 c1 loop block unfolding ending_def by (cases t2) (auto simp: after_def)
      qed (use a c1 in \<open>auto simp: ending_def after_def\<close>)
    qed
    have "good (case readArguments n s1 False 0 opts of Inl e \<Rightarrow> Inl e
        | Inr ((args, tests), s2) \<Rightarrow> ending p str args tests s2) s" for p str
      using Cons c1 l by (intro good_bind2 [OF readArguments_good] ending) auto
    then show ?thesis using v c1 Cons unfolding ending_def by (cases t) (auto simp: after_def)
  qed (use v in \<open>auto simp: after_def\<close>)
  ultimately show ?case by blast
qed simp

text \<open>
  C15. \<open>Parse\<close> returns on every token list, with a syntax tree or a proper parse error, when
  the limit on nested blocks is not negative: the bounded recursion of the model is never cut off
  and the error path never panics.
\<close>

theorem parse_total:
  assumes "0 \<le> MaxBlockNesting opts" and "Parse (NewStream toks) opts = Inl (k, t)"
  shows "k \<noteq> OutOfFuel \<and> k \<noteq> StreamPanic"
proof -
  have "good (parse (parseFuel (NewStream toks)) (NewStream toks) 0 opts) (NewStream toks)"
    using assms(1) parse_good [of opts "parseFuel (NewStream toks)"] by (auto simp: parseFuel_def ts.new_valid)
  with assms(2) show ?thesis
    by (cases "parse (parseFuel (NewStream toks)) (NewStream toks) 0 opts") (auto simp: Parse_def)
qed

theorem parse_total_witness:
  "Parse (NewStream [Comma (LineCol 1 1)]) \<lparr>MaxBlockNesting = 1, MaxTestNesting = 1\<rparr>
     = Inl (ExpectedCommand, Some (Comma (LineCol 1 1))) \<and> ExpectedCommand \<noteq> OutOfFuel"
proof -
  have e: "Parse (NewStream [Comma (LineCol 1 1)]) \<lparr>MaxBlockNesting = 1, MaxTestNesting = 1\<rparr>
     = Inl (ExpectedCommand, Some (Comma (LineCol 1 1)))"
    by code_simp
  show ?thesis using e parse_total [OF _ e] by simp
qed

text \<open>
  A negative limit is exceeded before the first token is read; building the error then indexes
  the tokens with the cursor still at -1.
\<close>

lemma parse_negative_limit:
  "MaxBlockNesting opts < 0 \<Longrightarrow> Parse (NewStream toks) opts = Inl (StreamPanic, None)"
  by (simp add: Parse_def parseFuel_def Err_def NewStream_def)

end
