(* ===== verification/Parser_Laws.thy ===== *)
theory Parser_Laws
  imports Parser_Total
begin

text \<open>
  The syntax trees \<open>Parse\<close> returns: their nesting is within the limits of the
  options, their numbers are 64-bit integers, and every such tree is the parse of its
  own printed form.  \<open>printCmds\<close> is the reference printer; the parser is proved to be
  its left inverse.
\<close>

section \<open>Nesting and well-formedness of trees\<close>

fun testDepth :: "test \<Rightarrow> nat" where
  "testDepth (Test p i args tests) = foldr max (map (\<lambda>t. Suc (testDepth t)) tests) 0"

fun cmdDepth :: "cmd \<Rightarrow> nat" where
  "cmdDepth (Cmd p i args tests None) = 0"
| "cmdDepth (Cmd p i args tests (Some cmds)) = Suc (foldr max (map cmdDepth cmds) 0)"

definition within :: "int \<Rightarrow> int \<Rightarrow> bool" where
  "within limit n \<longleftrightarrow> limit = 0 \<or> n \<le> limit"

fun wf_arg :: "arg \<Rightarrow> bool" where
  "wf_arg (NumberArg v p) \<longleftrightarrow> - (2 ^ 63) \<le> v \<and> v < 2 ^ 63"
| "wf_arg a \<longleftrightarrow> True"

text \<open>\<open>k\<close> is the \<open>nesting\<close> parameter the source passes down.\<close>

fun wf_test :: "parse_options \<Rightarrow> int \<Rightarrow> test \<Rightarrow> bool" where
  "wf_test opts k (Test p i args tests) \<longleftrightarrow>
     within (MaxTestNesting opts) k \<and> list_all wf_arg args \<and> (\<forall>t \<in> set tests. wf_test opts (k + 1) t)"

fun wf_cmd :: "parse_options \<Rightarrow> int \<Rightarrow> cmd \<Rightarrow> bool" where
  "wf_cmd opts k (Cmd p i args tests blk) \<longleftrightarrow>
     within (MaxTestNesting opts) 0 \<and> list_all wf_arg args \<and> (\<forall>t \<in> set tests. wf_test opts 1 t) \<and>
     (case blk of None \<Rightarrow> True
      | Some cmds \<Rightarrow> within (MaxBlockNesting opts) (k + 1) \<and> (\<forall>c \<in> set cmds. wf_cmd opts (k + 1) c))"

definition wf_cmds :: "parse_options \<Rightarrow> int \<Rightarrow> cmd list \<Rightarrow> bool" where
  "wf_cmds opts k cmds \<longleftrightarrow> within (MaxBlockNesting opts) k \<and> (\<forall>c \<in> set cmds. wf_cmd opts k c)"

lemma foldr_max_bound: "(\<And>x. x \<in> set xs \<Longrightarrow> int x \<le> b) \<Longrightarrow> 0 \<le> b \<Longrightarrow> int (foldr max xs 0) \<le> b"
  by (induction xs) (auto simp: max_def)

lemma wf_test_depth: "wf_test opts k t \<Longrightarrow> MaxTestNesting opts \<noteq> 0 \<Longrightarrow> k + int (testDepth t) \<le> MaxTestNesting opts"
proof (induction t arbitrary: k)
  case (Test p i args tests)
  have "int (foldr max (map (\<lambda>t. Suc (testDepth t)) tests) 0) \<le> MaxTestNesting opts - k"
  proof (rule foldr_max_bound)
    fix x
    assume "x \<in> set (map (\<lambda>t. Suc (testDepth t)) tests)"
    then obtain t where t: "t \<in> set tests" "x = Suc (testDepth t)" by auto
    with Test have "k + 1 + int (testDepth t) \<le> MaxTestNesting opts" by simp
    with t show "int x \<le> MaxTestNesting opts - k" by simp
  qed (use Test.prems in \<open>simp add: within_def\<close>)
  then show ?case by simp
qed

lemma wf_cmd_depth:
  "wf_cmd opts k c \<Longrightarrow> MaxBlockNesting opts \<noteq> 0 \<Longrightarrow> k \<le> MaxBlockNesting opts \<Longrightarrow>
   k + int (cmdDepth c) \<le> MaxBlockNesting opts"
proof (induction c arbitrary: k)
  case (Cmd p i args tests blk)
  show ?case
  proof (cases blk)
    case (Some cmds)
    have "int (foldr max (map cmdDepth cmds) 0) \<le> MaxBlockNesting opts - (k + 1)"
    proof (rule foldr_max_bound)
      fix x
      assume "x \<in> set (map cmdDepth cmds)"
      then obtain c where c: "c \<in> set cmds" "x = cmdDepth c" by auto
      with Cmd Some have "k + 1 + int (cmdDepth c) \<le> MaxBlockNesting opts"
        by (auto simp: within_def)
      with c show "int x \<le> MaxBlockNesting opts - (k + 1)" by simp
    qed (use Cmd.prems Some in \<open>simp add: within_def\<close>)
    with Some show ?thesis by simp
  qed (use Cmd.prems in simp)
qed

section \<open>The parser returns well-formed trees\<close>

fun yields :: "('a \<Rightarrow> bool) \<Rightarrow> (parse_error, 'a \<times> stream) result \<Rightarrow> bool" where
  "yields P (Inl e) \<longleftrightarrow> True"
| "yields P (Inr (x, s)) \<longleftrightarrow> P x"

lemma yields_Err [simp]: "yields P (Err s k)"
  by (simp add: Err_def)

lemma yields_True [simp]: "yields (\<lambda>_. True) r"
  by (cases r) auto

lemma yields_bind:
  assumes "yields P r" and "\<And>x s. P x \<Longrightarrow> yields Q (f x s)"
  shows "yields Q (case r of Inl e \<Rightarrow> Inl e | Inr (x, s) \<Rightarrow> f x s)"
  using assms by (cases r) (auto split: prod.splits)

lemma yields_bind2:
  assumes "yields (\<lambda>(x, y). P x y) r" and "\<And>x y s. P x y \<Longrightarrow> yields Q (f x y s)"
  shows "yields Q (case r of Inl e \<Rightarrow> Inl e | Inr ((x, y), s) \<Rightarrow> f x y s)"
  using assms by (cases r) (auto split: prod.splits)

definition wf_body :: "parse_options \<Rightarrow> int \<Rightarrow> arg list \<times> test list \<Rightarrow> bool" where
  "wf_body opts k = (\<lambda>(args, tests). within (MaxTestNesting opts) k \<and> list_all wf_arg args \<and>
     (\<forall>t \<in> set tests. wf_test opts (k + 1) t))"

lemma wf_body_test: "wf_body opts k (args, tests) \<Longrightarrow> wf_test opts k (Test p i args tests)"
  by (simp add: wf_body_def)

lemma args_wf:
  "(\<forall>s f k. yields (wf_body opts k) (readArguments n s f k opts)) \<and>
   (\<forall>s f k args tests. wf_body opts k (args, tests) \<longrightarrow>
      yields (wf_body opts k) (readArgumentsLoop n s f k opts args tests)) \<and>
   (\<forall>s k b res. (\<forall>t \<in> set res. wf_test opts (k + 1) t) \<longrightarrow>
      yields (\<lambda>ts. \<forall>t \<in> set ts. wf_test opts (k + 1) t) (readTestListLoop n s k opts b res))"
proof (induction n)
  case (Suc n)
  have IHa: "yields (wf_body opts k) (readArguments n s f k opts)" for s f k
    using Suc.IH by blast
  have IHl: "yields (wf_body opts k) (readArgumentsLoop n s f k opts args tests)"
    if "wf_body opts k (args, tests)" for s f k args tests
    using Suc.IH that by blast
  have IHt: "yields (\<lambda>ts. \<forall>t \<in> set ts. wf_test opts (k + 1) t) (readTestListLoop n s k opts b res)"
    if "\<forall>t \<in> set res. wf_test opts (k + 1) t" for s k b res
    using Suc.IH that by blast
  have "yields (wf_body opts k) (readArguments (Suc n) s f k opts)" for s f k
    using IHl [of k "[]" "[]" s f] by (auto simp: wf_body_def within_def)
  moreover have "yields (\<lambda>ts. \<forall>t \<in> set ts. wf_test opts (k + 1) t) (readTestListLoop (Suc n) s k opts b res)"
    if r: "\<forall>t \<in> set res. wf_test opts (k + 1) t" for s k b res
  proof -
    have a: "yields (\<lambda>ts. \<forall>t \<in> set ts. wf_test opts (k + 1) t)
      (case readArguments n s1 True (k + 1) opts of Inl e \<Rightarrow> Inl e
       | Inr ((args, tests), s2) \<Rightarrow> readTestListLoop n s2 k opts False (res @ [Test p str args tests]))" for s1 p str
    proof (rule yields_bind2 [where P = "\<lambda>args tests. wf_body opts (k + 1) (args, tests)"])
      show "yields (\<lambda>(x, y). wf_body opts (k + 1) (x, y)) (readArguments n s1 True (k + 1) opts)"
        using IHa [of "k + 1" s1 True] by (simp add: case_prod_unfold)
    next
      fix args tests s2
      assume "wf_body opts (k + 1) (args, tests)"
      with r show "yields (\<lambda>ts. \<forall>t \<in> set ts. wf_test opts (k + 1) t)
         (readTestListLoop n s2 k opts False (res @ [Test p str args tests]))"
        by (intro IHt) (auto simp: wf_body_def)
    qed
    show ?thesis using a IHt [OF r] r by (simp split: prod.split option.split token.split)
  qed
  moreover have "yields (wf_body opts k) (readArgumentsLoop (Suc n) s f k opts args tests)"
    if b: "wf_body opts k (args, tests)" for s f k args tests
  proof -
    have test: "yields (wf_body opts k) (case readArguments n s1 True (k + 1) opts of Inl e \<Rightarrow> Inl e
       | Inr ((tArgs, tTests), s2) \<Rightarrow>
           readArgumentsLoop n s2 f k opts args (tests @ [Test p str tArgs tTests]))" for s1 p str
    proof (rule yields_bind2 [where P = "\<lambda>args tests. wf_body opts (k + 1) (args, tests)"])
      show "yields (\<lambda>(x, y). wf_body opts (k + 1) (x, y)) (readArguments n s1 True (k + 1) opts)"
        using IHa [of "k + 1" s1 True] by (simp add: case_prod_unfold)
    next
      fix tArgs tTests s2
      assume "wf_body opts (k + 1) (tArgs, tTests)"
      with b show "yields (wf_body opts k) (readArgumentsLoop n s2 f k opts args (tests @ [Test p str tArgs tTests]))"
        by (intro IHl) (auto simp: wf_body_def)
    qed
    have strs: "yields (wf_body opts k) (case readStringList n s1 of Inl e \<Rightarrow> Inl e
       | Inr (list, s2) \<Rightarrow> readArgumentsLoop n s2 f k opts (args @ [StringListArg list p]) tests)" for s1 p
      using b by (intro yields_bind [OF yields_True] IHl) (auto simp: wf_body_def)
    have tlist: "yields (wf_body opts k) (case readTestListLoop n s1 k opts True [] of Inl e \<Rightarrow> Inl e
       | Inr (tests', s2) \<Rightarrow> Inr ((args, tests'), s2))" for s1
      by (rule yields_bind [OF IHt]) (use b in \<open>auto simp: wf_body_def\<close>)
    have num: "yields (wf_body opts k) (readArgumentsLoop n s1 f k opts (args @ [NumberArg (wrap64 v) p]) tests)" for s1 v p
      using b wrap64_bounds [of v] by (intro IHl) (auto simp: wf_body_def maxInt64_def)
    have tag: "yields (wf_body opts k) (case Pop s1 of
             (Some (Identifier p2 str), s2) \<Rightarrow> readArgumentsLoop n s2 f k opts (args @ [TagArg str p]) tests
           | (_, s2) \<Rightarrow> Err s2 ExpectedTagIdentifier)" for s1 p
    proof -
      have "wf_body opts k (args @ [TagArg str p], tests)" for str using b by (simp add: wf_body_def)
      then show ?thesis by (simp add: IHl split: prod.split option.split token.split)
    qed
    have str: "yields (wf_body opts k) (readArgumentsLoop n s1 f k opts (args @ [StringArg str p]) tests)" for s1 str p
      using b by (intro IHl) (auto simp: wf_body_def)
    show ?thesis
    proof (cases "Peek s")
      case (Some t)
      with b test strs tlist num tag str show ?thesis by (cases t) auto
    qed simp
  qed
  ultimately show ?case by blast
qed simp

lemma readArguments_wf: "yields (wf_body opts k) (readArguments n s f k opts)"
  using args_wf by blast

lemma parse_wf:
  "(\<forall>s k. yields (wf_cmds opts k) (parse n s k opts)) \<and>
   (\<forall>s k res. wf_cmds opts k res \<longrightarrow> yields (wf_cmds opts k) (parseLoop n s k opts res))"
proof (induction n)
  case (Suc n)
  have IHp: "yields (wf_cmds opts k) (parse n s k opts)" for s k
    using Suc.IH by blast
  have IHl: "yields (wf_cmds opts k) (parseLoop n s k opts res)" if "wf_cmds opts k res" for s k res
    using Suc.IH that by blast
  have "yields (wf_cmds opts k) (parse (Suc n) s k opts)" for s k
    using IHl [of k "[]" s] by (auto simp: wf_cmds_def within_def)
  moreover have "yields (wf_cmds opts k) (parseLoop (Suc n) s k opts res)" if r: "wf_cmds opts k res" for s k res
  proof -
    have plain: "yields (wf_cmds opts k) (parseLoop n s3 k opts (res @ [Cmd p str args tests None]))"
      if "wf_body opts 0 (args, tests)" for s3 p str args tests
      using r that by (intro IHl) (auto simp: wf_cmds_def wf_body_def)
    have block: "yields (wf_cmds opts k) (case parse n s3 (k + 1) opts of
             Inl e \<Rightarrow> Inl e
           | Inr (cmds, s4) \<Rightarrow>
               (if Last s4 = None then Err s4 ExpectedClosingBrace
                else parseLoop n s4 k opts (res @ [Cmd p str args tests (Some cmds)])))"
      if w: "wf_body opts 0 (args, tests)" for s3 p str args tests
    proof (rule yields_bind [OF IHp])
      fix cmds s4
      assume c: "wf_cmds opts (k + 1) cmds"
      have "yields (wf_cmds opts k) (parseLoop n s4 k opts (res @ [Cmd p str args tests (Some cmds)]))"
        using r c w by (intro IHl) (auto simp: wf_cmds_def wf_body_def)
      then show "yields (wf_cmds opts k) (if Last s4 = None then Err s4 ExpectedClosingBrace
                else parseLoop n s4 k opts (res @ [Cmd p str args tests (Some cmds)]))"
        by simp
    qed
    have cmd: "yields (wf_cmds opts k) (case readArguments n s1 False 0 opts of Inl e \<Rightarrow> Inl e
        | Inr ((args, tests), s2) \<Rightarrow> (case Pop s2 of
                  (None, s3) \<Rightarrow> Err s3 ExpectedCommandEnd
                | (Some (Semicolon p2), s3) \<Rightarrow>
                    parseLoop n s3 k opts (res @ [Cmd p str args tests None])
                | (Some (BlockStart p2), s3) \<Rightarrow>
                    (case parse n s3 (k + 1) opts of
                       Inl e \<Rightarrow> Inl e
                     | Inr (cmds, s4) \<Rightarrow>
                         (if Last s4 = None then Err s4 ExpectedClosingBrace
                          else parseLoop n s4 k opts (res @ [Cmd p str args tests (Some cmds)])))
                | (Some _, s3) \<Rightarrow> Err s3 UnexpectedCommandEnd))" for s1 p str
    proof (rule yields_bind2 [where P = "\<lambda>args tests. wf_body opts 0 (args, tests)"], goal_cases)
      case 1
      show ?case using readArguments_wf [of opts 0 n s1 False] by (simp add: case_prod_unfold)
    next
      case (2 args tests s2)
      then show ?case using plain block by (simp split: prod.split option.split token.split)
    qed
    show ?thesis using r cmd by (simp split: prod.split option.split token.split)
  qed
  ultimately show ?case by blast
qed simp

lemma Parse_wf: "Parse s opts = Inr cmds \<Longrightarrow> wf_cmds opts 0 cmds"
  using parse_wf [THEN conjunct1, rule_format, of opts 0 "parseFuel s" s]
  by (cases "parse (parseFuel s) s 0 opts") (auto simp: Parse_def)

section \<open>Printing trees\<close>

definition noPos :: position where
  "noPos = LineCol 0 0"

fun printStrings :: "bytes list \<Rightarrow> token list" where
  "printStrings [] = []"
| "printStrings [s] = [StringTok noPos s]"
| "printStrings (s # ss) = StringTok noPos s # Comma noPos # printStrings ss"

fun printArg :: "arg \<Rightarrow> token list" where
  "printArg (NumberArg v p) = [Number p v NoQuantifier]"
| "printArg (StringArg s p) = [StringTok p s]"
| "printArg (StringListArg ss p) = ListStart p # printStrings ss @ [ListEnd noPos]"
| "printArg (TagArg s p) = [Colon p, Identifier noPos s]"

definition printArgs :: "arg list \<Rightarrow> token list" where
  "printArgs args = concat (map printArg args)"

fun commaSep :: "token list list \<Rightarrow> token list" where
  "commaSep [] = []"
| "commaSep [x] = x"
| "commaSep (x # xs) = x @ Comma noPos # commaSep xs"

text \<open>One test is printed bare, several as a parenthesised test list.\<close>

definition wrapTests :: "token list list \<Rightarrow> token list" where
  "wrapTests xs = (if length xs \<le> 1 then commaSep xs
                   else TestListStart noPos # commaSep xs @ [TestListEnd noPos])"

fun printTest :: "test \<Rightarrow> token list" where
  "printTest (Test p i args tests) = Identifier p i # printArgs args @ wrapTests (map printTest tests)"

fun printCmd :: "cmd \<Rightarrow> token list" where
  "printCmd (Cmd p i args tests blk) =
     Identifier p i # printArgs args @ wrapTests (map printTest tests) @
     (case blk of None \<Rightarrow> [Semicolon noPos]
      | Some cmds \<Rightarrow> BlockStart noPos # concat (map printCmd cmds) @ [BlockEnd noPos])"

definition printCmds :: "cmd list \<Rightarrow> token list" where
  "printCmds cmds = concat (map printCmd cmds)"

section \<open>The parser inverts the printer\<close>

definition skip :: "nat \<Rightarrow> stream \<Rightarrow> stream" where
  "skip k s = s\<lparr>cursor := cursor s + int k\<rparr>"

definition reads :: "stream \<Rightarrow> token list \<Rightarrow> bool" where
  "reads s toks \<longleftrightarrow> valid_stream s \<and> remaining s = toks"

lemma skip_skip [simp]: "skip a (skip b s) = skip (a + b) s"
  by (simp add: skip_def)

lemma skip_0 [simp]: "skip 0 s = s"
  by (simp add: skip_def)

lemma reads_append: "reads s (xs @ ys) \<Longrightarrow> reads (skip (length xs) s) ys"
proof -
  assume r: "reads s (xs @ ys)"
  have "nat (cursor s + int (length xs) + 1) = length xs + nat (cursor s + 1)"
    using r unfolding reads_def valid_stream_def by linarith
  with r show ?thesis
    by (simp add: reads_def skip_def valid_stream_def remaining_def flip: drop_drop)
qed

lemma reads_Cons: "reads s (t # ts) \<Longrightarrow> reads (skip 1 s) ts"
  using reads_append [of s "[t]" ts] by simp

lemma Pop_skip: "snd (Pop s) = skip 1 s"
  by (simp add: Pop_def Let_def skip_def)

lemma reads_Pop: "reads s (t # ts) \<Longrightarrow> Pop s = (Some t, skip 1 s)"
  using Pop_skip [of s] ts.pop_token [of s] by (cases "Pop s") (simp add: reads_def)

lemma reads_Pop_Nil: "reads s [] \<Longrightarrow> Pop s = (None, skip 1 s)"
  using Pop_skip [of s] ts.pop_token [of s] by (cases "Pop s") (simp add: reads_def)

lemma reads_Peek: "reads s (t # ts) \<Longrightarrow> Peek s = Some t"
  by (simp add: reads_def ts.peek_token)

lemma reads_Last: "reads s (t # ts) \<Longrightarrow> Last (skip 1 s) = Some t"
  using ts.pop_last [of s] reads_Pop [of s t ts] by (simp add: reads_def)

lemmas reads_simps = reads_Pop reads_Pop_Nil reads_Peek Pop_skip

lemma readStringListLoop_print:
  "reads s (printStrings ss @ ListEnd p # rest) \<Longrightarrow> length (printStrings ss) < n \<Longrightarrow>
   readStringListLoop n s True res = Inr (res @ ss, skip (length (printStrings ss) + 1) s)"
proof (induction ss arbitrary: s n res rule: printStrings.induct)
  case 1
  then show ?case by (cases n) (auto simp: reads_simps)
next
  case (2 x)
  then obtain m where n: "n = Suc (Suc m)" by (cases n; cases "n - 1") auto
  have "reads (skip 1 s) (ListEnd p # rest)" using 2 by (auto dest: reads_Cons)
  with 2 n show ?case by (simp add: reads_simps)
next
  case (3 x y ss)
  then obtain m where n: "n = Suc (Suc m)" by (cases n; cases "n - 1") auto
  have 1: "reads (skip 1 s) (Comma noPos # printStrings (y # ss) @ ListEnd p # rest)"
    using 3 by (auto dest: reads_Cons)
  then have "reads (skip 2 s) (printStrings (y # ss) @ ListEnd p # rest)"
    using reads_Cons [OF 1] by (simp add: numeral_2_eq_2)
  with 3 n 1 show ?case by (simp add: reads_simps numeral_2_eq_2 del: printStrings.simps(2))
qed

lemma readArgumentsLoop_printArg:
  assumes r: "reads s (printArg a @ rest)" and w: "wf_arg a" and l: "length (printArg a) \<le> n"
  shows "readArgumentsLoop (Suc n) s f k opts acc ts =
    readArgumentsLoop n (skip (length (printArg a)) s) f k opts (acc @ [a]) ts"
proof (cases a)
  case (NumberArg v p)
  with r w show ?thesis by (simp add: reads_simps Multiplier_def wrap64_id maxInt64_def)
next
  case (StringArg str p)
  with r show ?thesis by (simp add: reads_simps)
next
  case (StringListArg ss p)
  then have "reads (skip 1 s) (printStrings ss @ ListEnd noPos # rest)"
    using r by (auto dest: reads_Cons)
  then have "readStringListLoop n (skip 1 s) True [] = Inr (ss, skip (length (printArg a)) s)"
    using readStringListLoop_print [of "skip 1 s" ss noPos rest n "[]"] StringListArg l by simp
  with r StringListArg show ?thesis by (simp add: reads_simps readStringList_def)
next
  case (TagArg str p)
  then have "reads (skip 1 s) (Identifier noPos str # rest)"
    using r by (auto dest: reads_Cons)
  with r TagArg show ?thesis by (simp add: reads_simps numeral_2_eq_2)
qed

lemma readArgumentsLoop_printArgs:
  "reads s (printArgs args @ rest) \<Longrightarrow> list_all wf_arg args \<Longrightarrow> length (printArgs args) \<le> n \<Longrightarrow>
   readArgumentsLoop (length args + n) s f k opts acc ts =
     readArgumentsLoop n (skip (length (printArgs args)) s) f k opts (acc @ args) ts"
proof (induction args arbitrary: s acc)
  case (Cons a args)
  have "reads s (printArg a @ printArgs args @ rest)" using Cons.prems(1) by (simp add: printArgs_def)
  moreover from this have "reads (skip (length (printArg a)) s) (printArgs args @ rest)"
    by (rule reads_append)
  ultimately show ?case
    using Cons readArgumentsLoop_printArg [of s a "printArgs args @ rest" "length args + n" f k opts acc ts]
    by (simp add: printArgs_def add.commute)
qed (simp add: printArgs_def)

lemma length_printArgs: "length args \<le> length (printArgs args)"
proof (induction args)
  case (Cons a args)
  have "1 \<le> length (printArg a)" by (cases a) auto
  with Cons show ?case by (simp add: printArgs_def)
qed simp

text \<open>The tokens that end the arguments of a command, and of a test.\<close>

fun ender :: "bool \<Rightarrow> token \<Rightarrow> bool" where
  "ender f (Semicolon p) \<longleftrightarrow> True"
| "ender f (BlockStart p) \<longleftrightarrow> True"
| "ender f (Comma p) \<longleftrightarrow> f"
| "ender f (TestListEnd p) \<longleftrightarrow> f"
| "ender f t \<longleftrightarrow> False"

lemma ender_test: "ender f e \<Longrightarrow> ender True e"
  by (cases e) auto

lemma readArgumentsLoop_end:
  "reads s (e # rest) \<Longrightarrow> ender f e \<Longrightarrow> readArgumentsLoop (Suc n) s f k opts acc ts = Inr ((acc, ts), s)"
  by (cases e) (auto simp: reads_simps)

definition test_ok :: "parse_options \<Rightarrow> int \<Rightarrow> test \<Rightarrow> bool" where
  "test_ok opts k t \<longleftrightarrow> (\<forall>s n e rest. reads s (tl (printTest t) @ e # rest) \<longrightarrow> ender True e \<longrightarrow>
     2 * length (printTest t) \<le> n \<longrightarrow>
     readArguments n s True k opts =
       Inr ((test_args t, test_tests t), skip (length (printTest t) - 1) s))"

lemma printTest_Cons: "printTest t = Identifier (test_pos t) (test_id t) # tl (printTest t)"
  by (cases t) simp

lemma length_printTest: "0 < length (printTest t)"
  by (cases t) simp

lemma test_okD:
  assumes "test_ok opts k t" and "reads s (printTest t @ e # rest)" and "ender True e"
    and "2 * length (printTest t) \<le> n"
  shows "readArguments n (skip 1 s) True k opts =
    Inr ((test_args t, test_tests t), skip (length (printTest t)) s)"
proof -
  have "reads (skip 1 s) (tl (printTest t) @ e # rest)"
    using assms(2) printTest_Cons [of t] by (metis append_Cons reads_Cons)
  moreover have "length (printTest t) - 1 + 1 = length (printTest t)"
    using length_printTest [of t] by linarith
  ultimately show ?thesis using assms unfolding test_ok_def by (metis skip_skip)
qed

lemma test_collapse [simp]: "Test (test_pos t) (test_id t) (test_args t) (test_tests t) = t"
  by (cases t) simp

lemma reads_printTest:
  "reads s (printTest t @ rest) \<Longrightarrow>
   Pop s = (Some (Identifier (test_pos t) (test_id t)), skip 1 s) \<and>
   Peek s = Some (Identifier (test_pos t) (test_id t))"
  by (cases t) (auto simp: reads_simps)

lemma readTestListLoop_print:
  "\<lbrakk>ts \<noteq> []; \<forall>t \<in> set ts. test_ok opts (k + 1) t;
    reads s (commaSep (map printTest ts) @ TestListEnd p # rest);
    2 * length (commaSep (map printTest ts)) + 2 \<le> n\<rbrakk> \<Longrightarrow>
   readTestListLoop n s k opts True res =
     Inr (res @ ts, skip (length (commaSep (map printTest ts)) + 1) s)"
proof (induction ts arbitrary: s n res rule: list_nonempty_induct)
  case (single t)
  then obtain m where n: "n = Suc (Suc m)" by (cases n; cases "n - 1") auto
  have r: "reads s (printTest t @ TestListEnd p # rest)" using single by simp
  have "readArguments (Suc m) (skip 1 s) True (k + 1) opts =
      Inr ((test_args t, test_tests t), skip (length (printTest t)) s)"
    using single n r by (intro test_okD [OF _ r]) auto
  moreover have "reads (skip (length (printTest t)) s) (TestListEnd p # rest)"
    using reads_append [OF r] .
  ultimately show ?case using reads_printTest [OF r] n by (simp add: reads_Pop)
next
  case (cons t ts)
  let ?l = "length (printTest t)"
  obtain t' ts' where ts: "ts = t' # ts'" using cons.hyps by (cases ts) auto
  have r: "reads s (printTest t @ Comma noPos # commaSep (map printTest ts) @ TestListEnd p # rest)"
    using cons.prems(2) ts by simp
  have l: "2 * (?l + 1 + length (commaSep (map printTest ts))) + 2 \<le> n"
    using cons.prems(3) ts by simp
  then obtain m where n: "n = Suc (Suc m)" by (cases n; cases "n - 1") auto
  have a: "readArguments (Suc m) (skip 1 s) True (k + 1) opts = Inr ((test_args t, test_tests t), skip ?l s)"
    using cons.prems(1) l n by (intro test_okD [OF _ r]) auto
  have c: "reads (skip ?l s) (Comma noPos # commaSep (map printTest ts) @ TestListEnd p # rest)"
    using reads_append [OF r] .
  have "readTestListLoop m (skip (Suc ?l) s) k opts True (res @ [t]) =
      Inr ((res @ [t]) @ ts, skip (length (commaSep (map printTest ts)) + 1) (skip (Suc ?l) s))"
    using cons.prems(1) reads_Cons [OF c] l n length_printTest [of t] by (intro cons.IH) auto
  then show ?case using reads_printTest [OF r] a c n ts by (simp add: reads_Pop add_ac)
qed

lemma readArguments_print:
  assumes ok: "\<forall>t \<in> set tests. test_ok opts (k + 1) t"
    and w: "within (MaxTestNesting opts) k" "list_all wf_arg args"
    and r: "reads s (printArgs args @ wrapTests (map printTest tests) @ e # rest)"
    and e: "ender f e"
    and l: "2 * length (printArgs args @ wrapTests (map printTest tests)) + 2 \<le> n"
  shows "readArguments n s f k opts =
    Inr ((args, tests), skip (length (printArgs args @ wrapTests (map printTest tests))) s)"
proof -
  let ?a = "length (printArgs args)" and ?w = "wrapTests (map printTest tests)"
  let ?s1 = "skip ?a s"
  have "length args \<le> ?a" by (rule length_printArgs)
  with l obtain m where n: "n = Suc (length args + Suc m)" and m: "?a + 2 * length ?w \<le> m"
    by (auto dest!: le_Suc_ex intro: that [of "_ + _"])
  have r1: "reads ?s1 (?w @ e # rest)" using reads_append [OF r] .
  have eq: "readArguments n s f k opts = readArgumentsLoop (Suc m) ?s1 f k opts args []"
    using readArgumentsLoop_printArgs [OF r w(2), of "Suc m" f k opts "[]" "[]"] m w(1) n
    by (auto simp: within_def)
  consider "tests = []" | t where "tests = [t]" | "1 < length tests"
    by (cases tests; cases "tl tests") auto
  then show ?thesis
  proof cases
    case 1
    with eq r1 e show ?thesis
      by (simp add: wrapTests_def readArgumentsLoop_end del: readArgumentsLoop.simps)
  next
    case (2 t)
    have r2: "reads ?s1 (printTest t @ e # rest)" using r1 2 by (simp add: wrapTests_def)
    have "readArguments m (skip 1 ?s1) True (k + 1) opts =
        Inr ((test_args t, test_tests t), skip (length (printTest t)) ?s1)"
      using 2 ok e m by (intro test_okD [OF _ r2]) (auto simp: ender_test wrapTests_def)
    moreover obtain m' where "m = Suc m'"
      using m 2 length_printTest [of t] by (cases m) (auto simp: wrapTests_def)
    then have "readArgumentsLoop m (skip (length (printTest t)) ?s1) f k opts args [t] =
        Inr ((args, [t]), skip (length (printTest t)) ?s1)"
      using readArgumentsLoop_end [OF reads_append [OF r2] e] by (simp only:)
    ultimately show ?thesis
      using eq reads_printTest [OF r2] 2 by (simp add: wrapTests_def Pop_skip add.commute)
  next
    case 3
    let ?c = "commaSep (map printTest tests)"
    have r2: "reads ?s1 (TestListStart noPos # ?c @ TestListEnd noPos # e # rest)"
      using r1 3 by (simp add: wrapTests_def)
    have "readTestListLoop m (skip 1 ?s1) k opts True [] = Inr ([] @ tests, skip (length ?c + 1) (skip 1 ?s1))"
      using 3 ok m reads_Cons [OF r2] by (intro readTestListLoop_print) (auto simp: wrapTests_def)
    with eq r2 3 show ?thesis by (simp add: wrapTests_def reads_simps add_ac)
  qed
qed

lemma test_ok_wf: "wf_test opts k t \<Longrightarrow> test_ok opts k t"
proof (induction t arbitrary: k)
  case (Test p i args tests)
  then have "\<forall>t \<in> set tests. test_ok opts (k + 1) t" by simp
  from readArguments_print [OF this] Test.prems
  show ?case by (simp add: test_ok_def)
qed

definition cmd_ok :: "parse_options \<Rightarrow> cmd \<Rightarrow> bool" where
  "cmd_ok opts c \<longleftrightarrow> (\<forall>s n k acc rest. reads s (printCmd c @ rest) \<longrightarrow> wf_cmd opts k c \<longrightarrow>
     2 * length (printCmd c) \<le> n \<longrightarrow>
     parseLoop (Suc n) s k opts acc = parseLoop n (skip (length (printCmd c)) s) k opts (acc @ [c]))"

text \<open>A command list ends at the end of the input or at a closing brace.\<close>

definition closes :: "token list \<Rightarrow> bool" where
  "closes toks \<longleftrightarrow> toks = [] \<or> (\<exists>p rest. toks = BlockEnd p # rest)"

lemma parseLoop_closes:
  "reads s toks \<Longrightarrow> closes toks \<Longrightarrow> parseLoop (Suc n) s k opts acc = Inr (acc, skip 1 s)"
  by (auto simp: closes_def reads_simps)

lemma parseLoop_print:
  "\<lbrakk>\<forall>c \<in> set cmds. cmd_ok opts c \<and> wf_cmd opts k c; reads s (printCmds cmds @ toks); closes toks;
    2 * length (printCmds cmds) + 1 \<le> n\<rbrakk> \<Longrightarrow>
   parseLoop n s k opts acc = Inr (acc @ cmds, skip (length (printCmds cmds) + 1) s)"
proof (induction cmds arbitrary: s n acc)
  case Nil
  then obtain m where "n = Suc m" by (cases n) auto
  with Nil show ?case by (simp add: printCmds_def parseLoop_closes del: parseLoop.simps)
next
  case (Cons c cmds)
  let ?l = "length (printCmd c)"
  have 0: "0 < ?l" by (cases c) simp
  have r: "reads s (printCmd c @ printCmds cmds @ toks)" using Cons.prems(2) by (simp add: printCmds_def)
  have l: "2 * ?l + 2 * length (printCmds cmds) + 1 \<le> n" using Cons.prems(4) by (simp add: printCmds_def)
  then obtain m where n: "n = Suc m" by (cases n) auto
  have m: "2 * length (printCmds cmds) + 1 \<le> m" using l n 0 by linarith
  have "parseLoop n s k opts acc = parseLoop m (skip ?l s) k opts (acc @ [c])"
    using Cons.prems(1) r l n by (auto simp: cmd_ok_def simp del: parseLoop.simps)
  also have "\<dots> = Inr ((acc @ [c]) @ cmds, skip (length (printCmds cmds) + 1) (skip ?l s))"
    using Cons.prems(1,3) m by (intro Cons.IH reads_append [OF r]) auto
  finally show ?case by (simp add: printCmds_def add_ac)
qed

lemma parse_print:
  assumes "\<forall>c \<in> set cmds. cmd_ok opts c" and "wf_cmds opts k cmds"
    and "reads s (printCmds cmds @ toks)" and "closes toks" and "2 * length (printCmds cmds) + 2 \<le> n"
  shows "parse n s k opts = Inr (cmds, skip (length (printCmds cmds) + 1) s)"
proof -
  obtain m where n: "n = Suc m" using assms(5) by (cases n) auto
  have "parseLoop m s k opts [] = Inr ([] @ cmds, skip (length (printCmds cmds) + 1) s)"
    using assms n by (intro parseLoop_print) (auto simp: wf_cmds_def)
  with assms(2) n show ?thesis by (auto simp: wf_cmds_def within_def)
qed

lemma cmd_ok: "cmd_ok opts c"
proof (induction c)
  case (Cmd p i args tests blk)
  show ?case unfolding cmd_ok_def
  proof (intro allI impI)
    fix s n k acc rest
    assume r: "reads s (printCmd (Cmd p i args tests blk) @ rest)"
      and w: "wf_cmd opts k (Cmd p i args tests blk)"
      and l: "2 * length (printCmd (Cmd p i args tests blk)) \<le> n"
    let ?b = "printArgs args @ wrapTests (map printTest tests)"
    define tail where "tail = (case blk of None \<Rightarrow> [Semicolon noPos]
      | Some cmds \<Rightarrow> BlockStart noPos # printCmds cmds @ [BlockEnd noPos])"
    obtain e tail' where e: "tail = e # tail'" "ender False e"
      by (cases blk) (auto simp: tail_def)
    have r0: "reads s (Identifier p i # ?b @ tail @ rest)"
      using r by (cases blk) (simp_all add: tail_def printCmds_def)
    have r1: "reads (skip 1 s) (?b @ tail @ rest)" using reads_Cons [OF r0] .
    have r2: "reads (skip (Suc (length ?b)) s) (tail @ rest)" using reads_append [OF r1] by simp
    have len: "length (printCmd (Cmd p i args tests blk)) = Suc (length ?b + length tail)"
      by (cases blk) (simp_all add: tail_def printCmds_def)
    have a: "readArguments n (skip 1 s) False 0 opts = Inr ((args, tests), skip (Suc (length ?b)) s)"
      using readArguments_print [of tests opts 0 args "skip 1 s" e "tail' @ rest" False n] w r1 l e len
      by (auto simp: test_ok_wf)
    show "parseLoop (Suc n) s k opts acc =
        parseLoop n (skip (length (printCmd (Cmd p i args tests blk))) s) k opts (acc @ [Cmd p i args tests blk])"
    proof (cases blk)
      case None
      with r0 r2 a len show ?thesis by (simp add: tail_def reads_simps)
    next
      case (Some cmds)
      let ?s3 = "skip (Suc (Suc (length ?b))) s" and ?l = "length (printCmds cmds)"
      have r2': "reads (skip (Suc (length ?b)) s) (BlockStart noPos # printCmds cmds @ BlockEnd noPos # rest)"
        using r2 Some by (simp add: tail_def)
      have r3: "reads ?s3 (printCmds cmds @ BlockEnd noPos # rest)" using reads_Cons [OF r2'] by simp
      have "parse n ?s3 (k + 1) opts = Inr (cmds, skip (?l + 1) ?s3)"
        using Cmd Some w r3 l len
        by (intro parse_print [where toks = "BlockEnd noPos # rest"]) (auto simp: wf_cmds_def closes_def tail_def)
      moreover have "Last (skip 1 (skip ?l ?s3)) = Some (BlockEnd noPos)"
        using reads_Last [OF reads_append [OF r3]] .
      ultimately show ?thesis using r0 r2' a len Some by (simp add: tail_def reads_simps add_ac)
    qed
  qed
qed

lemma reads_NewStream: "reads (NewStream toks) toks"
  by (simp add: reads_def ts.new_valid ts.new_rest)

lemma Parse_print:
  assumes "wf_cmds opts 0 cmds" and "closes toks"
  shows "Parse (NewStream (printCmds cmds @ toks)) opts = Inr cmds"
proof -
  have "parse (parseFuel (NewStream (printCmds cmds @ toks))) (NewStream (printCmds cmds @ toks)) 0 opts =
      Inr (cmds, skip (length (printCmds cmds) + 1) (NewStream (printCmds cmds @ toks)))"
    using assms cmd_ok by (intro parse_print) (auto simp: parseFuel_def reads_NewStream ts.new_rest)
  then show ?thesis by (simp add: Parse_def)
qed

section \<open>Properties\<close>

text \<open>
  C20. The limits of \<open>parser.Options\<close> hold for every tree \<open>Parse\<close> returns: unless a limit is
  zero, blocks are nested at most \<open>MaxBlockNesting\<close> deep and tests at most
  \<open>MaxTestNesting\<close> deep, at every level of the tree.
\<close>

theorem parse_nesting_bounded:
  assumes "Parse s opts = Inr cmds"
  shows "wf_cmds opts 0 cmds \<and>
    (\<forall>c \<in> set cmds.
       (MaxBlockNesting opts \<noteq> 0 \<longrightarrow> int (cmdDepth c) \<le> MaxBlockNesting opts) \<and>
       (MaxTestNesting opts \<noteq> 0 \<longrightarrow> (\<forall>t \<in> set (cmd_tests c). 1 + int (testDepth t) \<le> MaxTestNesting opts)))"
proof -
  have w: "wf_cmds opts 0 cmds" by (rule Parse_wf [OF assms])
  have "int (cmdDepth c) \<le> MaxBlockNesting opts" if "c \<in> set cmds" "MaxBlockNesting opts \<noteq> 0" for c
    using w that wf_cmd_depth [of opts 0 c] by (auto simp: wf_cmds_def within_def)
  moreover have "1 + int (testDepth t) \<le> MaxTestNesting opts"
    if "c \<in> set cmds" "MaxTestNesting opts \<noteq> 0" "t \<in> set (cmd_tests c)" for c t
    using w that wf_test_depth [of opts 1 t] by (cases c) (auto simp: wf_cmds_def)
  ultimately show ?thesis using w by blast
qed

definition sampleCmds :: "cmd list" where
  "sampleCmds = [Cmd noPos ''if'' [] [Test noPos ''not'' [] [Test noPos ''size'' [TagArg ''over'' noPos, NumberArg 100 noPos] []]]
     (Some [Cmd noPos ''keep'' [] [] None])]"

definition sampleOptions :: parse_options where
  "sampleOptions = \<lparr>MaxBlockNesting = 1, MaxTestNesting = 2\<rparr>"

lemma sampleCmds_wf: "wf_cmds sampleOptions 0 sampleCmds"
  by (simp add: wf_cmds_def sampleCmds_def sampleOptions_def within_def)

theorem parse_nesting_bounded_witness:
  "Parse (NewStream (printCmds sampleCmds)) sampleOptions = Inr sampleCmds \<and>
   int (cmdDepth (hd sampleCmds)) \<le> 1"
proof -
  have p: "Parse (NewStream (printCmds sampleCmds)) sampleOptions = Inr sampleCmds"
    using Parse_print [OF sampleCmds_wf, of "[]"] by (simp add: closes_def)
  have "hd sampleCmds \<in> set sampleCmds" by (simp add: sampleCmds_def)
  with p parse_nesting_bounded [OF p] show ?thesis by (auto simp: sampleOptions_def)
qed

text \<open>
  C7. The parser inverts the printer: every tree within the limits, with 64-bit numbers, is
  what \<open>Parse\<close> reads from the tokens of that tree.
\<close>

theorem parse_print_roundtrip:
  assumes "wf_cmds opts 0 cmds"
  shows "Parse (NewStream (printCmds cmds)) opts = Inr cmds"
  using Parse_print [OF assms, of "[]"] by (simp add: closes_def)

theorem parse_print_roundtrip_witness:
  "Parse (NewStream (printCmds sampleCmds)) sampleOptions = Inr sampleCmds"
  by (rule parse_print_roundtrip [OF sampleCmds_wf])

text \<open>
  A normal form for scripts: whatever token list a tree was parsed from (redundant
  parentheses, trailing commas, quantified numbers), the canonical tokens of the tree parse
  to the same tree under the same options.
\<close>

theorem parse_canonical:
  assumes "Parse s opts = Inr cmds"
  shows "Parse (NewStream (printCmds cmds)) opts = Inr cmds"
  using Parse_print [OF Parse_wf [OF assms], of "[]"] by (simp add: closes_def)

theorem parse_canonical_witness:
  "Parse (NewStream [Identifier noPos ''a'', ListStart noPos, StringTok noPos ''x'', Comma noPos, ListEnd noPos,
       Number noPos 1 Kilo, Semicolon noPos]) sampleOptions
     = Inr [Cmd noPos ''a'' [StringListArg [''x''] noPos, NumberArg 1024 noPos] [] None] \<and>
   Parse (NewStream (printCmds [Cmd noPos ''a'' [StringListArg [''x''] noPos, NumberArg 1024 noPos] [] None]))
     sampleOptions = Inr [Cmd noPos ''a'' [StringListArg [''x''] noPos, NumberArg 1024 noPos] [] None]"
proof -
  have e: "Parse (NewStream [Identifier noPos ''a'', ListStart noPos, StringTok noPos ''x'', Comma noPos, ListEnd noPos,
       Number noPos 1 Kilo, Semicolon noPos]) sampleOptions
     = Inr [Cmd noPos ''a'' [StringListArg [''x''] noPos, NumberArg 1024 noPos] [] None]"
    by code_simp
  show ?thesis using e parse_canonical [OF e] by blast
qed

text \<open>
  A closing brace outside every block ends the script without an error: the commands in
  front of it are returned and everything behind it is dropped unread.
\<close>

theorem parse_stray_brace:
  assumes "wf_cmds opts 0 cmds"
  shows "Parse (NewStream (printCmds cmds @ BlockEnd p # junk)) opts = Inr cmds"
  using Parse_print [OF assms, of "BlockEnd p # junk"] by (simp add: closes_def)

theorem parse_stray_brace_witness:
  "Parse (NewStream (printCmds sampleCmds @ [BlockEnd noPos, Comma noPos])) sampleOptions = Inr sampleCmds"
  by (rule parse_stray_brace [OF sampleCmds_wf])

end
