(* ===== verification/Go_Strings.thy ===== *)
theory Go_Strings
  imports Prelude
begin

text \<open>
  The functions of Go's \<open>strings\<close>, \<open>unicode\<close> and \<open>unicode/utf8\<close> packages that the
  interpreter calls, on byte lists.  Runes are natural numbers.  The Unicode character
  database itself is a parameter (\<open>unicode_tables\<close>); what Go decides without the tables
  (ASCII, Latin-1 digits, white space) is written out.
\<close>

section \<open>UTF-8\<close>

definition runeError :: nat where
  "runeError = 0xFFFD"

definition cont :: "nat \<Rightarrow> bool" where
  "cont b \<longleftrightarrow> 0x80 \<le> b \<and> b \<le> 0xBF"

text \<open>\<open>utf8.DecodeRune\<close>: the rune and its width in bytes; an invalid byte is \<open>RuneError\<close> of width 1.\<close>

definition decodeRune :: "bytes \<Rightarrow> nat \<times> nat" where
  "decodeRune s =
     (case map ord (take 4 s) of
        [] \<Rightarrow> (runeError, 0)
      | b0 # t \<Rightarrow>
          if b0 < 0x80 then (b0, 1)
          else if 0xC2 \<le> b0 \<and> b0 \<le> 0xDF then
            (case t of b1 # _ \<Rightarrow> if cont b1 then ((b0 - 0xC0) * 0x40 + (b1 - 0x80), 2) else (runeError, 1)
             | _ \<Rightarrow> (runeError, 1))
          else if 0xE0 \<le> b0 \<and> b0 \<le> 0xEF then
            (case t of b1 # b2 # _ \<Rightarrow>
                 if cont b1 \<and> cont b2 \<and> (b0 = 0xE0 \<longrightarrow> 0xA0 \<le> b1) \<and> (b0 = 0xED \<longrightarrow> b1 \<le> 0x9F)
                 then ((b0 - 0xE0) * 0x1000 + (b1 - 0x80) * 0x40 + (b2 - 0x80), 3) else (runeError, 1)
             | _ \<Rightarrow> (runeError, 1))
          else if 0xF0 \<le> b0 \<and> b0 \<le> 0xF4 then
            (case t of b1 # b2 # b3 # _ \<Rightarrow>
                 if cont b1 \<and> cont b2 \<and> cont b3 \<and> (b0 = 0xF0 \<longrightarrow> 0x90 \<le> b1) \<and> (b0 = 0xF4 \<longrightarrow> b1 \<le> 0x8F)
                 then ((b0 - 0xF0) * 0x40000 + (b1 - 0x80) * 0x1000 + (b2 - 0x80) * 0x40 + (b3 - 0x80), 4)
                 else (runeError, 1)
             | _ \<Rightarrow> (runeError, 1))
          else (runeError, 1))"

definition validRune :: "nat \<Rightarrow> bool" where
  "validRune r \<longleftrightarrow> r < 0xD800 \<or> 0xDFFF < r \<and> r \<le> 0x10FFFF"

text \<open>\<open>utf8.AppendRune\<close>; a value that is no rune is written as \<open>RuneError\<close>.\<close>

definition encodeRune :: "nat \<Rightarrow> bytes" where
  "encodeRune r = map char_of
     (if r < 0x80 then [r]
      else if r < 0x800 then [0xC0 + r div 0x40, 0x80 + r mod 0x40]
      else if \<not> validRune r then [0xEF, 0xBF, 0xBD]
      else if r < 0x10000 then [0xE0 + r div 0x1000, 0x80 + r div 0x40 mod 0x40, 0x80 + r mod 0x40]
      else [0xF0 + r div 0x40000, 0x80 + r div 0x1000 mod 0x40, 0x80 + r div 0x40 mod 0x40, 0x80 + r mod 0x40])"

lemma decodeRune_width: "snd (decodeRune (b # s)) \<noteq> 0"
  by (auto simp: decodeRune_def split: list.split)

lemma decodeRune_pos: "(r, w) = decodeRune (b # s) \<Longrightarrow> 0 < w"
  using decodeRune_width [of b s] by (metis neq0_conv snd_conv)

text \<open>
  A string cut into runes, each with the bytes it was read from; \<open>range\<close> and
  \<open>[]rune(s)\<close> read the first components.
\<close>

function runeChunks :: "bytes \<Rightarrow> (nat \<times> bytes) list" where
  "runeChunks [] = []"
| "runeChunks (b # s) =
     (case decodeRune (b # s) of (r, w) \<Rightarrow> (r, take w (b # s)) # runeChunks (drop w (b # s)))"
  by pat_completeness auto

termination runeChunks
  by (relation "measure length") (auto dest: decodeRune_pos)

definition runes :: "bytes \<Rightarrow> nat list" where
  "runes s = map fst (runeChunks s)"

lemma runes_Nil [simp]: "runes [] = []"
  by (simp add: runes_def)

lemma runeChunks_concat: "concat (map snd (runeChunks s)) = s"
proof (induction s rule: runeChunks.induct)
  case (2 b s)
  then show ?case by (cases "decodeRune (b # s)") simp
qed simp

definition encodeRunes :: "nat list \<Rightarrow> bytes" where
  "encodeRunes rs = concat (map encodeRune rs)"

lemma encodeRunes_simps [simp]:
  "encodeRunes [] = []" "encodeRunes (r # rs) = encodeRune r @ encodeRunes rs"
  "encodeRunes (rs @ qs) = encodeRunes rs @ encodeRunes qs"
  by (simp_all add: encodeRunes_def)

lemma ord_char_of: "n < 256 \<Longrightarrow> ord (char_of n) = n"
  by simp

lemma split64: "(n :: nat) = n div 64 * 64 + n mod 64"
  by simp

lemma div_div64: "(n :: nat) div 64 div 64 = n div 4096" "(n :: nat) div 4096 div 64 = n div 262144"
  by (simp_all flip: div_mult2_eq)

lemma decodeRune_encode:
  assumes "validRune r"
  shows "decodeRune (encodeRune r @ rest) = (r, length (encodeRune r))"
proof -
  consider "r < 0x80" | "0x80 \<le> r" "r < 0x800" | "0x800 \<le> r" "r < 0x10000" | "0x10000 \<le> r"
    by linarith
  then show ?thesis
  proof cases
    case 1
    then show ?thesis by (simp add: encodeRune_def decodeRune_def)
  next
    case 2
    then have b: "0xC0 + r div 0x40 < 256" "0x80 + r mod 0x40 < 256" by auto
    show ?thesis using 2 b
      by (simp add: encodeRune_def decodeRune_def cont_def take_Cons' del: of_char_of) auto
  next
    case 3
    define a b c where abc: "a = r div 0x1000" "b = r div 0x40 mod 0x40" "c = r mod 0x40"
    have r: "r = a * 0x1000 + b * 0x40 + c" "b < 0x40" "c < 0x40"
      unfolding abc using split64 [of r] split64 [of "r div 64"] div_div64 [of r] by (linarith, simp_all)
    have lim: "a < 0x10" "a = 0 \<longrightarrow> 0x20 \<le> b" "a = 0xD \<longrightarrow> b < 0x20"
      using 3 r assms by (auto simp: validRune_def)
    show ?thesis using 3 r(2,3) lim assms unfolding encodeRune_def decodeRune_def cont_def abc [symmetric]
      by (simp add: take_Cons' r(1) [symmetric]) auto
  next
    case 4
    define a b c d where abc: "a = r div 0x40000" "b = r div 0x1000 mod 0x40" "c = r div 0x40 mod 0x40" "d = r mod 0x40"
    have r: "r = a * 0x40000 + b * 0x1000 + c * 0x40 + d" "b < 0x40" "c < 0x40" "d < 0x40"
      unfolding abc
      using split64 [of r] split64 [of "r div 64"] split64 [of "r div 4096"] div_div64 [of r]
      by (linarith, simp_all)
    have lim: "a \<le> 4" "a = 0 \<longrightarrow> 0x10 \<le> b" "a = 4 \<longrightarrow> b < 0x10"
      using 4 r assms by (auto simp: validRune_def)
    show ?thesis using 4 r(2-4) lim assms unfolding encodeRune_def decodeRune_def cont_def abc [symmetric]
      by (simp add: take_Cons' r(1) [symmetric]) auto
  qed
qed

lemma encodeRune_nonempty [simp]: "encodeRune r \<noteq> []"
  by (simp add: encodeRune_def)

lemma runeChunks_encode_append:
  assumes "validRune r"
  shows "runeChunks (encodeRune r @ rest) = (r, encodeRune r) # runeChunks rest"
proof -
  obtain b s where e: "encodeRune r = b # s" by (cases "encodeRune r") simp_all
  have "decodeRune (b # s @ rest) = (r, length (encodeRune r))"
    using decodeRune_encode [OF assms, of rest] e by simp
  then show ?thesis by (simp add: e)
qed

lemma runes_encode_append: "validRune r \<Longrightarrow> runes (encodeRune r @ rest) = r # runes rest"
  by (simp add: runes_def runeChunks_encode_append)

lemma runes_encodeRunes: "list_all validRune rs \<Longrightarrow> runes (encodeRunes rs) = rs"
  by (induction rs) (auto simp: runes_encode_append)

definition validUTF8 :: "bytes \<Rightarrow> bool" where
  "validUTF8 s \<longleftrightarrow> (\<exists>rs. list_all validRune rs \<and> s = encodeRunes rs)"

text \<open>A byte that starts no rune is a continuation byte.\<close>

definition cont_byte :: "char \<Rightarrow> bool" where
  "cont_byte c \<longleftrightarrow> 128 \<le> ord c \<and> ord c < 192"

lemma encodeRune_shape:
  "\<exists>b s. encodeRune r = b # s \<and> \<not> cont_byte b \<and> list_all cont_byte s"
proof -
  have "r div 262144 \<le> 4" if "r \<le> 1114111" using that div_le_mono [of r 1114111 262144] by simp
  moreover have "r div 4096 < 16" if "r < 65536" using that by (simp add: less_mult_imp_div_less)
  moreover have "r div 64 < 32" if "r < 2048" using that by (simp add: less_mult_imp_div_less)
  ultimately show ?thesis
    by (auto simp: encodeRune_def cont_byte_def validRune_def)
qed

section \<open>Unicode tables and case mapping\<close>

text \<open>What Go takes from its Unicode tables for runes beyond Latin-1.\<close>

record unicode_tables =
  tableIsDigit :: "nat \<Rightarrow> bool"
  tableToLower :: "nat \<Rightarrow> nat"
  tableToUpper :: "nat \<Rightarrow> nat"
  tableFolds :: "nat \<Rightarrow> nat \<Rightarrow> bool"

definition lowerByte :: "char \<Rightarrow> char" where
  "lowerByte c = (if is_upper c then char_of (ord c + 32) else c)"

definition upperByte :: "char \<Rightarrow> char" where
  "upperByte c = (if is_lower c then char_of (ord c - 32) else c)"

definition isASCII :: "bytes \<Rightarrow> bool" where
  "isASCII s = list_all (\<lambda>c. ord c < 128) s"

text \<open>\<open>unicode.ToLower\<close>, \<open>unicode.ToUpper\<close>, \<open>unicode.IsDigit\<close>.\<close>

definition runeToLower :: "unicode_tables \<Rightarrow> nat \<Rightarrow> nat" where
  "runeToLower U r = (if r < 128 then ord (lowerByte (char_of r)) else tableToLower U r)"

definition runeToUpper :: "unicode_tables \<Rightarrow> nat \<Rightarrow> nat" where
  "runeToUpper U r = (if r < 128 then ord (upperByte (char_of r)) else tableToUpper U r)"

definition runeIsDigit :: "unicode_tables \<Rightarrow> nat \<Rightarrow> bool" where
  "runeIsDigit U r = (if r < 256 then 48 \<le> r \<and> r \<le> 57 else tableIsDigit U r)"

text \<open>\<open>unicode.IsSpace\<close>; its table is short and written out.\<close>

definition runeIsSpace :: "nat \<Rightarrow> bool" where
  "runeIsSpace r \<longleftrightarrow> r \<in> {9, 10, 11, 12, 13, 32, 0x85, 0xA0, 0x1680, 0x2028, 0x2029, 0x202F, 0x205F, 0x3000} \<or>
     0x2000 \<le> r \<and> r \<le> 0x200A"

text \<open>\<open>strings.ToLower\<close> and \<open>strings.ToUpper\<close>: bytewise on ASCII, otherwise \<open>strings.Map\<close>.\<close>

definition ToLower :: "unicode_tables \<Rightarrow> bytes \<Rightarrow> bytes" where
  "ToLower U s = (if isASCII s then map lowerByte s else encodeRunes (map (runeToLower U) (runes s)))"

definition ToUpper :: "unicode_tables \<Rightarrow> bytes \<Rightarrow> bytes" where
  "ToUpper U s = (if isASCII s then map upperByte s else encodeRunes (map (runeToUpper U) (runes s)))"

lemma lowerByte_idem [simp]: "lowerByte (lowerByte c) = lowerByte c"
  by (auto simp: lowerByte_def char_class)

lemma lowerByte_ascii: "ord (lowerByte c) < 128 \<longleftrightarrow> ord c < 128"
  by (auto simp: lowerByte_def char_class)

lemma lowerByte_not_upper: "\<not> is_upper (lowerByte c)"
  by (auto simp: lowerByte_def char_class)

lemma isASCII_lower [simp]: "isASCII (map lowerByte s) = isASCII s"
  by (simp add: isASCII_def list_all_iff lowerByte_ascii)

lemma ToLower_ascii: "isASCII s \<Longrightarrow> ToLower U s = map lowerByte s"
  by (simp add: ToLower_def)

lemma ToLower_idem: "isASCII s \<Longrightarrow> ToLower U (ToLower U s) = ToLower U s"
  by (simp add: ToLower_def)

text \<open>
  \<open>strings.EqualFold\<close> on runes: equal, an ASCII case pair, or in one fold orbit of the
  tables.
\<close>

definition foldRune :: "unicode_tables \<Rightarrow> nat \<Rightarrow> nat \<Rightarrow> bool" where
  "foldRune U a b \<longleftrightarrow>
     (let s = min a b; t = max a b in
      s = t \<or> (if t < 128 then 65 \<le> s \<and> s \<le> 90 \<and> t = s + 32 else tableFolds U s t))"

fun equalFoldRunes :: "unicode_tables \<Rightarrow> nat list \<Rightarrow> nat list \<Rightarrow> bool" where
  "equalFoldRunes U [] [] \<longleftrightarrow> True"
| "equalFoldRunes U (a # as) (b # bs) \<longleftrightarrow> foldRune U a b \<and> equalFoldRunes U as bs"
| "equalFoldRunes U _ _ \<longleftrightarrow> False"

definition EqualFold :: "unicode_tables \<Rightarrow> bytes \<Rightarrow> bytes \<Rightarrow> bool" where
  "EqualFold U s t = equalFoldRunes U (runes s) (runes t)"

section \<open>Searching and splitting\<close>

fun HasPrefix :: "bytes \<Rightarrow> bytes \<Rightarrow> bool" where
  "HasPrefix s [] = True"
| "HasPrefix [] (p # ps) = False"
| "HasPrefix (c # s) (p # ps) = (c = p \<and> HasPrefix s ps)"

fun Contains :: "bytes \<Rightarrow> bytes \<Rightarrow> bool" where
  "Contains [] k = (k = [])"
| "Contains (c # s) k = (HasPrefix (c # s) k \<or> Contains s k)"

lemma HasPrefix_iff: "HasPrefix s p \<longleftrightarrow> (\<exists>t. s = p @ t)"
  by (induction s p rule: HasPrefix.induct) auto

lemma Contains_iff: "Contains s k \<longleftrightarrow> (\<exists>a b. s = a @ k @ b)"
proof (induction s)
  case (Cons c s)
  show ?case
  proof
    assume "Contains (c # s) k"
    then consider "HasPrefix (c # s) k" | "Contains s k" by auto
    then show "\<exists>a b. c # s = a @ k @ b"
    proof cases
      case 1
      then show ?thesis by (auto simp: HasPrefix_iff intro: exI [of _ "[]"])
    next
      case 2
      then show ?thesis using Cons by (metis append_Cons)
    qed
  next
    assume "\<exists>a b. c # s = a @ k @ b"
    then obtain a b where "c # s = a @ k @ b" by blast
    then show "Contains (c # s) k"
    proof (cases a)
      case Nil
      with \<open>c # s = a @ k @ b\<close> have "HasPrefix (c # s) k" by (auto simp: HasPrefix_iff)
      then show ?thesis by simp
    next
      case (Cons x a')
      with \<open>c # s = a @ k @ b\<close> Cons.IH show ?thesis by auto
    qed
  qed
qed auto

text \<open>\<open>strings.Cut\<close> at the first occurrence of one byte.\<close>

fun Cut :: "bytes \<Rightarrow> char \<Rightarrow> bytes \<times> bytes \<times> bool" where
  "Cut [] sep = ([], [], False)"
| "Cut (c # s) sep =
     (if c = sep then ([], s, True) else (case Cut s sep of (a, b, ok) \<Rightarrow> (c # a, b, ok)))"

lemma Cut_eq: "Cut s c = (a, b, ok) \<Longrightarrow> s = (if ok then a @ c # b else a) \<and> c \<notin> set a"
  by (induction s arbitrary: a b ok) (auto split: if_splits prod.splits)

text \<open>\<open>strings.Fields\<close> splits around runs of white space.\<close>

fun fieldsLoop :: "(nat \<times> bytes) list \<Rightarrow> bytes \<Rightarrow> bytes list" where
  "fieldsLoop [] cur = (if cur = [] then [] else [cur])"
| "fieldsLoop ((r, b) # cs) cur =
     (if runeIsSpace r then (if cur = [] then fieldsLoop cs [] else cur # fieldsLoop cs [])
      else fieldsLoop cs (cur @ b))"

definition Fields :: "bytes \<Rightarrow> bytes list" where
  "Fields s = fieldsLoop (runeChunks s) []"

lemma Fields_nonempty: "f \<in> set (Fields s) \<Longrightarrow> f \<noteq> []"
proof -
  have "f \<in> set (fieldsLoop cs cur) \<Longrightarrow> f \<noteq> []" for cs cur
    by (induction cs cur rule: fieldsLoop.induct) (auto split: if_splits)
  then show "f \<in> set (Fields s) \<Longrightarrow> f \<noteq> []" by (simp add: Fields_def)
qed

text \<open>\<open>strings.TrimSpace\<close>.\<close>

definition TrimSpace :: "bytes \<Rightarrow> bytes" where
  "TrimSpace s = concat (map snd (rev (dropWhile (\<lambda>c. runeIsSpace (fst c))
     (rev (dropWhile (\<lambda>c. runeIsSpace (fst c)) (runeChunks s))))))"

fun Join :: "bytes list \<Rightarrow> bytes \<Rightarrow> bytes" where
  "Join [] sep = []"
| "Join [s] sep = s"
| "Join (s # ss) sep = s @ sep @ Join ss sep"

text \<open>Go compares strings bytewise.\<close>

fun lessBytes :: "bytes \<Rightarrow> bytes \<Rightarrow> bool" where
  "lessBytes _ [] = False"
| "lessBytes [] (b # t) = True"
| "lessBytes (a # s) (b # t) = (ord a < ord b \<or> a = b \<and> lessBytes s t)"

lemma lessBytes_irrefl [simp]: "\<not> lessBytes s s"
  by (induction s) auto

lemma lessBytes_total: "s \<noteq> t \<Longrightarrow> lessBytes s t \<or> lessBytes t s"
  by (induction s t rule: lessBytes.induct) (auto simp: nat_neq_iff neq_Nil_conv)

lemma lessBytes_trans: "lessBytes s t \<Longrightarrow> lessBytes t u \<Longrightarrow> lessBytes s u"
proof (induction s t arbitrary: u rule: lessBytes.induct)
  case (2 b t)
  then show ?case by (cases u) auto
next
  case (3 a s b t)
  then show ?case by (cases u) auto
qed simp

text \<open>\<open>strings.LastIndexByte\<close> as a split: the text before and after the last occurrence.\<close>

fun splitLast :: "bytes \<Rightarrow> char \<Rightarrow> (bytes \<times> bytes) option" where
  "splitLast [] sep = None"
| "splitLast (c # s) sep =
     (case splitLast s sep of
        Some (a, b) \<Rightarrow> Some (c # a, b)
      | None \<Rightarrow> if c = sep then Some ([], s) else None)"

lemma splitLast_None: "splitLast s c = None \<longleftrightarrow> c \<notin> set s"
  by (induction s) (auto split: option.split)

lemma splitLast_Some: "splitLast s c = Some (a, b) \<Longrightarrow> s = a @ c # b \<and> c \<notin> set b"
  by (induction s arbitrary: a) (auto simp: splitLast_None split: option.splits if_splits)

end
