(* ===== verification/Relational.thy ===== *)
theory Relational
  imports Go_Strings "HOL-Library.Extended_Nat" "HOL-Library.List_Lexorder"
begin

text \<open>
  \<open>interp/relational.go\<close>: the comparison operators of the relational extension, and
  \<open>numericValue\<close> of \<open>interp/test_string.go\<close> for the comparator \<open>i;ascii-numeric\<close>.

  \<open>relSem\<close> is the specification, on any linear order.  The locale \<open>comparison\<close> is the
  contract of the three \<open>Compare\<close> methods: each is \<open>relSem\<close> on a key; it is interpreted
  on the three of them, with the bytes of a string, the value of a \<open>uint64\<close> and, for the
  numeric comparator, the extended natural number with nil as infinity as keys.
\<close>

section \<open>The operators\<close>

definition RelGreaterThan :: bytes where
  "RelGreaterThan = ''gt''"

definition RelGreaterOrEqual :: bytes where
  "RelGreaterOrEqual = ''ge''"

definition RelLessThan :: bytes where
  "RelLessThan = ''lt''"

definition RelLessOrEqual :: bytes where
  "RelLessOrEqual = ''le''"

definition RelEqual :: bytes where
  "RelEqual = ''eq''"

definition RelNotEqual :: bytes where
  "RelNotEqual = ''ne''"

lemmas rel_ops = RelGreaterThan_def RelGreaterOrEqual_def RelLessThan_def RelLessOrEqual_def
  RelEqual_def RelNotEqual_def

definition relationals :: "bytes list" where
  "relationals = [RelGreaterThan, RelGreaterOrEqual, RelLessThan, RelLessOrEqual, RelEqual, RelNotEqual]"

definition CompareString :: "bytes \<Rightarrow> bytes \<Rightarrow> bytes \<Rightarrow> bool" where
  "CompareString r lhs rhs =
     (if r = RelGreaterThan then lessBytes rhs lhs
      else if r = RelGreaterOrEqual then rhs = lhs \<or> lessBytes rhs lhs
      else if r = RelLessThan then lessBytes lhs rhs
      else if r = RelLessOrEqual then lhs = rhs \<or> lessBytes lhs rhs
      else if r = RelEqual then lhs = rhs
      else if r = RelNotEqual then lhs \<noteq> rhs
      else False)"

definition CompareUint64 :: "bytes \<Rightarrow> 64 word \<Rightarrow> 64 word \<Rightarrow> bool" where
  "CompareUint64 r lhs rhs =
     (if r = RelGreaterThan then lhs > rhs
      else if r = RelGreaterOrEqual then lhs \<ge> rhs
      else if r = RelLessThan then lhs < rhs
      else if r = RelLessOrEqual then lhs \<le> rhs
      else if r = RelEqual then lhs = rhs
      else if r = RelNotEqual then lhs \<noteq> rhs
      else False)"

text \<open>
  The three base operators of \<open>CompareNumericValue\<close>; the method calls itself on them for
  the other three.
\<close>

definition numericGreater :: "64 word option \<Rightarrow> 64 word option \<Rightarrow> bool" where
  "numericGreater lhs rhs =
     (case lhs of
        None \<Rightarrow> rhs \<noteq> None
      | Some l \<Rightarrow> (case rhs of None \<Rightarrow> False | Some r \<Rightarrow> l > r))"

definition numericLess :: "64 word option \<Rightarrow> 64 word option \<Rightarrow> bool" where
  "numericLess lhs rhs =
     (case rhs of
        None \<Rightarrow> lhs \<noteq> None
      | Some r \<Rightarrow> (case lhs of None \<Rightarrow> False | Some l \<Rightarrow> l < r))"

definition numericEqual :: "64 word option \<Rightarrow> 64 word option \<Rightarrow> bool" where
  "numericEqual lhs rhs =
     (case (lhs, rhs) of
        (None, None) \<Rightarrow> True
      | (Some l, Some r) \<Rightarrow> l = r
      | _ \<Rightarrow> False)"

definition CompareNumericValue :: "bytes \<Rightarrow> 64 word option \<Rightarrow> 64 word option \<Rightarrow> bool" where
  "CompareNumericValue r lhs rhs =
     (if r = RelGreaterThan then numericGreater lhs rhs
      else if r = RelGreaterOrEqual then \<not> numericLess lhs rhs
      else if r = RelLessThan then numericLess lhs rhs
      else if r = RelLessOrEqual then \<not> numericGreater lhs rhs
      else if r = RelEqual then numericEqual lhs rhs
      else if r = RelNotEqual then \<not> numericEqual lhs rhs
      else False)"

text \<open>
  \<open>numericValue\<close>: nil for a string that does not start with a digit, otherwise the value of
  the longest prefix of digits, nil again when \<open>ParseUint\<close> refuses it.
\<close>

fun digitPrefix :: "unicode_tables \<Rightarrow> (nat \<times> bytes) list \<Rightarrow> nat list \<times> bool" where
  "digitPrefix U [] = ([], True)"
| "digitPrefix U ((r, b) # cs) =
     (if runeIsDigit U r then (case digitPrefix U cs of (ds, whole) \<Rightarrow> (r # ds, whole)) else ([], False))"

definition numericValue :: "unicode_tables \<Rightarrow> bytes \<Rightarrow> 64 word option" where
  "numericValue U s =
     (case runes s of
        [] \<Rightarrow> None
      | r # _ \<Rightarrow>
          if \<not> runeIsDigit U r then None
          else (let sl = (case digitPrefix U (runeChunks s) of (ds, whole) \<Rightarrow> if whole then s else encodeRunes ds) in
                map_option of_nat (ParseUint 64 sl)))"

section \<open>The contract\<close>

definition relSem :: "bytes \<Rightarrow> ('a :: linorder) \<Rightarrow> 'a \<Rightarrow> bool" where
  "relSem r x y =
     (if r = ''gt'' then x > y else if r = ''ge'' then x \<ge> y else if r = ''lt'' then x < y
      else if r = ''le'' then x \<le> y else if r = ''eq'' then x = y else r = ''ne'' \<and> x \<noteq> y)"

locale comparison =
  fixes cmp :: "bytes \<Rightarrow> 'v \<Rightarrow> 'v \<Rightarrow> bool" and key :: "'v \<Rightarrow> 'k :: linorder"
  assumes cmp_relSem: "cmp r x y = relSem r (key x) (key y)"
    and key_inj: "key x = key y \<Longrightarrow> x = y"
begin

lemma flip_lt: "cmp ''gt'' x y = cmp ''lt'' y x"
  by (simp add: cmp_relSem relSem_def)

lemma ge_not_lt: "cmp ''ge'' x y = (\<not> cmp ''lt'' x y)"
  by (auto simp: cmp_relSem relSem_def)

lemma le_not_gt: "cmp ''le'' x y = (\<not> cmp ''gt'' x y)"
  by (auto simp: cmp_relSem relSem_def)

lemma ne_not_eq: "cmp ''ne'' x y = (\<not> cmp ''eq'' x y)"
  by (auto simp: cmp_relSem relSem_def)

lemma eq_iff: "cmp ''eq'' x y \<longleftrightarrow> x = y"
  by (auto simp: cmp_relSem relSem_def dest: key_inj)

lemma lt_trans: "cmp ''lt'' x y \<Longrightarrow> cmp ''lt'' y z \<Longrightarrow> cmp ''lt'' x z"
  by (auto simp: cmp_relSem relSem_def)

lemma trichotomy: "cmp ''lt'' x y \<or> cmp ''eq'' x y \<or> cmp ''gt'' x y"
  by (auto simp: cmp_relSem relSem_def)

lemma unknown: "r \<notin> set relationals \<Longrightarrow> \<not> cmp r x y"
  by (auto simp: cmp_relSem relSem_def relationals_def rel_ops)

end

definition stringKey :: "bytes \<Rightarrow> nat list" where
  "stringKey s = map of_char s"

definition numericKey :: "64 word option \<Rightarrow> enat" where
  "numericKey v = (case v of None \<Rightarrow> \<infinity> | Some w \<Rightarrow> enat (unat w))"

lemma lessBytes_key: "lessBytes s t \<longleftrightarrow> stringKey s < stringKey t"
  by (induction s t rule: lessBytes.induct) (auto simp: stringKey_def)

lemma stringKey_inj: "stringKey s = stringKey t \<Longrightarrow> s = t"
  by (simp add: stringKey_def inj_map_eq_map inj_on_def)

interpretation cs: comparison CompareString stringKey
proof
  fix r s t
  show "CompareString r s t = relSem r (stringKey s) (stringKey t)"
    by (auto simp: CompareString_def relSem_def rel_ops lessBytes_key order_le_less dest: stringKey_inj)
qed (rule stringKey_inj)

interpretation cu: comparison CompareUint64 "unat :: 64 word \<Rightarrow> nat"
proof
  fix r and x y :: "64 word"
  show "CompareUint64 r x y = relSem r (unat x) (unat y)"
    by (simp add: CompareUint64_def relSem_def rel_ops word_less_nat_alt word_le_nat_alt word_unat_eq_iff)
qed (simp add: word_unat_eq_iff)

interpretation cn: comparison CompareNumericValue numericKey
proof
  fix r x y
  show "CompareNumericValue r x y = relSem r (numericKey x) (numericKey y)"
    by (cases x; cases y)
      (auto simp: CompareNumericValue_def relSem_def rel_ops numericKey_def numericGreater_def
        numericLess_def numericEqual_def word_less_nat_alt word_unat_eq_iff not_less)
next
  fix x y
  show "numericKey x = numericKey y \<Longrightarrow> x = y"
    by (cases x; cases y) (auto simp: numericKey_def word_unat_eq_iff)
qed

section \<open>Properties\<close>

text \<open>
  C28. The numeric comparator is the order of the natural numbers with nil (no leading digit,
  or too large) as positive infinity, for every operator, and an unknown operator holds of
  nothing.
\<close>

theorem numeric_comparison:
  "CompareNumericValue r lhs rhs = relSem r (numericKey lhs) (numericKey rhs)"
  by (rule cn.cmp_relSem)

text \<open>
  The string comparisons of the relational extension are one linear order on strings: they
  are transitive and total, each operator is the complement of its opposite, and
  \<open>eq\<close> holds of equal strings only.
\<close>

theorem string_comparison_order:
  "(CompareString ''lt'' x y \<longrightarrow> CompareString ''lt'' y z \<longrightarrow> CompareString ''lt'' x z) \<and>
   (CompareString ''lt'' x y \<or> CompareString ''eq'' x y \<or> CompareString ''gt'' x y) \<and>
   CompareString ''gt'' x y = CompareString ''lt'' y x \<and>
   CompareString ''ge'' x y = (\<not> CompareString ''lt'' x y) \<and>
   CompareString ''le'' x y = (\<not> CompareString ''gt'' x y) \<and>
   CompareString ''ne'' x y = (x \<noteq> y)"
  using cs.lt_trans cs.trichotomy cs.flip_lt cs.ge_not_lt cs.le_not_gt cs.ne_not_eq cs.eq_iff by blast

theorem string_comparison_order_witness:
  "CompareString ''lt'' ''a'' ''b'' \<and> CompareString ''lt'' ''b'' ''ba'' \<and> CompareString ''lt'' ''a'' ''ba''"
proof -
  have "CompareString ''lt'' ''a'' ''b''" "CompareString ''lt'' ''b'' ''ba''"
    by code_simp+
  with string_comparison_order [of "''a''" "''b''" "''ba''"] show ?thesis by blast
qed

end
