(* ===== verification/Flags.thy ===== *)
theory Flags
  imports Go_Strings
begin

text \<open>
  \<open>canonicalFlags\<close> of \<open>interp/load_action.go\<close>: the normal form of IMAP flag lists that
  every action and flag command applies.  A nil slice is \<open>None\<close>.
\<close>

section \<open>The function\<close>

type_synonym flags = "bytes list option"

definition resolveAlias :: "(bytes \<rightharpoonup> bytes) \<Rightarrow> bytes \<Rightarrow> bytes" where
  "resolveAlias aliases f = (case aliases f of Some fc \<Rightarrow> fc | None \<Rightarrow> f)"

definition toRemoveMap :: "bytes list \<Rightarrow> (bytes \<rightharpoonup> bytes) \<Rightarrow> bytes list" where
  "toRemoveMap remove aliases = map (resolveAlias aliases) remove"

text \<open>One turn of the inner loop; \<open>c\<close> is also the content of the map \<open>fm\<close>.\<close>

definition addFlag :: "bytes list \<Rightarrow> (bytes \<rightharpoonup> bytes) \<Rightarrow> bytes \<Rightarrow> bytes list \<Rightarrow> bytes list" where
  "addFlag removed aliases f c =
     (if f \<in> set c then c
      else (let f' = resolveAlias aliases f in if f' \<in> set removed then c else c @ [f']))"

definition flagFields :: "bytes list \<Rightarrow> bytes list" where
  "flagFields src = concat (map Fields src)"

definition canonicalFlags :: "bytes list \<Rightarrow> bytes list \<Rightarrow> (bytes \<rightharpoonup> bytes) \<Rightarrow> flags" where
  "canonicalFlags src remove aliases =
     (if src = [] then None
      else Some (fold (addFlag (toRemoveMap remove aliases) aliases) (flagFields src) []))"

section \<open>What it computes\<close>





lemma resolveAlias_empty [simp]: "resolveAlias Map.empty f = f"
  by (simp add: resolveAlias_def)

text \<open>Without aliases the loop keeps the first occurrence of every flag that is not removed.\<close>

lemma fold_addFlag:
  "fold (addFlag rm Map.empty) fs c =
     c @ filter (\<lambda>f. f \<notin> set c \<and> f \<notin> set rm) (rev (remdups (rev fs)))"
proof (induction fs arbitrary: c)
  case (Cons f fs)
  have "rev (remdups (rev (f # fs))) = f # filter (\<lambda>g. g \<noteq> f) (rev (remdups (rev fs)))"
    by (induction fs rule: rev_induct) auto
  moreover have "filter P (filter Q xs) = filter (\<lambda>x. Q x \<and> P x) xs" for P Q and xs :: "bytes list"
    by simp
  ultimately show ?case
    using Cons by (auto simp: addFlag_def Let_def intro!: filter_cong)
qed simp

lemma canonicalFlags_plain:
  "src \<noteq> [] \<Longrightarrow> canonicalFlags src remove Map.empty =
     Some (filter (\<lambda>f. f \<notin> set remove) (rev (remdups (rev (flagFields src)))))"
  by (simp add: canonicalFlags_def toRemoveMap_def fold_addFlag)

section \<open>Fields of a field\<close>

lemma decodeRune_append:
  assumes "s \<noteq> []" and "rest = [] \<or> \<not> cont (ord (hd rest))"
  shows "decodeRune (s @ rest) = decodeRune s"
proof -
  consider a where "s = [a]" | a b where "s = [a, b]" | a b c where "s = [a, b, c]"
    | a b c d s' where "s = a # b # c # d # s'"
    using assms(1) by (metis list.exhaust)
  then show ?thesis
    by cases (use assms(2) in \<open>cases rest; auto simp: decodeRune_def take_Cons' split: list.split\<close>)+
qed

lemma decodeRune_le: "snd (decodeRune s) \<le> length s"
proof -
  consider "s = []" | a where "s = [a]" | a b where "s = [a, b]" | a b c where "s = [a, b, c]"
    | a b c d s' where "s = a # b # c # d # s'"
    by (metis list.exhaust)
  then show ?thesis
    by cases (auto simp: decodeRune_def take_Cons')
qed

lemma runeChunks_append:
  "rest = [] \<or> \<not> cont (ord (hd rest)) \<Longrightarrow> runeChunks (s @ rest) = runeChunks s @ runeChunks rest"
proof (induction s rule: runeChunks.induct)
  case (2 b s)
  obtain r w where d: "decodeRune (b # s) = (r, w)" by fastforce
  have w: "w \<le> length (b # s)"
    using decodeRune_le [of "b # s"] d by simp
  have "decodeRune (b # s @ rest) = (r, w)"
    using decodeRune_append [of "b # s" rest] 2 d by simp
  moreover have "take w (b # s @ rest) = take w (b # s)" "drop w (b # s @ rest) = drop w (b # s) @ rest"
    using w by (simp_all flip: append_Cons)
  ultimately show ?case using 2 d by simp
qed simp

text \<open>The first byte of a white space rune is no continuation byte.\<close>

lemma space_first_byte:
  assumes "runeIsSpace (fst (decodeRune (b # s)))"
  shows "\<not> cont (ord b)"
proof
  assume c: "cont (ord b)"
  then have "decodeRune (b # s) = (runeError, 1)"
    by (auto simp: decodeRune_def cont_def)
  with assms show False by (simp add: runeIsSpace_def runeError_def)
qed

lemma fieldsLoop_nonspace:
  "\<forall>c \<in> set cs. \<not> runeIsSpace (fst c) \<Longrightarrow>
   fieldsLoop cs cur = (if cur @ concat (map snd cs) = [] then [] else [cur @ concat (map snd cs)])"
proof (induction cs arbitrary: cur)
  case (Cons c cs)
  then show ?case by (cases c) (simp del: concat_eq_Nil_conv)
qed simp

lemma fieldsLoop_field:
  assumes "f \<in> set (fieldsLoop (runeChunks s) cur)"
    and "runeChunks (cur @ s) = cs @ runeChunks s" "concat (map snd cs) = cur"
      "\<forall>c \<in> set cs. \<not> runeIsSpace (fst c)"
  shows "\<forall>c \<in> set (runeChunks f). \<not> runeIsSpace (fst c)"
  using assms
proof (induction s arbitrary: cur cs rule: runeChunks.induct)
  case 1
  then show ?case by (auto split: if_splits)
next
  case (2 b s)
  obtain r w where d: "decodeRune (b # s) = (r, w)" by fastforce
  let ?rest = "drop w (b # s)"
  show ?case
  proof (cases "runeIsSpace r")
    case True
    have nc: "\<not> cont (ord (hd (b # s)))"
      using space_first_byte [of b s] True d by simp
    have cur: "runeChunks cur = cs"
      using runeChunks_append [of "b # s" cur] nc 2(3) by auto
    show ?thesis
    proof (cases "f = cur \<and> cur \<noteq> []")
      case True
      then show ?thesis using cur 2(5) by simp
    next
      case False
      then have "f \<in> set (fieldsLoop (runeChunks ?rest) [])"
        using 2(2) d \<open>runeIsSpace r\<close> by (auto split: if_splits)
      then show ?thesis using 2(1) [OF d [symmetric], of "[]" "[]"] by simp
    qed
  next
    case False
    have "f \<in> set (fieldsLoop (runeChunks ?rest) (cur @ take w (b # s)))"
      using 2(2) d False by simp
    moreover have "runeChunks ((cur @ take w (b # s)) @ ?rest) = (cs @ [(r, take w (b # s))]) @ runeChunks ?rest"
      using 2(3) d by simp
    ultimately show ?thesis
      using 2(1) [OF d [symmetric], of "cur @ take w (b # s)" "cs @ [(r, take w (b # s))]"] 2(4,5) False
      by simp
  qed
qed

lemma Fields_field: "f \<in> set (Fields s) \<Longrightarrow> Fields f = [f]"
  using fieldsLoop_field [of f s "[]" "[]"] Fields_nonempty [of f s]
  by (simp add: Fields_def fieldsLoop_nonspace runeChunks_concat)

lemma flagFields_fields: "f \<in> set (flagFields src) \<Longrightarrow> Fields f = [f]"
  by (auto simp: flagFields_def dest: Fields_field)

lemma flagFields_normal: "(\<forall>f \<in> set fs. Fields f = [f]) \<Longrightarrow> flagFields fs = fs"
  by (induction fs) (auto simp: flagFields_def)

section \<open>Properties\<close>

lemmas flags_eval = canonicalFlags_def toRemoveMap_def flagFields_def Fields_def decodeRune_def
  runeIsSpace_def addFlag_def resolveAlias_def Let_def

text \<open>
  C29. Without aliases, the result of \<open>canonicalFlags\<close> lists every white space separated flag
  that is not removed once, in the order of the first occurrences: it is not sorted.  Normalising
  a result that is not empty again changes nothing; the empty list becomes nil.
\<close>

theorem canonicalFlags_normal_form:
  assumes "canonicalFlags src remove Map.empty = Some fs"
  shows "fs = filter (\<lambda>f. f \<notin> set remove) (rev (remdups (rev (flagFields src)))) \<and> distinct fs \<and>
    canonicalFlags fs remove Map.empty = (if fs = [] then None else Some fs)"
proof -
  have fs: "fs = filter (\<lambda>f. f \<notin> set remove) (rev (remdups (rev (flagFields src))))"
    using assms canonicalFlags_plain [of src remove] by (cases src) (auto simp: canonicalFlags_def)
  then have d: "distinct fs" by simp
  have "flagFields fs = fs"
    using fs by (intro flagFields_normal) (auto dest: flagFields_fields)
  then have c: "canonicalFlags fs remove Map.empty = Some fs" if "fs \<noteq> []"
    using canonicalFlags_plain [OF that, of remove] d fs by (auto simp: distinct_remdups_id filter_id_conv)
  then have "canonicalFlags fs remove Map.empty = (if fs = [] then None else Some fs)" by (simp add: canonicalFlags_def)
  with fs d show ?thesis by blast
qed

theorem canonicalFlags_normal_form_witness:
  "canonicalFlags [''b a'', ''c b''] [''c''] Map.empty = Some [''b'', ''a''] \<and>
   canonicalFlags [''b'', ''a''] [''c''] Map.empty = Some [''b'', ''a'']"
proof -
  have c: "canonicalFlags [''b a'', ''c b''] [''c''] Map.empty = Some [''b'', ''a'']"
    by (simp add: flags_eval)
  show ?thesis using c canonicalFlags_normal_form [OF c, THEN conjunct2, THEN conjunct2] by auto
qed



text \<open>
  The promised deduplication fails in front of aliases: a flag is looked up among those
  already seen before it is translated, so an aliased flag given twice is listed twice.
\<close>

theorem canonicalFlags_alias_duplicates:
  "\<exists>fs. canonicalFlags [''a'', ''a''] [] [''a'' \<mapsto> ''b''] = Some fs \<and> \<not> distinct fs"
proof -
  have "canonicalFlags [''a'', ''a''] [] [''a'' \<mapsto> ''b''] = Some [''b'', ''b'']"
    by (simp add: flags_eval)
  then show ?thesis by simp
qed

end
