(* ===== verification/Variables.thy ===== *)
theory Variables
  imports Go_Strings
begin

text \<open>
  The references \<open>${...}\<close> of the variables extension: \<open>variableRegexp\<close> of
  \<open>interp/variables.go\<close>, as a scanner.  The names the expression accepts hold no brace, so
  a match at a position is decided by the text up to the next closing brace.
\<close>

section \<open>Names\<close>

definition is_ident_start :: "char \<Rightarrow> bool" where
  [char_class]: "is_ident_start c \<longleftrightarrow> is_alpha c \<or> c = CHR ''_''"

definition refIdent :: "bytes \<Rightarrow> bool" where
  "refIdent s \<longleftrightarrow> (case s of [] \<Rightarrow> False | c # t \<Rightarrow> is_ident_start c \<and> list_all is_ident_char t)"

definition refNum :: "bytes \<Rightarrow> bool" where
  "refNum s \<longleftrightarrow> s \<noteq> [] \<and> list_all is_digit s"

fun splitDots :: "bytes \<Rightarrow> bytes list" where
  "splitDots [] = [[]]"
| "splitDots (c # s) =
     (if c = CHR ''.'' then [] # splitDots s
      else (case splitDots s of [] \<Rightarrow> [[c]] | x # xs \<Rightarrow> (c # x) # xs))"

text \<open>One segment is an identifier or a number; in front of a dot comes an identifier first.\<close>

definition refName :: "bytes \<Rightarrow> bool" where
  "refName s \<longleftrightarrow>
     (case splitDots s of
        [] \<Rightarrow> False
      | [x] \<Rightarrow> refIdent x \<or> refNum x
      | x # xs \<Rightarrow> refIdent x \<and> list_all (\<lambda>y. refIdent y \<or> refNum y) xs)"

section \<open>Scanning\<close>

text \<open>A match at the start of the text: its name and what follows.\<close>

definition refAt :: "bytes \<Rightarrow> (bytes \<times> bytes) option" where
  "refAt s =
     (case s of
        d # b # t \<Rightarrow>
          if d = CHR ''$'' \<and> b = CHR ''{'' then
            (case Cut t CHR ''}'' of (name, rest, ok) \<Rightarrow> if ok \<and> refName name then Some (name, rest) else None)
          else None
      | _ \<Rightarrow> None)"

datatype segment = Lit char | Ref bytes

lemma refAt_eq: "refAt s = Some (name, rest) \<Longrightarrow> s = ''${'' @ name @ ''}'' @ rest"
  by (auto simp: refAt_def split: list.splits if_splits prod.splits dest!: Cut_eq)

function segments :: "bytes \<Rightarrow> segment list" where
  "segments [] = []"
| "segments (c # s) =
     (case refAt (c # s) of
        Some (name, rest) \<Rightarrow> Ref name # segments rest
      | None \<Rightarrow> Lit c # segments s)"
  by pat_completeness auto

termination segments
  by (relation "measure length") (auto dest: arg_cong [where f = length, OF refAt_eq])

declare segments.simps [simp del]

fun segmentText :: "segment \<Rightarrow> bytes" where
  "segmentText (Lit c) = [c]"
| "segmentText (Ref name) = ''${'' @ name @ ''}''"

lemma segments_text: "concat (map segmentText (segments s)) = s"
proof (induction s rule: segments.induct)
  case (2 c s)
  show ?case
  proof (cases "refAt (c # s)")
    case None
    with 2 show ?thesis by (simp add: segments.simps)
  next
    case (Some nr)
    then obtain name rest where "refAt (c # s) = Some (name, rest)" by (cases nr) auto
    with 2 refAt_eq [OF this] show ?thesis by (simp add: segments.simps)
  qed
qed (simp add: segments.simps)

lemma segments_names: "Ref name \<in> set (segments s) \<Longrightarrow> refName name"
proof (induction s rule: segments.induct)
  case (2 c s)
  show ?case
  proof (cases "refAt (c # s)")
    case None
    with 2 show ?thesis by (auto simp: segments.simps)
  next
    case (Some nr)
    then obtain n rest where r: "refAt (c # s) = Some (n, rest)" by (cases nr) auto
    then have "refName n" by (auto simp: refAt_def split: list.splits if_splits prod.splits)
    with 2 r show ?thesis by (auto simp: segments.simps)
  qed
qed (simp add: segments.simps)

lemma segments_plain: "CHR ''$'' \<notin> set s \<Longrightarrow> segments s = map Lit s"
  by (induction s rule: segments.induct)
    (auto simp: segments.simps refAt_def split: option.split list.split)

text \<open>\<open>usedVars\<close> lists the lower-cased names.\<close>

definition segmentNames :: "segment list \<Rightarrow> bytes list" where
  "segmentNames xs = concat (map (\<lambda>x. case x of Lit c \<Rightarrow> [] | Ref n \<Rightarrow> [n]) xs)"

lemma set_segmentNames: "n \<in> set (segmentNames xs) \<longleftrightarrow> Ref n \<in> set xs"
  by (induction xs) (auto simp: segmentNames_def split: segment.splits)

end
