(* ===== verification/Runtime.thy ===== *)
theory Runtime
  imports Lexer Flags Variables
begin

text \<open>
  \<open>interp/runtime.go\<close>, \<open>interp/applied_action.go\<close> and the state of \<open>interp/script.go\<close>: scripts
  and their options, applied actions, the runtime data a script works on, variables.

  The record \<open>runtime\<close> holds the fields of \<open>RuntimeData\<close> that execution changes.  What the
  host supplies (policy, envelope, message, environment, action handler) and the third-party
  packages (regular expressions, address parser) are functions in the record \<open>host\<close>.  A Go
  panic is the error \<open>Panic\<close>, which no handler of the interpreter catches.
\<close>

section \<open>Scripts\<close>

record interp_options =
  MaxActions :: int
  MaxVariableNameLen :: int
  MaxVariableLen :: int
  SubAddressSep :: bytes
  Testing :: bool
  DebugLog :: bool
  Allowed :: "(bytes \<Rightarrow> bool) option"

record script =
  extensions :: "bytes set"
  guarded :: "bytes \<Rightarrow> int"
  guardedUsed :: "bytes set"
  opts :: interp_options

definition RequiresExtension :: "script \<Rightarrow> bytes \<Rightarrow> bool \<times> script" where
  "RequiresExtension s name =
     (if name \<in> extensions s then (True, s)
      else if guarded s name > 0 then (True, s\<lparr>guardedUsed := insert name (guardedUsed s)\<rparr>)
      else (False, s))"

abbreviation requiresExt :: "script \<Rightarrow> bytes \<Rightarrow> bool" where
  "requiresExt s name \<equiv> fst (RequiresExtension s name)"

definition Extensions :: "script \<Rightarrow> bytes set" where
  "Extensions s = extensions s \<union> guardedUsed s"

definition YariloEnvironmentExtension :: bytes where
  "YariloEnvironmentExtension = ''vnd.yarilo.environment''"

text \<open>The namespace and the name of a variable; no dot gives the empty namespace.\<close>

definition splitVar :: "unicode_tables \<Rightarrow> bytes \<Rightarrow> bytes \<times> bytes" where
  "splitVar U name =
     (case Cut (ToLower U name) CHR ''.'' of (a, b, ok) \<Rightarrow> if ok then (a, b) else ([], a))"

text \<open>\<open>IsVarUsable\<close>: settable and gettable, and the script with its use of a guarded extension recorded.\<close>

definition IsVarUsable :: "unicode_tables \<Rightarrow> script \<Rightarrow> bytes \<Rightarrow> (bool \<times> bool) \<times> script" where
  "IsVarUsable U s variableName =
     (if int (length variableName) > MaxVariableNameLen (opts s) then ((False, False), s)
      else (case splitVar U variableName of (namespace, name) \<Rightarrow>
        if namespace = ''env'' then
          (case RequiresExtension s YariloEnvironmentExtension of (r, s') \<Rightarrow> ((False, r), s'))
        else if namespace = ''envelope'' then
          (case RequiresExtension s ''envelope'' of (r, s') \<Rightarrow>
             if \<not> r then ((False, False), s') else ((False, IsValidIdentifier name), s'))
        else if namespace = ''global'' then
          (case RequiresExtension s ''include'' of (r, s') \<Rightarrow>
             if \<not> r then ((False, False), s') else ((IsValidIdentifier name, IsValidIdentifier name), s'))
        else if namespace = [] then ((IsValidIdentifier name, IsValidIdentifier name), s)
        else ((False, False), s)))"

section \<open>Applied actions\<close>

datatype action =
    ActionKeep bool flags
  | ActionDiscard
  | ActionFileInto bytes flags bool bool bytes bytes
  | ActionRedirect bytes bool bytes
  | ActionReject bytes
  | ActionEReject bytes
  | ActionPipe bytes "bytes list" bool bool
  | ActionNotify bytes bytes bytes "bytes list" bytes
  | ActionReport bytes bytes bytes bool
  | ActionFilter bytes "bytes list"

fun testActionName :: "action \<Rightarrow> bytes" where
  "testActionName (ActionKeep i f) = ''keep''"
| "testActionName ActionDiscard = ''discard''"
| "testActionName (ActionFileInto m f c cr su mid) = ''fileinto''"
| "testActionName (ActionRedirect a c l) = ''redirect''"
| "testActionName (ActionReject r) = ''reject''"
| "testActionName (ActionEReject r) = ''ereject''"
| "testActionName (ActionPipe p a c t) = ''pipe''"
| "testActionName (ActionNotify m f i ops msg) = ''notify''"
| "testActionName (ActionReport f m t h) = ''report''"
| "testActionName (ActionFilter p a) = ''filter''"

fun cancelsImplicitKeep :: "action \<Rightarrow> bool" where
  "cancelsImplicitKeep (ActionKeep i f) = True"
| "cancelsImplicitKeep ActionDiscard = True"
| "cancelsImplicitKeep (ActionFileInto m f copy cr su mid) = (\<not> copy)"
| "cancelsImplicitKeep (ActionRedirect a copy l) = (\<not> copy)"
| "cancelsImplicitKeep (ActionReject r) = True"
| "cancelsImplicitKeep (ActionEReject r) = True"
| "cancelsImplicitKeep (ActionPipe p a copy try) = (\<not> copy \<and> \<not> try)"
| "cancelsImplicitKeep (ActionNotify m f i ops msg) = False"
| "cancelsImplicitKeep (ActionReport f m t h) = False"
| "cancelsImplicitKeep (ActionFilter p a) = False"

section \<open>Runtime data\<close>

record vacation_response =
  VFrom :: bytes
  VSubject :: bytes
  VBody :: bytes
  VIsMime :: bool
  VHandle :: bytes
  VDays :: int
  VSeconds :: int
  VFcc :: bytes
  VFccFlags :: flags
  VFccCreate :: bool
  VFccSpecialUse :: bytes
  VAddresses :: "bytes list"
  VSubjectGiven :: bool
  VPeriodGiven :: bool
  VPeriodSeconds :: int

record header_edit =
  EAdd :: bool
  EFieldName :: bytes
  EValue :: bytes
  ELast :: bool
  EIndex :: int

record include_state =
  stack :: "bytes list"
  once :: "bytes set"

text \<open>A node of the MIME tree; the header is that of the \<open>textproto\<close> package, its fields in order.\<close>

type_synonym mime_header = "(bytes \<times> bytes) list"

datatype mimePart =
  MimePart (mheader: mime_header) (contentType: bytes) (mtyp: bytes) (msubtype: bytes)
    (mparams: "bytes \<rightharpoonup> bytes") (mbody: bytes) (mchildren: "mimePart list")

text \<open>
  \<open>DebugLogged\<close> is the sequence of calls of the hook \<open>Options.DebugLog\<close>, and
  \<open>duplicateEntries\<close> the memory of the duplicate tracker (expiry times).
\<close>

record runtime =
  Script :: script
  ifResult :: bool
  AppliedActions :: "action list"
  RedirectAddr :: "bytes list"
  Mailboxes :: "bytes list"
  RFlags :: flags
  Keep :: bool
  ImplicitKeep :: bool
  FlagAliases :: "bytes \<rightharpoonup> bytes"
  MatchVariables :: "bytes list"
  Vars :: "bytes \<rightharpoonup> bytes"
  VacationResponses :: "bytes \<rightharpoonup> vacation_response"
  HeaderEdits :: "header_edit list"
  GlobalVars :: "bytes \<rightharpoonup> bytes"
  globalVarDecls :: "bytes set"
  IncludeState :: include_state
  PipedPrograms :: "bytes set"
  FilteredMessage :: "bytes option"
  partStack :: "mimePart list"
  DebugLogged :: "bytes list"
  duplicateEntries :: "bytes \<rightharpoonup> int"

datatype exec_error =
    ErrStop
  | ErrReturn
  | ErrSieveError bytes
  | ErrVarNameTooLong
  | ErrVarReadOnly
  | ErrVarNeedsRequire bytes
  | ErrVarUnknown
  | ErrTooManyActions
  | ErrComparatorMatchUnsupported
  | ErrRegex
  | ErrHost bytes
  | ErrNoInterface bytes
  | ErrEnvelopePart
  | ErrNoSender
  | ErrInclude bytes
  | ErrGlobalName
  | ErrExtension bytes
  | ErrProgramName bytes
  | ErrProgramArg
  | ErrDuplicatePipe bytes
  | ErrProgramFailed bytes
  | ErrNotifyMethod
  | ErrFeedbackType
  | ErrDatePart
  | ErrBreak bytes
  | Panic bytes
  | ErrFuel

text \<open>A \<open>time.Time\<close>: seconds since the epoch and the offset of its location at that time.\<close>

record time =
  Unix :: int
  ZoneOffset :: int

text \<open>Actions and tests: an error or a value, and the data as the code leaves it.\<close>

type_synonym 'a exec = "runtime \<Rightarrow> (exec_error + 'a) \<times> runtime"

text \<open>
  A message with a body: the raw body, \<open>None\<close> when there is none, and the decoded parts of
  given content types with their contents.
\<close>

record body_message =
  BodyRaw :: "(exec_error, bytes option) result"
  BodyParts :: "bytes list \<Rightarrow> (exec_error, (bytes \<times> bytes) list) result"

record host =
  uni :: unicode_tables
  binaryCompile :: "bytes \<Rightarrow> (bytes \<Rightarrow> bytes list option) option"
  regexpCompile :: "bytes \<Rightarrow> (bytes \<Rightarrow> bytes list option) option"
  QuoteMeta :: "bytes \<Rightarrow> bytes"
  ParseAddressList :: "bytes \<Rightarrow> bytes list option"
  EnvelopeFrom :: bytes
  EnvelopeTo :: bytes
  AuthUsername :: bytes
  HeaderGet :: "bytes \<Rightarrow> (exec_error, bytes list) result"
  MessageSize :: int
  GetEnvironment :: "(bytes \<Rightarrow> bytes option) option"
  RedirectAllowed :: "runtime \<Rightarrow> bytes \<Rightarrow> (exec_error, bool) result"
  MailboxByID :: "(bytes \<Rightarrow> bytes option) option"
  SpecialUseMailbox :: "(bytes \<Rightarrow> bytes option) option"
  MailboxExists :: "(bytes \<Rightarrow> (exec_error, bool) result) option"
  ListContains :: "(bytes \<Rightarrow> bytes \<Rightarrow> (exec_error, bool) result) option"
  ListValid :: "(bytes \<Rightarrow> bool) option"
  LoadScriptSource :: "(bytes \<Rightarrow> bytes \<Rightarrow> (exec_error, (exec_error, bytes) result option) result) option"
  IncludeAllowed :: "(bytes \<Rightarrow> (bytes \<Rightarrow> bool) option) option"
  OnAction :: "action \<Rightarrow> unit exec"
  MailboxHasSpecialUse :: "bytes \<Rightarrow> bytes \<Rightarrow> (exec_error, bool) result"
  NotifyMethodValid :: "(bytes \<Rightarrow> bool) option"
  NotifyMethodCapability :: "bytes \<Rightarrow> bytes \<Rightarrow> bytes option"
  SpamScore :: "(bool \<Rightarrow> bytes \<times> bool) option"
  VirusScore :: "bytes \<times> bool"
  GetMailboxMetadata :: "(bytes \<Rightarrow> bytes \<Rightarrow> (exec_error, bytes option) result) option"
  GetServerMetadata :: "bytes \<Rightarrow> (exec_error, bytes option) result"
  IsDuplicate :: "(bytes \<Rightarrow> bytes \<Rightarrow> 32 word \<Rightarrow> bool \<Rightarrow> bool exec) option"
  StaticRaw :: bytes
  Filter :: "(bytes \<Rightarrow> bytes list \<Rightarrow> bytes \<Rightarrow> (exec_error, bytes option) result) option"
  ExecuteProgram :: "(bytes \<Rightarrow> bytes list \<Rightarrow> bytes option \<Rightarrow> (exec_error, bytes \<times> bool) result) option"
  RawMessageBytes :: "bytes option"
  ReadHeader :: "bytes \<Rightarrow> (mime_header \<times> bytes) option"
  ContentType :: "mime_header \<Rightarrow> bytes \<times> (bytes \<rightharpoonup> bytes)"
  MultipartParts :: "bytes \<Rightarrow> bytes \<Rightarrow> (mime_header \<times> bytes) list"
  HdrGet :: "mime_header \<Rightarrow> bytes \<Rightarrow> bytes"
  HdrHas :: "mime_header \<Rightarrow> bytes \<Rightarrow> bool"
  EntityText :: "mime_header \<Rightarrow> bytes \<Rightarrow> bytes option"
  BodyMessage :: "body_message option"
  MailParseDate :: "bytes \<Rightarrow> time option"
  TimeParse :: "bytes \<Rightarrow> bytes \<Rightarrow> time option"
  Now :: time
  LocalOffset :: "int \<Rightarrow> int"

definition DefaultOnAction :: "action \<Rightarrow> unit exec" where
  "DefaultOnAction a d =
     (let d' = d\<lparr>AppliedActions := AppliedActions d @ [a]\<rparr>; mx = MaxActions (opts (Script d)) in
      if mx > 0 \<and> int (length (AppliedActions d')) > mx then (Inl ErrTooManyActions, d') else (Inr (), d'))"

definition NewRuntimeData :: "script \<Rightarrow> runtime" where
  "NewRuntimeData s =
     \<lparr>Script = s, ifResult = False, AppliedActions = [], RedirectAddr = [], Mailboxes = [],
      RFlags = None, Keep = False, ImplicitKeep = True, FlagAliases = Map.empty, MatchVariables = [],
      Vars = Map.empty, VacationResponses = Map.empty, HeaderEdits = [], GlobalVars = Map.empty,
      globalVarDecls = {}, IncludeState = \<lparr>stack = [], once = {}\<rparr>,
      PipedPrograms = {}, FilteredMessage = None, partStack = [], DebugLogged = [], duplicateEntries = Map.empty\<rparr>"

text \<open>
  \<open>Copy\<close>: the new data, and the receiver as the call leaves it.  The fields that the
  composite literal leaves out are zero in the copy.
\<close>

definition Copy :: "runtime \<Rightarrow> runtime \<times> runtime" where
  "Copy d =
     ((NewRuntimeData (Script d))
        \<lparr>AppliedActions := AppliedActions d, RedirectAddr := RedirectAddr d, Mailboxes := Mailboxes d,
         RFlags := None, Keep := Keep d, ImplicitKeep := ImplicitKeep d, FlagAliases := FlagAliases d,
         MatchVariables := MatchVariables d, Vars := Vars d, VacationResponses := VacationResponses d,
         HeaderEdits := HeaderEdits d\<rparr>,
      d\<lparr>RFlags := map_option (\<lambda>fs. replicate (length fs) []) (RFlags d)\<rparr>)"

section \<open>Variables\<close>

definition MatchVariable :: "runtime \<Rightarrow> int \<Rightarrow> bytes" where
  "MatchVariable d i = (if i \<ge> int (length (MatchVariables d)) then [] else MatchVariables d ! nat i)"

text \<open>A Go map of strings returns the empty string for a missing key.\<close>

definition mapGet :: "(bytes \<rightharpoonup> bytes) \<Rightarrow> bytes \<Rightarrow> bytes" where
  "mapGet m k = (case m k of Some v \<Rightarrow> v | None \<Rightarrow> [])"

definition Var :: "host \<Rightarrow> runtime \<Rightarrow> bytes \<Rightarrow> (exec_error, bytes) result" where
  "Var h d name0 =
     (case splitVar (uni h) name0 of (namespace, name) \<Rightarrow>
      if namespace = ''env'' then
        if \<not> requiresExt (Script d) YariloEnvironmentExtension then Inl (ErrVarNeedsRequire YariloEnvironmentExtension)
        else (case GetEnvironment h of
                None \<Rightarrow> Inr []
              | Some get \<Rightarrow>
                  Inr (case get (map (\<lambda>c. if c = CHR ''_'' then CHR ''-'' else c) name) of Some v \<Rightarrow> v | None \<Rightarrow> []))
      else if namespace = ''envelope'' then
        if \<not> requiresExt (Script d) ''envelope'' then Inl (ErrVarNeedsRequire ''envelope'')
        else if name = ''from'' then Inr (EnvelopeFrom h)
        else if name = ''to'' then Inr (EnvelopeTo h)
        else if name = ''auth'' then Inr (AuthUsername h)
        else Inr []
      else if namespace = ''global'' then
        if \<not> requiresExt (Script d) ''include'' then Inl (ErrVarNeedsRequire ''include'')
        else Inr (mapGet (GlobalVars d) name)
      else if namespace = [] then
        Inr (mapGet (if name \<in> globalVarDecls d then GlobalVars d else Vars d) name)
      else Inl ErrVarUnknown)"

text \<open>The loop that moves a cut back over continuation bytes.\<close>

fun cutIndex :: "bytes \<Rightarrow> nat \<Rightarrow> nat" where
  "cutIndex v 0 = 0"
| "cutIndex v (Suc n) = (if cont_byte (v ! Suc n) then cutIndex v n else Suc n)"

definition truncateValue :: "int \<Rightarrow> bytes \<Rightarrow> (exec_error, bytes) result" where
  "truncateValue mx v =
     (if int (length v) > mx then
        if mx < 0 then Inl (Panic ''slice bounds out of range'') else Inr (take (cutIndex v (nat mx)) v)
      else Inr v)"

definition SetVar :: "unicode_tables \<Rightarrow> bytes \<Rightarrow> bytes \<Rightarrow> unit exec" where
  "SetVar U name0 value0 d =
     (if int (length name0) > MaxVariableNameLen (opts (Script d)) then (Inl ErrVarNameTooLong, d)
      else (case truncateValue (MaxVariableLen (opts (Script d))) value0 of
        Inl e \<Rightarrow> (Inl e, d)
      | Inr value \<Rightarrow>
          (case splitVar U name0 of (namespace, name) \<Rightarrow>
             if namespace = ''envelope'' then (Inl ErrVarReadOnly, d)
             else if namespace = ''global'' then
               if \<not> requiresExt (Script d) ''include'' then (Inl (ErrVarNeedsRequire ''include''), d)
               else (Inr (), d\<lparr>GlobalVars := (GlobalVars d)(name \<mapsto> value)\<rparr>)
             else if namespace = [] then
               if name \<in> globalVarDecls d then (Inr (), d\<lparr>GlobalVars := (GlobalVars d)(name \<mapsto> value)\<rparr>)
               else (Inr (), d\<lparr>Vars := (Vars d)(name \<mapsto> value)\<rparr>)
             else (Inl ErrVarUnknown, d))))"

section \<open>Expanding references\<close>

definition refValue :: "host \<Rightarrow> runtime \<Rightarrow> bytes \<Rightarrow> (exec_error, bytes) result" where
  "refValue h d name =
     (case Atoi name of
        Some n \<Rightarrow>
          if n \<ge> 0 then Inr (MatchVariable d n)
          else (case Var h d name of Inl e \<Rightarrow> Inl (Panic name) | Inr v \<Rightarrow> Inr v)
      | None \<Rightarrow> (case Var h d name of Inl e \<Rightarrow> Inl (Panic name) | Inr v \<Rightarrow> Inr v))"

fun expandSegments :: "host \<Rightarrow> runtime \<Rightarrow> segment list \<Rightarrow> (exec_error, bytes) result" where
  "expandSegments h d [] = Inr []"
| "expandSegments h d (Lit c # xs) =
     (case expandSegments h d xs of Inl e \<Rightarrow> Inl e | Inr s \<Rightarrow> Inr (c # s))"
| "expandSegments h d (Ref n # xs) =
     (case refValue h d n of
        Inl e \<Rightarrow> Inl e
      | Inr v \<Rightarrow> (case expandSegments h d xs of Inl e \<Rightarrow> Inl e | Inr s \<Rightarrow> Inr (v @ s)))"

definition expandVars :: "host \<Rightarrow> runtime \<Rightarrow> bytes \<Rightarrow> (exec_error, bytes) result" where
  "expandVars h d s =
     (if \<not> requiresExt (Script d) ''variables'' then Inr s else expandSegments h d (segments s))"

fun expandEach :: "host \<Rightarrow> runtime \<Rightarrow> bytes list \<Rightarrow> (exec_error, bytes list) result" where
  "expandEach h d [] = Inr []"
| "expandEach h d (s # ss) =
     (case expandVars h d s of
        Inl e \<Rightarrow> Inl e
      | Inr v \<Rightarrow> (case expandEach h d ss of Inl e \<Rightarrow> Inl e | Inr vs \<Rightarrow> Inr (v # vs)))"

text \<open>\<open>expandVarsList\<close>; without the extension a list, nil included, comes back as it is.\<close>

definition expandVarsList :: "host \<Rightarrow> runtime \<Rightarrow> flags \<Rightarrow> (exec_error, bytes list) result" where
  "expandVarsList h d list =
     (let xs = (case list of None \<Rightarrow> [] | Some xs \<Rightarrow> xs) in
      if \<not> requiresExt (Script d) ''variables'' then Inr xs else expandEach h d xs)"

definition usedVars :: "unicode_tables \<Rightarrow> script \<Rightarrow> bytes \<Rightarrow> bytes list \<times> script" where
  "usedVars U s str =
     (case RequiresExtension s ''variables'' of (r, s') \<Rightarrow>
        (if r then map (ToLower U) (segmentNames (segments str)) else [], s'))"

fun varsAreValid :: "unicode_tables \<Rightarrow> script \<Rightarrow> bytes list \<Rightarrow> bool \<times> script" where
  "varsAreValid U s [] = (True, s)"
| "varsAreValid U s (v # vs) =
     (if (case Atoi v of Some n \<Rightarrow> n \<ge> 0 | None \<Rightarrow> False) then varsAreValid U s vs
      else (case IsVarUsable U s v of ((settable, gettable), s') \<Rightarrow>
              if \<not> gettable then (False, s') else varsAreValid U s' vs))"

definition usedVarsAreValid :: "unicode_tables \<Rightarrow> script \<Rightarrow> bytes \<Rightarrow> bool \<times> script" where
  "usedVarsAreValid U s str = (case usedVars U s str of (vs, s') \<Rightarrow> varsAreValid U s' vs)"

end
