(* ===== verification/Runtime_Laws.thy ===== *)
theory Runtime_Laws
  imports Runtime
begin

text \<open>
  Laws of the runtime data: truncation of values at character boundaries, the variable
  store as a locale interpreted on \<open>Var\<close> and \<open>SetVar\<close>, expansion of references.
\<close>

section \<open>Truncation\<close>

lemma cutIndex_le: "cutIndex v n \<le> n"
  by (induction n) auto

lemma cutIndex_start: "cutIndex v n \<noteq> 0 \<Longrightarrow> \<not> cont_byte (v ! cutIndex v n)"
  by (induction n) (auto split: if_splits)

lemma cutIndex_between: "cutIndex v n < i \<Longrightarrow> i \<le> n \<Longrightarrow> cont_byte (v ! i)"
  by (induction n) (auto simp: le_Suc_eq split: if_splits)

lemma encodeRunes_start:
  "i < length (encodeRunes rs) \<Longrightarrow> \<not> cont_byte (encodeRunes rs ! i) \<Longrightarrow>
   \<exists>k < length rs. i = length (encodeRunes (take k rs))"
proof (induction rs arbitrary: i)
  case (Cons r rs)
  obtain b s where e: "encodeRune r = b # s" "list_all cont_byte s"
    using encodeRune_shape by blast
  show ?case
  proof (cases "i < length (encodeRune r)")
    case True
    then have "i = 0"
      using Cons.prems(2) e by (cases i) (auto simp: nth_append list_all_length)
    then show ?thesis by (intro exI [of _ 0]) simp
  next
    case False
    then have "i - length (encodeRune r) < length (encodeRunes rs)"
      using Cons.prems(1) by simp
    then obtain k where "k < length rs" "i - length (encodeRune r) = length (encodeRunes (take k rs))"
      using Cons.IH [of "i - length (encodeRune r)"] Cons.prems(2) False by (auto simp: nth_append)
    with False show ?thesis by (intro exI [of _ "Suc k"]) auto
  qed
qed simp

lemma encodeRunes_boundary:
  assumes "k < length rs"
  shows "\<not> cont_byte (encodeRunes rs ! length (encodeRunes (take k rs)))"
proof -
  obtain b s where e: "encodeRune (rs ! k) = b # s" "\<not> cont_byte b"
    using encodeRune_shape by blast
  have "encodeRunes rs = encodeRunes (take k rs) @ encodeRune (rs ! k) @ encodeRunes (drop (Suc k) rs)"
    using id_take_nth_drop [OF assms] by (metis encodeRunes_simps(2) encodeRunes_simps(3))
  with e show ?thesis by (simp add: nth_append)
qed

text \<open>Cutting valid UTF-8 keeps the longest run of whole characters that fits.\<close>

lemma truncateValue_runes:
  assumes "0 \<le> mx" and "mx < int (length (encodeRunes rs))"
  shows "\<exists>k < length rs. truncateValue mx (encodeRunes rs) = Inr (encodeRunes (take k rs)) \<and>
    int (length (encodeRunes (take k rs))) \<le> mx \<and> mx < int (length (encodeRunes (take (Suc k) rs)))"
proof -
  let ?v = "encodeRunes rs" and ?n = "nat mx"
  let ?i = "cutIndex ?v ?n"
  have i: "?i \<le> ?n" by (rule cutIndex_le)
  have lt: "?n < length ?v" using assms by linarith
  then have "rs \<noteq> []" by auto
  obtain k where k: "k < length rs" "?i = length (encodeRunes (take k rs))"
  proof (cases "?i = 0")
    case True
    then show ?thesis using that [of 0] \<open>rs \<noteq> []\<close> by simp
  next
    case False
    then show ?thesis using that encodeRunes_start [of ?i rs] cutIndex_start [of ?v ?n] i lt by auto
  qed
  have split: "?v = encodeRunes (take k rs) @ encodeRunes (drop k rs)"
    by (metis append_take_drop_id encodeRunes_simps(3))
  have "?n < length (encodeRunes (take (Suc k) rs))"
  proof (rule ccontr)
    let ?j = "length (encodeRunes (take (Suc k) rs))"
    assume "\<not> ?n < ?j"
    then have j: "?j \<le> ?n" by simp
    have "0 < length (encodeRune (rs ! k))" by simp
    then have "?i < ?j" using k by (simp add: take_Suc_conv_app_nth)
    then have "cont_byte (?v ! ?j)" using cutIndex_between [of ?v ?n ?j] j by simp
    moreover have "Suc k < length rs"
    proof (rule ccontr)
      assume "\<not> Suc k < length rs"
      then have "take (Suc k) rs = rs" using k by simp
      with j lt show False by simp
    qed
    ultimately show False using encodeRunes_boundary by blast
  qed
  moreover have "truncateValue mx ?v = Inr (encodeRunes (take k rs))"
    using assms k split by (simp add: truncateValue_def)
  ultimately show ?thesis using assms(1) k i by (intro exI [of _ k]) auto
qed

lemma truncateValue_length:
  "0 \<le> mx \<Longrightarrow> truncateValue mx v = Inr v' \<Longrightarrow> int (length v') \<le> mx"
  using cutIndex_le [of v "nat mx"] by (auto simp: truncateValue_def split: if_splits)

lemma truncateValue_total: "0 \<le> mx \<Longrightarrow> \<exists>v'. truncateValue mx v = Inr v'"
  by (simp add: truncateValue_def)

section \<open>The variable store\<close>

text \<open>
  The contract a client relies on: a name denotes a cell or is not usable, setting a cell
  changes that cell and no other.
\<close>

locale var_store =
  fixes get :: "'d \<Rightarrow> 'n \<Rightarrow> 'v option" and set :: "'n \<Rightarrow> 'v \<Rightarrow> 'd \<Rightarrow> 'd option"
    and cell :: "'d \<Rightarrow> 'n \<Rightarrow> 'c option"
  assumes get_same_cell: "cell d n = Some c \<Longrightarrow> cell d m = Some c \<Longrightarrow> get d n = get d m"
    and set_cell: "set n v d = Some d' \<Longrightarrow> cell d n \<noteq> None"
    and cell_stable: "set n v d = Some d' \<Longrightarrow> cell d' m = cell d m"
    and get_set: "set n v d = Some d' \<Longrightarrow> get d' n = Some v"
    and get_other: "set n v d = Some d' \<Longrightarrow> cell d m \<noteq> cell d n \<Longrightarrow> get d' m = get d m"
begin

lemma get_alias:
  assumes "set n v d = Some d'" and "cell d m = cell d n"
  shows "get d' m = Some v"
proof -
  obtain c where c: "cell d n = Some c" using set_cell [OF assms(1)] by blast
  have "get d' m = get d' n"
    using c assms by (intro get_same_cell [of d' m c n]) (auto simp: cell_stable)
  with get_set [OF assms(1)] show ?thesis by simp
qed

lemma get_after_set:
  "set n v d = Some d' \<Longrightarrow> get d' m = (if cell d m = cell d n then Some v else get d m)"
  by (simp add: get_alias get_other)

end

datatype var_cell = Local bytes | Global bytes | ReadOnly bytes bytes

definition varCell :: "unicode_tables \<Rightarrow> runtime \<Rightarrow> bytes \<Rightarrow> var_cell option" where
  "varCell U d name0 =
     (case splitVar U name0 of (namespace, name) \<Rightarrow>
        if namespace = [] then Some (if name \<in> globalVarDecls d then Global name else Local name)
        else if namespace = ''global'' then (if requiresExt (Script d) ''include'' then Some (Global name) else None)
        else if namespace = ''env'' \<or> namespace = ''envelope'' then Some (ReadOnly namespace name)
        else None)"

definition getVar :: "host \<Rightarrow> runtime \<Rightarrow> bytes \<Rightarrow> bytes option" where
  "getVar h d n = (case Var h d n of Inl e \<Rightarrow> None | Inr v \<Rightarrow> Some v)"

text \<open>Setting to a value that needs no truncation.\<close>

definition setVar :: "host \<Rightarrow> bytes \<Rightarrow> bytes \<Rightarrow> runtime \<Rightarrow> runtime option" where
  "setVar h n v d =
     (if int (length v) > MaxVariableLen (opts (Script d)) then None
      else (case SetVar (uni h) n v d of (Inl e, d') \<Rightarrow> None | (Inr _, d') \<Rightarrow> Some d'))"

lemma SetVar_cases:
  assumes "SetVar U n v d = (Inr u, d')"
  obtains (Local) x where "splitVar U n = ([], x)" "x \<notin> globalVarDecls d"
      "\<exists>v'. truncateValue (MaxVariableLen (opts (Script d))) v = Inr v' \<and> d' = d\<lparr>Vars := (Vars d)(x \<mapsto> v')\<rparr>"
    | (Declared) x where "splitVar U n = ([], x)" "x \<in> globalVarDecls d"
      "\<exists>v'. truncateValue (MaxVariableLen (opts (Script d))) v = Inr v' \<and> d' = d\<lparr>GlobalVars := (GlobalVars d)(x \<mapsto> v')\<rparr>"
    | (Global) x where "splitVar U n = (''global'', x)" "requiresExt (Script d) ''include''"
      "\<exists>v'. truncateValue (MaxVariableLen (opts (Script d))) v = Inr v' \<and> d' = d\<lparr>GlobalVars := (GlobalVars d)(x \<mapsto> v')\<rparr>"
  using assms
  by (auto simp: SetVar_def split: if_splits sum.splits prod.splits)

lemma setVar_cases:
  assumes "setVar h n v d = Some d'"
  obtains (Local) x where "splitVar (uni h) n = ([], x)" "x \<notin> globalVarDecls d" "d' = d\<lparr>Vars := (Vars d)(x \<mapsto> v)\<rparr>"
    | (Declared) x where "splitVar (uni h) n = ([], x)" "x \<in> globalVarDecls d"
      "d' = d\<lparr>GlobalVars := (GlobalVars d)(x \<mapsto> v)\<rparr>"
    | (Global) x where "splitVar (uni h) n = (''global'', x)" "requiresExt (Script d) ''include''"
      "d' = d\<lparr>GlobalVars := (GlobalVars d)(x \<mapsto> v)\<rparr>"
proof -
  obtain u where s: "SetVar (uni h) n v d = (Inr u, d')" and t: "truncateValue (MaxVariableLen (opts (Script d))) v = Inr v"
    using assms by (auto simp: setVar_def truncateValue_def split: if_splits prod.splits sum.splits)
  from s show ?thesis
  proof (cases rule: SetVar_cases)
    case (Local x)
    show ?thesis by (rule that(1) [of x]) (use Local t in auto)
  next
    case (Declared x)
    show ?thesis by (rule that(2) [of x]) (use Declared t in auto)
  next
    case (Global x)
    show ?thesis by (rule that(3) [of x]) (use Global t in auto)
  qed
qed

definition readOnlyValue :: "host \<Rightarrow> script \<Rightarrow> bytes \<Rightarrow> bytes \<Rightarrow> bytes option" where
  "readOnlyValue h sc namespace name =
     (if namespace = ''env'' then
        if \<not> requiresExt sc YariloEnvironmentExtension then None
        else (case GetEnvironment h of
                None \<Rightarrow> Some []
              | Some get \<Rightarrow>
                  Some (case get (map (\<lambda>c. if c = CHR ''_'' then CHR ''-'' else c) name) of Some v \<Rightarrow> v | None \<Rightarrow> []))
      else if \<not> requiresExt sc ''envelope'' then None
      else if name = ''from'' then Some (EnvelopeFrom h)
      else if name = ''to'' then Some (EnvelopeTo h)
      else if name = ''auth'' then Some (AuthUsername h)
      else Some [])"

fun cellValue :: "host \<Rightarrow> runtime \<Rightarrow> var_cell \<Rightarrow> bytes option" where
  "cellValue h d (Local x) = Some (mapGet (Vars d) x)"
| "cellValue h d (Global x) = Some (mapGet (GlobalVars d) x)"
| "cellValue h d (ReadOnly ns x) = readOnlyValue h (Script d) ns x"

lemma getVar_cell: "getVar h d n = Option.bind (varCell (uni h) d n) (cellValue h d)"
proof -
  obtain ns x where s: "splitVar (uni h) n = (ns, x)" by fastforce
  show ?thesis
    by (cases "GetEnvironment h") (simp_all add: getVar_def Var_def varCell_def s readOnlyValue_def)
qed

lemma varCell_update [simp]:
  "varCell U (d\<lparr>Vars := m\<rparr>) = varCell U d" "varCell U (d\<lparr>GlobalVars := m\<rparr>) = varCell U d"
  by (simp_all add: fun_eq_iff varCell_def split: prod.split)

lemma setVar_cellValue:
  assumes "setVar h n v d = Some d'"
  shows "\<exists>c. varCell (uni h) d n = Some c \<and> varCell (uni h) d' = varCell (uni h) d \<and>
    cellValue h d' = (cellValue h d)(c := Some v)"
  using assms
proof (cases rule: setVar_cases)
  case (Local x)
  have "cellValue h d' c = ((cellValue h d)(var_cell.Local x := Some v)) c" for c
    using Local by (cases c) (auto simp: mapGet_def)
  with Local show ?thesis by (intro exI [of _ "var_cell.Local x"] conjI ext) (simp_all add: varCell_def)
next
  case (Declared x)
  have "cellValue h d' c = ((cellValue h d)(var_cell.Global x := Some v)) c" for c
    using Declared by (cases c) (auto simp: mapGet_def)
  with Declared show ?thesis by (intro exI [of _ "var_cell.Global x"] conjI ext) (simp_all add: varCell_def)
next
  case (Global x)
  have "cellValue h d' c = ((cellValue h d)(var_cell.Global x := Some v)) c" for c
    using Global by (cases c) (auto simp: mapGet_def)
  with Global show ?thesis by (intro exI [of _ "var_cell.Global x"] conjI ext) (simp_all add: varCell_def)
qed

interpretation vs: var_store "getVar h" "setVar h" "varCell (uni h)" for h
proof
  fix d n m c
  assume "varCell (uni h) d n = Some c" "varCell (uni h) d m = Some c"
  then show "getVar h d n = getVar h d m" by (simp add: getVar_cell)
next
  fix n v d d' m
  assume s: "setVar h n v d = Some d'"
  from setVar_cellValue [OF s] obtain c where c: "varCell (uni h) d n = Some c"
    "varCell (uni h) d' = varCell (uni h) d" "cellValue h d' = (cellValue h d)(c := Some v)" by blast
  then show "varCell (uni h) d n \<noteq> None" "varCell (uni h) d' m = varCell (uni h) d m" "getVar h d' n = Some v"
    by (simp_all add: getVar_cell)
  assume "varCell (uni h) d m \<noteq> varCell (uni h) d n"
  with c show "getVar h d' m = getVar h d m"
    by (cases "varCell (uni h) d m") (auto simp: getVar_cell)
qed

section \<open>Expansion\<close>

lemma splitVar_lower: "isASCII n \<Longrightarrow> splitVar U (ToLower U n) = splitVar U n"
  by (simp add: splitVar_def ToLower_idem)

lemma refName_ascii:
  assumes "refName n"
  shows "isASCII n"
proof -
  have seg: "isASCII x" if "refIdent x \<or> refNum x" for x
    using that by (auto simp: isASCII_def list_all_iff refIdent_def refNum_def char_class split: list.splits)
  have "isASCII s" if "\<forall>x \<in> set (splitDots s). isASCII x" for s
    using that
  proof (induction s)
    case (Cons c s)
    show ?case
    proof (cases "splitDots s")
      case Nil
      then show ?thesis by (cases s) (auto split: if_splits list.splits)
    next
      case (Cons x xs)
      with Cons.IH Cons.prems show ?thesis by (auto simp: isASCII_def split: if_splits)
    qed
  qed (simp add: isASCII_def)
  moreover have "\<forall>x \<in> set (splitDots n). isASCII x"
    using assms seg by (auto simp: refName_def list_all_iff split: list.splits)
  ultimately show ?thesis by blast
qed

lemma lowerByte_digit: "is_digit (lowerByte c) = is_digit c"
  by (auto simp: lowerByte_def char_class)

lemma lowerByte_fixed: "\<not> is_upper c \<Longrightarrow> lowerByte c = c"
  by (simp add: lowerByte_def)

lemma lowerByte_upper: "is_upper c \<Longrightarrow> is_lower (lowerByte c)"
  by (simp add: lowerByte_def char_class)

lemma lowerByte_eq: "\<not> is_lower b \<Longrightarrow> \<not> is_upper b \<Longrightarrow> lowerByte c = b \<longleftrightarrow> c = b"
  using lowerByte_upper [of c] lowerByte_fixed [of c] lowerByte_fixed [of b] by metis

lemma lowerByte_sign [simp]: "lowerByte c = CHR ''-'' \<longleftrightarrow> c = CHR ''-''" "lowerByte c = CHR ''+'' \<longleftrightarrow> c = CHR ''+''"
  by (simp_all add: lowerByte_eq char_class)

lemma lower_digits: "all_digits s \<Longrightarrow> map lowerByte s = s"
  by (auto simp: all_digits_def list_all_iff char_class lowerByte_def intro!: map_idI)

lemma all_digits_lower: "all_digits (map lowerByte s) = all_digits s"
  by (simp add: all_digits_def list_all_iff lowerByte_digit)

lemma Atoi_lower: "Atoi (map lowerByte s) = Atoi s"
proof (cases s)
  case (Cons b r)
  have r: "all_digits (map lowerByte r) = all_digits r" "all_digits r \<Longrightarrow> map lowerByte r = r"
    by (simp_all add: all_digits_lower lower_digits)
  have br: "all_digits (lowerByte b # map lowerByte r) = all_digits (b # r)"
    "all_digits (b # r) \<Longrightarrow> lowerByte b # map lowerByte r = b # r"
    using all_digits_lower [of "b # r"] lower_digits [of "b # r"] by simp_all
  show ?thesis
    using r br by (simp add: Cons Atoi_def Let_def) metis
qed (simp add: Atoi_def)

lemma RequiresExtension_same:
  "RequiresExtension s e = (r, s') \<Longrightarrow> requiresExt s' = requiresExt s \<and> opts s' = opts s"
  by (auto simp: RequiresExtension_def fun_eq_iff split: if_splits)

lemma IsVarUsable_same:
  "IsVarUsable U s n = (b, s') \<Longrightarrow> requiresExt s' = requiresExt s"
  by (auto simp: IsVarUsable_def split: if_splits prod.splits dest: RequiresExtension_same)

text \<open>What \<open>IsVarUsable\<close> calls gettable can be read at run time.\<close>

lemma gettable_Var:
  assumes "IsVarUsable (uni h) s n = ((a, True), s')" and req: "\<And>e. requiresExt s e \<Longrightarrow> requiresExt (Script d) e"
  shows "\<exists>v. Var h d n = Inr v"
proof -
  obtain ns x where sp: "splitVar (uni h) n = (ns, x)" by fastforce
  have l: "\<not> int (length n) > MaxVariableNameLen (opts s)"
    using assms(1) by (auto simp: IsVarUsable_def)
  consider "ns = ''env''" | "ns = ''envelope''" | "ns = ''global''" | "ns = []"
    | "ns \<noteq> ''env''" "ns \<noteq> ''envelope''" "ns \<noteq> ''global''" "ns \<noteq> []" by blast
  then show ?thesis
  proof cases
    case 1
    then show ?thesis using assms(1) l req
      by (auto simp: IsVarUsable_def Var_def sp split: prod.splits option.split)
  next
    case 2
    then show ?thesis using assms(1) l req
      by (auto simp: IsVarUsable_def Var_def sp split: prod.splits if_splits)
  next
    case 3
    then show ?thesis using assms(1) l req
      by (auto simp: IsVarUsable_def Var_def sp split: prod.splits if_splits)
  next
    case 4
    then show ?thesis by (simp add: Var_def sp)
  next
    case 5
    then show ?thesis using assms(1) l by (simp add: IsVarUsable_def sp)
  qed
qed

lemma varsAreValid_Var:
  "varsAreValid (uni h) s vs = (True, s') \<Longrightarrow> (\<And>e. requiresExt s e \<Longrightarrow> requiresExt (Script d) e) \<Longrightarrow> v \<in> set vs \<Longrightarrow>
   (\<exists>k \<ge> 0. Atoi v = Some k) \<or> (\<exists>x. Var h d v = Inr x)"
proof (induction vs arbitrary: s)
  case (Cons w vs)
  show ?case
  proof (cases "\<exists>k \<ge> 0. Atoi w = Some k")
    case True
    with Cons show ?thesis by auto
  next
    case False
    then have n: "\<not> (case Atoi w of Some n \<Rightarrow> n \<ge> 0 | None \<Rightarrow> False)" by (auto split: option.splits)
    obtain a b s1 where u: "IsVarUsable (uni h) s w = ((a, b), s1)" by (metis surj_pair)
    with Cons.prems(1) n have b: "b" "varsAreValid (uni h) s1 vs = (True, s')"
      by (auto split: if_splits)
    have "requiresExt s1 e \<Longrightarrow> requiresExt (Script d) e" for e
      using fun_cong [OF IsVarUsable_same [OF u], of e] Cons.prems(2) [of e] by simp
    with Cons.IH [OF b(2)] Cons.prems(2,3) u b(1) gettable_Var [of h s w a s1 d] show ?thesis by auto
  qed
qed simp

lemma refValue_ok:
  assumes "refName n" and "(\<exists>k \<ge> 0. Atoi (ToLower (uni h) n) = Some k) \<or> (\<exists>x. Var h d (ToLower (uni h) n) = Inr x)"
  shows "\<exists>v. refValue h d n = Inr v"
proof -
  have a: "isASCII n" by (rule refName_ascii [OF assms(1)])
  have "Var h d (ToLower (uni h) n) = Var h d n"
    by (simp add: Var_def splitVar_lower [OF a])
  moreover have "Atoi (ToLower (uni h) n) = Atoi n"
    using a by (simp add: ToLower_ascii Atoi_lower)
  ultimately show ?thesis
    using assms(2) by (auto simp: refValue_def split: option.splits)
qed

lemma expandSegments_ok:
  "(\<And>n. Ref n \<in> set xs \<Longrightarrow> \<exists>v. refValue h d n = Inr v) \<Longrightarrow> \<exists>v. expandSegments h d xs = Inr v"
proof (induction xs)
  case (Cons x xs)
  then obtain v where "expandSegments h d xs = Inr v" by auto
  with Cons.prems [of "case x of Ref n \<Rightarrow> n | _ \<Rightarrow> []"] show ?case by (cases x) auto
qed simp

lemma expandSegments_lits: "expandSegments h d (map Lit s) = Inr s"
  by (induction s) auto

lemma expandVars_plain: "CHR ''$'' \<notin> set s \<Longrightarrow> expandVars h d s = Inr s"
  by (simp add: expandVars_def segments_plain expandSegments_lits)

section \<open>An example host\<close>

definition exampleTables :: unicode_tables where
  "exampleTables = \<lparr>tableIsDigit = (\<lambda>_. False), tableToLower = id, tableToUpper = id, tableFolds = (=)\<rparr>"

definition exampleHost :: host where
  "exampleHost =
     \<lparr>uni = exampleTables, binaryCompile = (\<lambda>_. None), regexpCompile = (\<lambda>_. None), QuoteMeta = id,
      ParseAddressList = (\<lambda>s. Some [s]), EnvelopeFrom = ''from@example.org'', EnvelopeTo = ''to@example.org'',
      AuthUsername = [], HeaderGet = (\<lambda>_. Inr []), MessageSize = 100, GetEnvironment = None,
      RedirectAllowed = (\<lambda>_ _. Inr True), MailboxByID = None, SpecialUseMailbox = None, MailboxExists = None,
      ListContains = None, ListValid = None, LoadScriptSource = None, IncludeAllowed = None,
      OnAction = DefaultOnAction, MailboxHasSpecialUse = (\<lambda>_ _. Inr False), NotifyMethodValid = None,
      NotifyMethodCapability = (\<lambda>_ _. None), SpamScore = None, VirusScore = (''0'', False),
      GetMailboxMetadata = None, GetServerMetadata = (\<lambda>_. Inr None), IsDuplicate = None, StaticRaw = [],
      Filter = None, ExecuteProgram = None, RawMessageBytes = None, ReadHeader = (\<lambda>_. None),
      ContentType = (\<lambda>_. ([], Map.empty)), MultipartParts = (\<lambda>_ _. []), HdrGet = (\<lambda>_ _. []),
      HdrHas = (\<lambda>_ _. False), EntityText = (\<lambda>_ _. None), BodyMessage = None, MailParseDate = (\<lambda>_. None),
      TimeParse = (\<lambda>_ _. None), Now = \<lparr>Unix = 0, ZoneOffset = 0\<rparr>, LocalOffset = (\<lambda>_. 0)\<rparr>"

definition exampleData :: "bytes set \<Rightarrow> runtime" where
  "exampleData exts = NewRuntimeData
     \<lparr>extensions = exts, guarded = (\<lambda>_. 0), guardedUsed = {},
      opts = \<lparr>MaxActions = 2, MaxVariableNameLen = 32, MaxVariableLen = 2, SubAddressSep = [], Testing = False,
               DebugLog = False,
               Allowed = None\<rparr>\<rparr>"

lemmas example_defs = exampleData_def NewRuntimeData_def

section \<open>Properties\<close>

text \<open>
  C24. A variable that was set reads back, under any spelling of its name that denotes the
  same cell: as the value when it fits, and otherwise, for valid UTF-8, as the longest prefix
  of whole characters within \<open>MaxVariableLen\<close>.  Every other variable keeps its value.
\<close>

theorem setvar_getvar:
  assumes "SetVar (uni h) n (encodeRunes rs) d = (Inr (), d')" and "0 \<le> MaxVariableLen (opts (Script d))"
  shows "\<exists>k \<le> length rs.
      int (length (encodeRunes (take k rs))) \<le> MaxVariableLen (opts (Script d)) \<and>
      (k < length rs \<longrightarrow> MaxVariableLen (opts (Script d)) < int (length (encodeRunes (take (Suc k) rs)))) \<and>
      (\<forall>m. varCell (uni h) d m = varCell (uni h) d n \<longrightarrow> Var h d' m = Inr (encodeRunes (take k rs))) \<and>
      (\<forall>m. varCell (uni h) d m \<noteq> varCell (uni h) d n \<longrightarrow> getVar h d' m = getVar h d m)"
proof -
  let ?mx = "MaxVariableLen (opts (Script d))"
  obtain k where k: "k \<le> length rs" "truncateValue ?mx (encodeRunes rs) = Inr (encodeRunes (take k rs))"
    "int (length (encodeRunes (take k rs))) \<le> ?mx"
    "k < length rs \<longrightarrow> ?mx < int (length (encodeRunes (take (Suc k) rs)))"
  proof (cases "?mx < int (length (encodeRunes rs))")
    case True
    with truncateValue_runes [OF assms(2) True] that show ?thesis by (meson less_imp_le_nat)
  next
    case False
    then show ?thesis using that [of "length rs"] by (simp add: truncateValue_def)
  qed
  let ?v = "encodeRunes (take k rs)"
  have "truncateValue ?mx ?v = Inr ?v" using k(3) by (simp add: truncateValue_def)
  then have "SetVar (uni h) n ?v d = SetVar (uni h) n (encodeRunes rs) d"
    by (simp only: SetVar_def k(2))
  with assms(1) have "SetVar (uni h) n ?v d = (Inr (), d')" by simp
  then have set: "setVar h n ?v d = Some d'" using k(3) by (simp add: setVar_def)
  have "Var h d' m = Inr ?v" if "varCell (uni h) d m = varCell (uni h) d n" for m
    using vs.get_alias [OF set that] by (auto simp: getVar_def split: sum.splits)
  moreover have "getVar h d' m = getVar h d m" if "varCell (uni h) d m \<noteq> varCell (uni h) d n" for m
    using vs.get_other [OF set that] .
  ultimately show ?thesis using k by blast
qed

theorem setvar_getvar_witness:
  "SetVar (uni exampleHost) ''X'' (encodeRunes [65, 0xE9, 66]) (exampleData {''variables''})
     = (Inr (), (exampleData {''variables''})\<lparr>Vars := [''x'' \<mapsto> encodeRunes [65]]\<rparr>) \<and>
   Var exampleHost ((exampleData {''variables''})\<lparr>Vars := [''x'' \<mapsto> encodeRunes [65]]\<rparr>) ''x'' = Inr (encodeRunes [65])"
proof -
  let ?d = "exampleData {''variables''}" and ?U = "uni exampleHost"
  have s: "splitVar ?U ''X'' = ([], ''x'')" "splitVar ?U ''x'' = ([], ''x'')"
    by code_simp+
  have e: "SetVar ?U ''X'' (encodeRunes [65, 0xE9, 66]) ?d = (Inr (), ?d\<lparr>Vars := [''x'' \<mapsto> encodeRunes [65]]\<rparr>)"
    by (simp add: SetVar_def s truncateValue_def example_defs encodeRune_def numeral_2_eq_2 cont_byte_def)
  have c: "varCell ?U ?d ''x'' = varCell ?U ?d ''X''" by (simp add: varCell_def s)
  let ?rs = "[65, 0xE9, 66] :: nat list" and ?d' = "?d\<lparr>Vars := [''x'' \<mapsto> encodeRunes [65]]\<rparr>"
  have mx: "MaxVariableLen (opts (Script ?d)) = 2" by (simp add: example_defs)
  have "(0 :: int) \<le> 2" by simp
  from setvar_getvar [OF e, unfolded mx, OF this] obtain k where k: "k \<le> length ?rs"
      "int (length (encodeRunes (take k ?rs))) \<le> 2"
      "k < length ?rs \<longrightarrow> 2 < int (length (encodeRunes (take (Suc k) ?rs)))"
      "\<forall>m. varCell ?U ?d m = varCell ?U ?d ''X'' \<longrightarrow> Var exampleHost ?d' m = Inr (encodeRunes (take k ?rs))"
    by blast
  have v: "Var exampleHost ?d' ''x'' = Inr (encodeRunes (take k ?rs))" using k(4) c by blast
  have "k = 1"
    using k(1-3) by (cases k; cases "k - 1"; cases "k - 2") (auto simp: encodeRune_def)
  with e v show ?thesis by simp
qed

text \<open>
  C11. A string that \<open>usedVarsAreValid\<close> accepts at load time expands at run time, so that the
  panic in \<open>expandVars\<close> is unreachable for it, when no extension was guarded by \<open>ihave\<close> at that
  point of the script, the script that runs has the extensions required until then, and
  \<open>variables\<close> was not required only later.
\<close>

theorem valid_vars_expand:
  assumes "usedVarsAreValid (uni h) s str = (True, s')" and "\<forall>ext. guarded s ext \<le> 0"
    and "extensions s \<subseteq> extensions (Script d)" and "requiresExt (Script d) ''variables'' \<longrightarrow> ''variables'' \<in> extensions s"
  shows "\<exists>v. expandVars h d str = Inr v"
proof (cases "requiresExt (Script d) ''variables''")
  case False
  then show ?thesis by (simp add: expandVars_def)
next
  case True
  have mono: "requiresExt s e \<Longrightarrow> requiresExt (Script d) e" for e
    using spec [OF assms(2), of e] assms(3) by (auto simp: RequiresExtension_def split: if_splits)
  obtain s1 where r: "RequiresExtension s ''variables'' = (True, s1)"
    using assms(4) True by (auto simp: RequiresExtension_def)
  have v: "varsAreValid (uni h) s1 (map (ToLower (uni h)) (segmentNames (segments str))) = (True, s')"
    using assms r by (simp add: usedVarsAreValid_def usedVars_def)
  have same: "requiresExt s1 e \<Longrightarrow> requiresExt (Script d) e" for e
    using fun_cong [OF conjunct1 [OF RequiresExtension_same [OF r]], of e] mono [of e] by simp
  have "\<exists>v. refValue h d n = Inr v" if "Ref n \<in> set (segments str)" for n
    using varsAreValid_Var [OF v same, of "ToLower (uni h) n"] that
    by (intro refValue_ok segments_names [OF that]) (auto simp: set_segmentNames)
  then have "\<exists>v. expandSegments h d (segments str) = Inr v" by (rule expandSegments_ok)
  with True show ?thesis by (simp add: expandVars_def)
qed

lemma splitVar_examples:
  "splitVar U ''b'' = ([], ''b'')" "splitVar U ''envelope.from'' = (''envelope'', ''from'')"
  "ToLower U ''b'' = ''b''" "ToLower U ''envelope.from'' = ''envelope.from''"
  by (simp_all add: splitVar_def ToLower_def isASCII_def lowerByte_def is_upper_def)

theorem valid_vars_expand_witness:
  "usedVarsAreValid (uni exampleHost) (Script (exampleData {''variables''})) ''a${b}''
     = (True, Script (exampleData {''variables''})) \<and>
   (\<exists>v. expandVars exampleHost (exampleData {''variables'', ''envelope''}) ''a${b}'' = Inr v)"
proof -
  have s: "segments ''a${b}'' = [Lit CHR ''a'', Ref ''b'']" by code_simp
  have a: "Atoi ''b'' = None" "IsValidIdentifier ''b''" by code_simp+
  have e: "usedVarsAreValid (uni exampleHost) (Script (exampleData {''variables''})) ''a${b}''
     = (True, Script (exampleData {''variables''}))"
    by (simp add: usedVarsAreValid_def usedVars_def s segmentNames_def a IsVarUsable_def RequiresExtension_def
        example_defs splitVar_examples)
  show ?thesis
    using e valid_vars_expand [OF e, of "exampleData {''variables'', ''envelope''}"] by (simp add: example_defs)
qed

text \<open>
  The condition on \<open>ihave\<close> is needed: under \<open>ihave "envelope"\<close> a reference to the envelope is
  accepted, and it panics when it is expanded, since nothing is guarded any more.
\<close>

lemma guarded_reference_panics:
  assumes "''variables'' \<in> extensions s" "''envelope'' \<notin> extensions s" "guarded s ''envelope'' \<le> 0"
    "13 \<le> MaxVariableNameLen (opts s)" "Script d = s"
  shows "fst (usedVarsAreValid (uni h) (s\<lparr>guarded := (guarded s)(''envelope'' := 1)\<rparr>) ''${envelope.from}'')"
    "expandVars h d ''${envelope.from}'' = Inl (Panic ''envelope.from'')"
proof -
  have g: "segments ''${envelope.from}'' = [Ref ''envelope.from'']" by code_simp
  have a: "Atoi ''envelope.from'' = None" "IsValidIdentifier ''from''" by code_simp+
  show "fst (usedVarsAreValid (uni h) (s\<lparr>guarded := (guarded s)(''envelope'' := 1)\<rparr>) ''${envelope.from}'')"
    using assms by (simp add: usedVarsAreValid_def usedVars_def g segmentNames_def a IsVarUsable_def RequiresExtension_def
        splitVar_examples)
  show "expandVars h d ''${envelope.from}'' = Inl (Panic ''envelope.from'')"
    using assms by (simp add: expandVars_def refValue_def g a Var_def splitVar_examples RequiresExtension_def)
qed

text \<open>
  The namespaces that a running script can refer to: its own variables, and those of \<open>env\<close>,
  \<open>envelope\<close> and \<open>global\<close> with their extensions.
\<close>

definition usableNamespaces :: "script \<Rightarrow> bytes set" where
  "usableNamespaces s =
     {[]} \<union> (if requiresExt s YariloEnvironmentExtension then {''env''} else {}) \<union>
     (if requiresExt s ''envelope'' then {''envelope''} else {}) \<union> (if requiresExt s ''include'' then {''global''} else {})"

lemma Var_defined: "(\<exists>v. Var h d n = Inr v) \<longleftrightarrow> fst (splitVar (uni h) n) \<in> usableNamespaces (Script d)"
  by (auto simp: Var_def usableNamespaces_def split: prod.split option.split)

lemma expandSegments_panics:
  assumes "Ref n \<in> set xs" "\<nexists>v. refValue h d n = Inr v"
  shows "\<exists>m. Ref m \<in> set xs \<and> expandSegments h d xs = Inl (Panic m)"
  using assms(1)
proof (induction xs)
  case (Cons x xs)
  have panic: "refValue h d m = Inl e \<Longrightarrow> e = Panic m" for m e
    by (auto simp: refValue_def split: option.splits if_splits sum.splits)
  show ?case
  proof (cases "\<exists>m e. x = Ref m \<and> refValue h d m = Inl e")
    case True
    then show ?thesis using panic by auto
  next
    case False
    then have "Ref n \<in> set xs" using Cons.prems assms(2) by (cases "refValue h d n") auto
    then obtain m where "Ref m \<in> set xs" "expandSegments h d xs = Inl (Panic m)" using Cons.IH by blast
    then show ?thesis using False by (cases x) (auto split: sum.split)
  qed
qed simp

lemma Atoi_namespace:
  assumes "Atoi n = Some k"
  shows "fst (splitVar U n) = []"
proof -
  have "list_all (\<lambda>c. is_digit c \<or> c = CHR ''-'' \<or> c = CHR ''+'') n"
    using assms by (auto simp: Atoi_def all_digits_def Let_def list_all_iff split: list.splits if_splits)
  then have "isASCII n" "CHR ''.'' \<notin> set n" by (auto simp: isASCII_def list_all_iff char_class)
  then have "CHR ''.'' \<notin> set (ToLower U n)" by (auto simp: ToLower_ascii lowerByte_eq char_class dest!: sym [of "CHR ''.''"])
  then show ?thesis
    by (cases "Cut (ToLower U n) CHR ''.''") (auto simp: splitVar_def dest: Cut_eq)
qed

lemma refValue_defined: "(\<exists>v. refValue h d n = Inr v) \<longleftrightarrow> fst (splitVar (uni h) n) \<in> usableNamespaces (Script d)"
proof (cases "\<exists>k \<ge> 0. Atoi n = Some k")
  case True
  then obtain k where "Atoi n = Some k" "k \<ge> 0" by blast
  then show ?thesis using Atoi_namespace [of n k "uni h"] by (simp add: refValue_def usableNamespaces_def)
next
  case False
  then have "(\<exists>v. refValue h d n = Inr v) \<longleftrightarrow> (\<exists>v. Var h d n = Inr v)"
    by (auto simp: refValue_def split: option.splits sum.splits)
  then show ?thesis by (simp add: Var_defined)
qed

text \<open>
  C40. Nothing else protects a script from that panic: in a script that has \<open>variables\<close>,
  expanding a string panics exactly when one of its references is to a namespace that is unknown
  or whose extension the script does not have, and the panic names a reference of the string.
\<close>

theorem unknown_namespace_panics:
  assumes "requiresExt (Script d) ''variables''"
  shows "(\<exists>m. Ref m \<in> set (segments str) \<and> expandVars h d str = Inl (Panic m)) \<longleftrightarrow>
    (\<exists>n. Ref n \<in> set (segments str) \<and> fst (splitVar (uni h) n) \<notin> usableNamespaces (Script d))"
proof
  assume "\<exists>m. Ref m \<in> set (segments str) \<and> expandVars h d str = Inl (Panic m)"
  then obtain m where "expandSegments h d (segments str) = Inl (Panic m)" using assms by (auto simp: expandVars_def)
  then show "\<exists>n. Ref n \<in> set (segments str) \<and> fst (splitVar (uni h) n) \<notin> usableNamespaces (Script d)"
    using expandSegments_ok [of "segments str" h d] by (auto simp: refValue_defined)
next
  assume "\<exists>n. Ref n \<in> set (segments str) \<and> fst (splitVar (uni h) n) \<notin> usableNamespaces (Script d)"
  then obtain n where "Ref n \<in> set (segments str)" "\<nexists>v. refValue h d n = Inr v" by (auto simp: refValue_defined)
  from expandSegments_panics [OF this] assms
  show "\<exists>m. Ref m \<in> set (segments str) \<and> expandVars h d str = Inl (Panic m)" by (simp add: expandVars_def)
qed

theorem unknown_namespace_panics_witness:
  "expandVars exampleHost (exampleData {''variables''}) ''a${foo.bar}'' = Inl (Panic ''foo.bar'')"
proof -
  have s: "segments ''a${foo.bar}'' = [Lit CHR ''a'', Ref ''foo.bar'']" by code_simp
  have "splitVar (uni exampleHost) ''foo.bar'' = (''foo'', ''bar'')"
    by (simp add: splitVar_def ToLower_def isASCII_def lowerByte_def is_upper_def)
  moreover have "''foo'' \<notin> usableNamespaces (Script (exampleData {''variables''}))" by (simp add: usableNamespaces_def)
  ultimately show ?thesis
    using unknown_namespace_panics [of "exampleData {''variables''}" "''a${foo.bar}''" exampleHost]
    by (simp add: s RequiresExtension_def example_defs)
qed

text \<open>
  \<open>Copy\<close> does not copy the flags: the copy has none, and the flags of the original are
  overwritten with empty strings.
\<close>

theorem copy_loses_flags:
  assumes "RFlags d = Some fs"
  shows "RFlags (fst (Copy d)) = None \<and> RFlags (snd (Copy d)) = Some (replicate (length fs) [])"
  using assms by (simp add: Copy_def NewRuntimeData_def)

theorem copy_loses_flags_witness:
  "RFlags (snd (Copy ((exampleData {})\<lparr>RFlags := Some [''Seen'']\<rparr>))) = Some [[]]"
  using copy_loses_flags [of "(exampleData {})\<lparr>RFlags := Some [''Seen'']\<rparr>"] by simp

end
