(* ===== verification/Matching.thy ===== *)
theory Matching
  imports Relational Runtime_Laws
begin

text \<open>
  Matching of strings: \<open>interp/match.go\<close>, \<open>interp/test_string.go\<close> and
  \<open>interp/matchertest.go\<close>.  The regular expression engines (\<open>rsc.io/binaryregexp\<close> and,
  for arbitrary patterns, \<open>regexp\<close>) are the fields \<open>binaryCompile\<close> and
  \<open>regexpCompile\<close> of the host: an expression gives no matcher, or a function from a text to
  the list of submatches.
\<close>

section \<open>Sieve patterns as regular expressions\<close>

definition metaUnescaped :: "nat list" where
  "metaUnescaped = map of_char ''.+()|[]{}^$''"

definition metaEscaped :: "nat list" where
  "metaEscaped = of_char BACKSLASH # map of_char ''?*.+()|[]{}^$''"

text \<open>The loop of \<open>patternToRegex\<close>: the text written and the final value of \<open>escaped\<close>.\<close>

fun patternLoop :: "bool \<Rightarrow> nat list \<Rightarrow> bytes \<times> bool" where
  "patternLoop escaped [] = ([], escaped)"
| "patternLoop escaped (chr # rs) =
     (if \<not> escaped then
        if chr = of_char BACKSLASH then patternLoop True rs
        else (case patternLoop False rs of (out, e) \<Rightarrow>
          (if chr = of_char CHR ''?'' then ''(.)'' @ out
           else if chr = of_char CHR ''*'' then ''((?s:.*?))'' @ out
           else if chr \<in> set metaUnescaped then BACKSLASH # encodeRune chr @ out
           else encodeRune chr @ out, e))
      else (case patternLoop False rs of (out, e) \<Rightarrow>
        (if chr \<in> set metaEscaped then BACKSLASH # encodeRune chr @ out else encodeRune chr @ out, e)))"

definition patternToRegex :: "bytes \<Rightarrow> bool \<Rightarrow> bytes" where
  "patternToRegex pattern caseFold =
     (if caseFold then ''(?i)'' else []) @ ''^'' @
     (case patternLoop False (runes pattern) of (out, escaped) \<Rightarrow> if escaped then out else out @ ''$'')"

record compiled_matcher =
  Regexp :: bytes
  Octet :: bool
  loaded :: bool

definition noMatcher :: compiled_matcher where
  "noMatcher = \<lparr>Regexp = [], Octet = False, loaded = False\<rparr>"

definition restore :: "host \<Rightarrow> compiled_matcher \<Rightarrow> compiled_matcher option" where
  "restore h cm =
     (case (if Octet cm then binaryCompile h (Regexp cm) else regexpCompile h (Regexp cm)) of
        None \<Rightarrow> None
      | Some f \<Rightarrow> Some (cm\<lparr>loaded := True\<rparr>))"

definition compileMatcher :: "host \<Rightarrow> bytes \<Rightarrow> bool \<Rightarrow> bool \<Rightarrow> compiled_matcher option" where
  "compileMatcher h pattern octet caseFold =
     restore h \<lparr>Regexp = patternToRegex pattern caseFold, Octet = octet, loaded = False\<rparr>"

definition compileMatcherRegex :: "host \<Rightarrow> bytes \<Rightarrow> bool \<Rightarrow> compiled_matcher option" where
  "compileMatcherRegex h regex octet = restore h \<lparr>Regexp = regex, Octet = octet, loaded = False\<rparr>"

text \<open>The submatches of a search; nil when there is none.\<close>

definition matchResult :: "bytes list option \<Rightarrow> bool \<times> bytes list" where
  "matchResult m = (case m of None \<Rightarrow> (False, []) | Some ms \<Rightarrow> (ms \<noteq> [], ms))"

definition Match :: "host \<Rightarrow> compiled_matcher \<Rightarrow> bytes \<Rightarrow> (exec_error, bool \<times> bytes list) result" where
  "Match h cm value =
     (case (if Octet cm then binaryCompile h (Regexp cm) else regexpCompile h (Regexp cm)) of
        None \<Rightarrow> Inl (Panic ''nil matcher'')
      | Some f \<Rightarrow> Inr (matchResult (f value)))"

definition matchOctet :: "host \<Rightarrow> bytes \<Rightarrow> bytes \<Rightarrow> bool \<Rightarrow> (exec_error, bool \<times> bytes list) result" where
  "matchOctet h pattern value caseFold =
     (case binaryCompile h (patternToRegex pattern caseFold) of
        None \<Rightarrow> Inl ErrRegex
      | Some f \<Rightarrow> Inr (matchResult (f value)))"

definition matchUnicode :: "host \<Rightarrow> bytes \<Rightarrow> bytes \<Rightarrow> bool \<Rightarrow> (exec_error, bool \<times> bytes list) result" where
  "matchUnicode h pattern value caseFold =
     (case regexpCompile h (patternToRegex pattern caseFold) of
        None \<Rightarrow> Inl ErrRegex
      | Some f \<Rightarrow> Inr (matchResult (f value)))"

definition matchRegex :: "host \<Rightarrow> bytes \<Rightarrow> bytes \<Rightarrow> (exec_error, bool \<times> bytes list) result" where
  "matchRegex h pattern value =
     (case binaryCompile h pattern of
        None \<Rightarrow> Inl ErrRegex
      | Some f \<Rightarrow> Inr (case f value of None \<Rightarrow> (False, []) | Some ms \<Rightarrow> (True, ms)))"

section \<open>Comparators and match types\<close>

datatype match_type =
  MatchContains | MatchIs | MatchMatches | MatchValue | MatchCount | MatchRegex | MatchList

definition ComparatorOctet :: bytes where
  "ComparatorOctet = ''i;octet''"

definition ComparatorASCIICaseMap :: bytes where
  "ComparatorASCIICaseMap = ''i;ascii-casemap''"

definition ComparatorASCIINumeric :: bytes where
  "ComparatorASCIINumeric = ''i;ascii-numeric''"

definition ComparatorUnicodeCaseMap :: bytes where
  "ComparatorUnicodeCaseMap = ''i;unicode-casemap''"

lemmas comparators = ComparatorOctet_def ComparatorASCIICaseMap_def ComparatorASCIINumeric_def
  ComparatorUnicodeCaseMap_def

definition IsOctet :: "bytes \<Rightarrow> bool" where
  "IsOctet c \<longleftrightarrow> c = ComparatorOctet \<or> c = ComparatorASCIICaseMap"

definition IsCaseMap :: "bytes \<Rightarrow> bool" where
  "IsCaseMap c \<longleftrightarrow> c = ComparatorASCIICaseMap \<or> c = ComparatorUnicodeCaseMap"

definition toLowerASCII :: "bytes \<Rightarrow> bytes" where
  "toLowerASCII s = map lowerByte s"

definition testString ::
  "host \<Rightarrow> bytes \<Rightarrow> match_type \<Rightarrow> bytes \<Rightarrow> bytes \<Rightarrow> bytes \<Rightarrow> (exec_error, bool \<times> bytes list) result" where
  "testString h comparator m rel value key =
     (if comparator = ComparatorOctet then
        (case m of
           MatchContains \<Rightarrow> Inr (Contains value key, [])
         | MatchIs \<Rightarrow> Inr (value = key, [])
         | MatchMatches \<Rightarrow> matchOctet h key value False
         | MatchRegex \<Rightarrow> matchRegex h key value
         | MatchValue \<Rightarrow> Inr (CompareString rel value key, [])
         | MatchCount \<Rightarrow> Inl (Panic ''testString should not be used with MatchCount'')
         | MatchList \<Rightarrow> Inr (False, []))
      else if comparator = ComparatorASCIINumeric then
        (case m of
           MatchContains \<Rightarrow> Inl ErrComparatorMatchUnsupported
         | MatchIs \<Rightarrow> Inr (CompareNumericValue RelEqual (numericValue (uni h) value) (numericValue (uni h) key), [])
         | MatchMatches \<Rightarrow> Inl ErrComparatorMatchUnsupported
         | MatchRegex \<Rightarrow> Inl ErrComparatorMatchUnsupported
         | MatchValue \<Rightarrow> Inr (CompareNumericValue rel (numericValue (uni h) value) (numericValue (uni h) key), [])
         | MatchCount \<Rightarrow> Inl (Panic ''testString should not be used with MatchCount'')
         | MatchList \<Rightarrow> Inr (False, []))
      else if comparator = ComparatorASCIICaseMap then
        (case m of
           MatchContains \<Rightarrow> Inr (Contains (toLowerASCII value) (toLowerASCII key), [])
         | MatchIs \<Rightarrow> Inr (toLowerASCII value = toLowerASCII key, [])
         | MatchMatches \<Rightarrow> matchOctet h key value True
         | MatchRegex \<Rightarrow> matchRegex h key (toLowerASCII value)
         | MatchValue \<Rightarrow> Inr (CompareString rel (toLowerASCII value) (toLowerASCII key), [])
         | MatchCount \<Rightarrow> Inl (Panic ''testString should not be used with MatchCount'')
         | MatchList \<Rightarrow> Inr (False, []))
      else if comparator = ComparatorUnicodeCaseMap then
        (case m of
           MatchContains \<Rightarrow> Inr (Contains (ToLower (uni h) value) (ToLower (uni h) key), [])
         | MatchIs \<Rightarrow> Inr (EqualFold (uni h) value key, [])
         | MatchMatches \<Rightarrow> matchUnicode h key value True
         | MatchRegex \<Rightarrow> matchRegex h key (ToLower (uni h) value)
         | MatchValue \<Rightarrow> Inr (CompareString rel (toLowerASCII value) (toLowerASCII key), [])
         | MatchCount \<Rightarrow> Inl (Panic ''testString should not be used with MatchCount'')
         | MatchList \<Rightarrow> Inr (False, []))
      else Inr (False, []))"

section \<open>The shared matcher\<close>

record matcher_test =
  Comparator :: bytes
  MMatch :: match_type
  Relational :: bytes
  Key :: "bytes list"
  keyCompiled :: "compiled_matcher list option"
  matchCnt :: int

definition newMatcherTest :: matcher_test where
  "newMatcherTest =
     \<lparr>Comparator = [], MMatch = MatchIs, Relational = [], Key = [], keyCompiled = None, matchCnt = 0\<rparr>"

definition isCount :: "matcher_test \<Rightarrow> bool" where
  "isCount t \<longleftrightarrow> MMatch t = MatchCount"

datatype load_error =
    MissingRequire bytes
  | MultipleMatchTypes
  | ListWithComparator
  | UnknownRelational
  | UnsupportedComparator
  | MalformedPattern
  | NonNumericCount
  | SpecError bytes
  | MalformedEncodedCharacter
  | UnsupportedExtension
  | UnsupportedCommand bytes
  | UnsupportedTest bytes
  | InvalidName
  | ConflictingModifiers
  | CannotSetVariable
  | LoadPanic bytes

text \<open>
  The keys without variables, compiled; the others stay unloaded.  \<open>usedVars\<close> is asked for
  every key and may record the use of a guarded extension.
\<close>

fun compileKeys ::
  "host \<Rightarrow> (bytes \<Rightarrow> compiled_matcher option) \<Rightarrow> script \<Rightarrow> bytes list \<Rightarrow>
     (load_error, compiled_matcher list) result \<times> script" where
  "compileKeys h compile s [] = (Inr [], s)"
| "compileKeys h compile s (k # ks) =
     (case usedVars (uni h) s k of (vs, s1) \<Rightarrow>
        if vs \<noteq> [] then
          (case compileKeys h compile s1 ks of
             (Inl e, s2) \<Rightarrow> (Inl e, s2)
           | (Inr cs, s2) \<Rightarrow> (Inr (noMatcher # cs), s2))
        else (case compile k of
             None \<Rightarrow> (Inl MalformedPattern, s1)
           | Some c \<Rightarrow>
               (case compileKeys h compile s1 ks of
                  (Inl e, s2) \<Rightarrow> (Inl e, s2)
                | (Inr cs, s2) \<Rightarrow> (Inr (c # cs), s2))))"

definition checkRelational :: "script \<Rightarrow> matcher_test \<Rightarrow> (load_error, unit) result \<times> script" where
  "checkRelational s t =
     (if MMatch t = MatchCount \<or> MMatch t = MatchValue then
        (case RequiresExtension s ''relational'' of (r, s') \<Rightarrow>
           if \<not> r then (Inl (MissingRequire ''relational''), s')
           else if Relational t \<in> set relationals then (Inr (), s') else (Inl UnknownRelational, s'))
      else (Inr (), s))"

definition defaultComparator :: "matcher_test \<Rightarrow> matcher_test" where
  "defaultComparator t =
     (if Comparator t = [] then
        t\<lparr>Comparator := (if MMatch t = MatchCount then ComparatorASCIINumeric else ComparatorASCIICaseMap)\<rparr>
      else t)"

text \<open>The compilation steps of \<open>setKey\<close>, after the comparator is known.\<close>

definition setCompiled :: "host \<Rightarrow> script \<Rightarrow> matcher_test \<Rightarrow> (load_error, matcher_test) result \<times> script" where
  "setCompiled h s t =
     (let octet = IsOctet (Comparator t); caseFold = IsCaseMap (Comparator t) in
      if MMatch t = MatchMatches then
        (case compileKeys h (\<lambda>k. compileMatcher h k octet caseFold) s (Key t) of
           (Inl e, s') \<Rightarrow> (Inl e, s')
         | (Inr cs, s') \<Rightarrow> (Inr (t\<lparr>keyCompiled := Some cs\<rparr>), s'))
      else if MMatch t = MatchRegex then
        (case RequiresExtension s ''regex'' of (r, s1) \<Rightarrow>
           if \<not> r then (Inl (MissingRequire ''regex''), s1)
           else (case compileKeys h (\<lambda>k. compileMatcherRegex h k octet) s1 (Key t) of
                   (Inl e, s') \<Rightarrow> (Inl e, s')
                 | (Inr cs, s') \<Rightarrow> (Inr (t\<lparr>keyCompiled := Some cs\<rparr>), s')))
      else (Inr t, s))"

definition setKey :: "host \<Rightarrow> script \<Rightarrow> matcher_test \<Rightarrow> bytes list \<Rightarrow> (load_error, matcher_test) result \<times> script" where
  "setKey h s t0 k =
     (let t = t0\<lparr>Key := k\<rparr> in
      if matchCnt t > 1 then (Inl MultipleMatchTypes, s)
      else if MMatch t = MatchList then
        (case RequiresExtension s ''extlists'' of (r, s1) \<Rightarrow>
           if \<not> r then (Inl (MissingRequire ''extlists''), s1)
           else if Comparator t \<noteq> [] then (Inl ListWithComparator, s1)
           else (Inr t, s1))
      else (case checkRelational s t of
        (Inl e, s1) \<Rightarrow> (Inl e, s1)
      | (Inr _, s1) \<Rightarrow>
          (let t1 = defaultComparator t in
           if Comparator t1 \<notin> {ComparatorOctet, ComparatorUnicodeCaseMap, ComparatorASCIICaseMap, ComparatorASCIINumeric}
           then (Inl UnsupportedComparator, s1)
           else (case setCompiled h s1 t1 of
             (Inl e, s2) \<Rightarrow> (Inl e, s2)
           | (Inr t2, s2) \<Rightarrow>
               if MMatch t2 = MatchCount \<and> Comparator t2 \<noteq> ComparatorASCIINumeric then (Inl NonNumericCount, s2)
               else (Inr t2, s2)))))"

fun countKeys :: "host \<Rightarrow> runtime \<Rightarrow> bytes \<Rightarrow> 64 word \<Rightarrow> bytes list \<Rightarrow> (exec_error, bool) result" where
  "countKeys h d rel value [] = Inr False"
| "countKeys h d rel value (k # ks) =
     (case expandVars h d k of
        Inl e \<Rightarrow> Inl e
      | Inr ke \<Rightarrow>
          (case ParseUint 64 ke of
             None \<Rightarrow> countKeys h d rel value ks
           | Some n \<Rightarrow> if CompareUint64 rel value (of_nat n) then Inr True else countKeys h d rel value ks))"

definition countMatches :: "host \<Rightarrow> matcher_test \<Rightarrow> runtime \<Rightarrow> 64 word \<Rightarrow> (exec_error, bool) result" where
  "countMatches h t d value =
     (if \<not> isCount t then Inl (Panic ''countMatches can be called only with MatchCount matcher'')
      else countKeys h d (Relational t) value (Key t))"

text \<open>The compiled key at an index, when \<open>keyCompiled\<close> is set and that entry is loaded.\<close>

definition compiledAt :: "matcher_test \<Rightarrow> nat \<Rightarrow> compiled_matcher option" where
  "compiledAt t i =
     (case keyCompiled t of
        None \<Rightarrow> None
      | Some cs \<Rightarrow> if i < length cs \<and> loaded (cs ! i) then Some (cs ! i) else None)"

text \<open>One comparison; the key is expanded twice, as in the source.\<close>

definition matchKey :: "host \<Rightarrow> matcher_test \<Rightarrow> runtime \<Rightarrow> bytes \<Rightarrow> nat \<Rightarrow> bytes \<Rightarrow> (exec_error, bool \<times> bytes list) result" where
  "matchKey h t d source i key =
     (case compiledAt t i of
        Some cm \<Rightarrow> Match h cm source
      | None \<Rightarrow>
          (case expandVars h d key of
             Inl e \<Rightarrow> Inl e
           | Inr key1 \<Rightarrow>
               (case expandVars h d key1 of
                  Inl e \<Rightarrow> Inl e
                | Inr key2 \<Rightarrow> testString h (Comparator t) (MMatch t) (Relational t) source key2)))"

fun tryMatchFrom :: "host \<Rightarrow> matcher_test \<Rightarrow> bytes \<Rightarrow> nat \<Rightarrow> bytes list \<Rightarrow> bool exec" where
  "tryMatchFrom h t source i [] d = (Inr False, d)"
| "tryMatchFrom h t source i (key # ks) d =
     (case matchKey h t d source i key of
        Inl e \<Rightarrow> (Inl e, d)
      | Inr (ok, ms) \<Rightarrow>
          if ok then
            (Inr True, if MMatch t = MatchMatches \<or> MMatch t = MatchRegex then d\<lparr>MatchVariables := ms\<rparr> else d)
          else tryMatchFrom h t source (Suc i) ks d)"

definition tryMatch :: "host \<Rightarrow> matcher_test \<Rightarrow> bytes \<Rightarrow> bool exec" where
  "tryMatch h t source d = tryMatchFrom h t source 0 (Key t) d"

definition expandListName :: "bytes \<Rightarrow> bytes" where
  "expandListName name = (if HasPrefix name '':'' then ''urn:ietf:params:sieve'' @ name else name)"

fun listKeys :: "host \<Rightarrow> (bytes \<Rightarrow> bytes \<Rightarrow> (exec_error, bool) result) \<Rightarrow> bytes \<Rightarrow> bytes list \<Rightarrow> bool exec" where
  "listKeys h contains source [] d = (Inr False, d)"
| "listKeys h contains source (k # ks) d =
     (case expandVars h d k of
        Inl e \<Rightarrow> (Inl e, d)
      | Inr ke \<Rightarrow>
          (case contains (expandListName ke) source of
             Inl e \<Rightarrow> (Inl e, d)
           | Inr found \<Rightarrow>
               if found then
                 (Inr True, if requiresExt (Script d) ''variables'' then d\<lparr>MatchVariables := [source]\<rparr> else d)
               else listKeys h contains source ks d))"

definition tryMatchList :: "host \<Rightarrow> matcher_test \<Rightarrow> bytes \<Rightarrow> bool exec" where
  "tryMatchList h t source d =
     (case ListContains h of
        None \<Rightarrow> (Inl (ErrNoInterface ''ExternalListChecker''), d)
      | Some contains \<Rightarrow> listKeys h contains source (Key t) d)"

section \<open>Addresses\<close>

datatype address_part = LocalPart | Domain | All | User | Detail

datatype address_error = MissingAt | EmptyLocalPart | EmptyDomain

definition split :: "unicode_tables \<Rightarrow> bytes \<Rightarrow> (address_error, bytes \<times> bytes) result" where
  "split U addr =
     (if EqualFold U addr ''postmaster'' then Inr (addr, [])
      else (case splitLast addr CHR ''@'' of
              None \<Rightarrow> Inl MissingAt
            | Some (mailbox, domain) \<Rightarrow>
                if mailbox = [] then Inl EmptyLocalPart
                else if domain = [] then Inl EmptyDomain
                else Inr (mailbox, domain)))"

text \<open>\<open>strings.IndexAny\<close>: the byte index of the first rune of the text that is among the given ones.\<close>

fun indexAny :: "(nat \<times> bytes) list \<Rightarrow> nat list \<Rightarrow> nat option" where
  "indexAny [] chars = None"
| "indexAny ((r, b) # cs) chars =
     (if r \<in> set chars then Some 0 else map_option (\<lambda>i. length b + i) (indexAny cs chars))"

definition splitSubAddress :: "bytes \<Rightarrow> bytes \<Rightarrow> bytes \<times> bytes \<times> bool" where
  "splitSubAddress localPart sep0 =
     (let sep = (if sep0 = [] then ''+'' else sep0) in
      case indexAny (runeChunks localPart) (runes sep) of
        None \<Rightarrow> (localPart, [], False)
      | Some idx \<Rightarrow> (take idx localPart, drop (idx + 1) localPart, True))"

text \<open>The part of an address that is compared; \<open>None\<close> when the test fails without comparing.\<close>

definition addressValue :: "host \<Rightarrow> runtime \<Rightarrow> address_part \<Rightarrow> bytes \<Rightarrow> bytes option" where
  "addressValue h d part address0 =
     (let address = (if address0 = ''<>'' then [] else address0) in
      if address \<noteq> [] then
        (case part of
           All \<Rightarrow> Some address
         | LocalPart \<Rightarrow> (case split (uni h) address of Inl e \<Rightarrow> None | Inr (l, dm) \<Rightarrow> Some l)
         | Domain \<Rightarrow> (case split (uni h) address of Inl e \<Rightarrow> None | Inr (l, dm) \<Rightarrow> Some dm)
         | User \<Rightarrow> (case split (uni h) address of Inl e \<Rightarrow> None
                  | Inr (l, dm) \<Rightarrow> (case splitSubAddress l (SubAddressSep (opts (Script d))) of (u, det, has) \<Rightarrow> Some u))
         | Detail \<Rightarrow> (case split (uni h) address of Inl e \<Rightarrow> None
                  | Inr (l, dm) \<Rightarrow> (case splitSubAddress l (SubAddressSep (opts (Script d))) of (u, det, has) \<Rightarrow>
                                     if has then Some det else None)))
      else if part = Detail then None else Some [])"

definition testAddress :: "host \<Rightarrow> matcher_test \<Rightarrow> address_part \<Rightarrow> bytes \<Rightarrow> bool exec" where
  "testAddress h t part address d =
     (case addressValue h d part address of
        None \<Rightarrow> (Inr False, d)
      | Some v \<Rightarrow> tryMatch h t v d)"

end
