(* ===== verification/Matching_Laws.thy ===== *)
theory Matching_Laws
  imports Matching
begin

text \<open>
  What \<open>:matches\<close> means.  A Sieve pattern is a list of pieces (a character, \<open>?\<close>, \<open>*\<close>);
  \<open>patternToRegex\<close> renders the pieces; and on a rendered expression the engine does what
  its documentation promises: \<open>globMatch\<close>, an anchored search whose stars are lazy.  The
  relation \<open>globs\<close> with the reading \<open>wildcards\<close> of a pattern is the specification of RFC 5228: a
  text is the pattern with its wildcards filled in.
\<close>

section \<open>Patterns as pieces\<close>

datatype 'a piece = PChar 'a | POne | PMany

fun pieces :: "bool \<Rightarrow> nat list \<Rightarrow> nat piece list \<times> bool" where
  "pieces escaped [] = ([], escaped)"
| "pieces escaped (r # rs) =
     (if \<not> escaped \<and> r = of_char BACKSLASH then pieces True rs
      else (case pieces False rs of (ps, e) \<Rightarrow>
        ((if \<not> escaped \<and> r = of_char CHR ''?'' then POne
          else if \<not> escaped \<and> r = of_char CHR ''*'' then PMany else PChar r) # ps, e)))"

fun renderPiece :: "nat piece \<Rightarrow> bytes" where
  "renderPiece POne = ''(.)''"
| "renderPiece PMany = ''((?s:.*?))''"
| "renderPiece (PChar r) = (if r \<in> set metaEscaped then BACKSLASH # encodeRune r else encodeRune r)"

lemma meta_escaped:
  "r \<noteq> of_char BACKSLASH \<Longrightarrow> r \<noteq> of_char CHR ''?'' \<Longrightarrow> r \<noteq> of_char CHR ''*'' \<Longrightarrow>
   r \<in> set metaEscaped \<longleftrightarrow> r \<in> set metaUnescaped"
  by (auto simp: metaEscaped_def metaUnescaped_def)

lemma patternLoop_pieces:
  "patternLoop escaped rs = (case pieces escaped rs of (ps, e) \<Rightarrow> (concat (map renderPiece ps), e))"
  by (induction escaped rs rule: patternLoop.induct) (auto simp: meta_escaped split: prod.splits)

lemma patternToRegex_pieces:
  "pieces False (runes p) = (ps, e) \<Longrightarrow>
   patternToRegex p cf = (if cf then ''(?i)'' else []) @ ''^'' @ concat (map renderPiece ps) @ (if e then [] else ''$'')"
  by (simp add: patternToRegex_def patternLoop_pieces)

section \<open>The same pieces, byte by byte\<close>

fun bytePiece :: "nat piece \<Rightarrow> char piece list" where
  "bytePiece POne = [POne]"
| "bytePiece PMany = [PMany]"
| "bytePiece (PChar r) = map PChar (encodeRune r)"

definition bytePieces :: "nat piece list \<Rightarrow> char piece list" where
  "bytePieces ps = concat (map bytePiece ps)"

fun renderByte :: "char piece \<Rightarrow> bytes" where
  "renderByte POne = ''(.)''"
| "renderByte PMany = ''((?s:.*?))''"
| "renderByte (PChar c) = (if of_char c \<in> set metaEscaped then [BACKSLASH, c] else [c])"

definition octetRegex :: "bool \<Rightarrow> char piece list \<Rightarrow> bytes" where
  "octetRegex cf ps = (if cf then ''(?i)'' else []) @ ''^'' @ concat (map renderByte ps) @ ''$''"

lemma metaEscaped_ascii: "r \<in> set metaEscaped \<Longrightarrow> r < 128"
  by (auto simp: metaEscaped_def)

lemma encodeRune_ascii: "r < 128 \<Longrightarrow> encodeRune r = [char_of r]"
  by (simp add: encodeRune_def)

lemma encodeRune_wide: "128 \<le> r \<Longrightarrow> c \<in> set (encodeRune r) \<Longrightarrow> 128 \<le> ord c"
proof -
  assume "128 \<le> r" "c \<in> set (encodeRune r)"
  moreover have "r div 262144 < 16" if "r \<le> 1114111" using that div_le_mono [of r 1114111 262144] by simp
  moreover have "r div 4096 < 16" if "r < 65536" using that by (simp add: less_mult_imp_div_less)
  moreover have "r div 64 < 32" if "r < 2048" using that by (simp add: less_mult_imp_div_less)
  ultimately show ?thesis
    by (auto simp: encodeRune_def validRune_def split: if_splits)
qed

lemma renderPiece_bytes: "renderPiece p = concat (map renderByte (bytePiece p))"
proof (cases p)
  case (PChar r)
  show ?thesis
  proof (cases "r < 128")
    case True
    then show ?thesis by (simp add: PChar encodeRune_ascii)
  next
    case False
    have "concat (map (renderByte \<circ> PChar) cs) = cs" if "\<forall>c \<in> set cs. 128 \<le> ord c" for cs
      using that by (induction cs) (auto dest: metaEscaped_ascii)
    then show ?thesis
      using False metaEscaped_ascii [of r] encodeRune_wide [of r] by (auto simp: PChar)
  qed
qed simp_all

lemma octetRegex_pattern:
  assumes "pieces False (runes p) = (ps, False)"
  shows "patternToRegex p cf = octetRegex cf (bytePieces ps)"
proof -
  have "concat (map renderPiece ps) = concat (map renderByte (bytePieces ps))"
    by (induction ps) (simp_all add: bytePieces_def renderPiece_bytes)
  with patternToRegex_pieces [OF assms] show ?thesis by (simp add: octetRegex_def)
qed

section \<open>Matching\<close>

fun globMatch :: "('a \<Rightarrow> 'a \<Rightarrow> bool) \<Rightarrow> 'a \<Rightarrow> 'a piece list \<Rightarrow> 'a list \<Rightarrow> 'a list list option" where
  "globMatch eqv nl [] v = (if v = [] then Some [] else None)"
| "globMatch eqv nl (PChar a # ps) v =
     (case v of [] \<Rightarrow> None | x # v' \<Rightarrow> if eqv a x then globMatch eqv nl ps v' else None)"
| "globMatch eqv nl (POne # ps) v =
     (case v of [] \<Rightarrow> None
      | x # v' \<Rightarrow> if x = nl then None else map_option (Cons [x]) (globMatch eqv nl ps v'))"
| "globMatch eqv nl (PMany # ps) v =
     (case globMatch eqv nl ps v of
        Some cs \<Rightarrow> Some ([] # cs)
      | None \<Rightarrow>
          (case v of [] \<Rightarrow> None
           | x # v' \<Rightarrow>
               (case globMatch eqv nl (PMany # ps) v' of Some (c # cs) \<Rightarrow> Some ((x # c) # cs) | _ \<Rightarrow> None)))"

declare globMatch.simps(4) [simp del]

lemmas globMatch_PMany = globMatch.simps(4)

text \<open>
  The specification (RFC 5228, 2.7.1): a text is a pattern with each \<open>?\<close> filled by one character
  and each \<open>*\<close> by any characters.
\<close>

inductive globs :: "('a \<Rightarrow> 'a \<Rightarrow> bool) \<Rightarrow> 'a piece list \<Rightarrow> 'a list list \<Rightarrow> 'a list \<Rightarrow> bool"
  for eqv :: "'a \<Rightarrow> 'a \<Rightarrow> bool" where
  globs_Nil: "globs eqv [] [] []"
| globs_PChar: "eqv a x \<Longrightarrow> globs eqv ps cs v \<Longrightarrow> globs eqv (PChar a # ps) cs (x # v)"
| globs_POne: "globs eqv ps cs v \<Longrightarrow> globs eqv (POne # ps) ([x] # cs) (x # v)"
| globs_PMany: "globs eqv ps cs v \<Longrightarrow> globs eqv (PMany # ps) (c # cs) (c @ v)"

inductive_cases globs_PMany_elim: "globs eqv (PMany # ps) cs v"

text \<open>How the RFC reads a pattern: a backslash quotes the next character and cannot be the last.\<close>

fun wildcards :: "bytes \<Rightarrow> char piece list option" where
  "wildcards [] = Some []"
| "wildcards (c # s) =
     (if c = BACKSLASH then (case s of [] \<Rightarrow> None | q # t \<Rightarrow> map_option (Cons (PChar q)) (wildcards t))
      else map_option (Cons (if c = CHR ''?'' then POne else if c = CHR ''*'' then PMany else PChar c)) (wildcards s))"

lemma globMatch_sound: "globMatch eqv nl ps v = Some cs \<Longrightarrow> globs eqv ps cs v"
proof (induction eqv nl ps v arbitrary: cs rule: globMatch.induct)
  case (4 eqv nl ps v)
  show ?case
  proof (cases "globMatch eqv nl ps v")
    case (Some cs')
    with 4 show ?thesis using globs_PMany [of eqv ps cs' v "[]"] by (auto simp: globMatch_PMany)
  next
    case None
    with 4(3) obtain x v' c cs' where v: "v = x # v'" "globMatch eqv nl (PMany # ps) v' = Some (c # cs')"
        "cs = (x # c) # cs'"
      by (auto simp: globMatch_PMany [of _ _ _ v] split: list.splits option.splits)
    have "globs eqv (PMany # ps) (c # cs') v'" using 4(2) [OF None v(1)] v(2) by simp
    then obtain w where "v' = c @ w" "globs eqv ps cs' w" by (auto elim: globs_PMany_elim)
    then show ?thesis using globs_PMany [of eqv ps cs' w "x # c"] v by simp
  qed
qed (auto intro: globs.intros split: if_splits list.splits)

lemma globMatch_PMany_Some: "globMatch eqv nl (PMany # ps) v = Some cs \<Longrightarrow> \<exists>c cs'. cs = c # cs'"
  by (subst (asm) globMatch_PMany) (auto split: option.splits list.splits)

lemma globMatch_PMany_append:
  "globMatch eqv nl ps v \<noteq> None \<Longrightarrow> globMatch eqv nl (PMany # ps) (c @ v) \<noteq> None"
proof (induction c)
  case Nil
  then show ?case by (auto simp: globMatch_PMany)
next
  case (Cons x c)
  then obtain cs where "globMatch eqv nl (PMany # ps) (c @ v) = Some cs" by blast
  moreover from globMatch_PMany_Some [OF this] obtain c' cs' where "cs = c' # cs'" by blast
  ultimately show ?case
    by (simp add: globMatch_PMany [of eqv nl ps "x # c @ v"] split: option.split)
qed

lemma globMatch_complete:
  "globs eqv ps cs v \<Longrightarrow> POne \<notin> set ps \<or> nl \<notin> set v \<Longrightarrow> globMatch eqv nl ps v \<noteq> None"
proof (induction rule: globs.induct)
  case (globs_PMany ps cs v c)
  then have "globMatch eqv nl ps v \<noteq> None" by auto
  then show ?case by (rule globMatch_PMany_append)
qed auto

text \<open>Stars are lazy: a shorter capture of a star has no continuation.\<close>

lemma globMatch_lazy:
  "globMatch eqv nl (PMany # ps) v = Some (c # cs) \<Longrightarrow> k < length c \<Longrightarrow> globMatch eqv nl ps (drop k v) = None"
proof (induction v arbitrary: c k)
  case (Cons x v)
  show ?case
  proof (cases "globMatch eqv nl ps (x # v)")
    case None
    with Cons.prems(1) obtain c' where c': "c = x # c'" "globMatch eqv nl (PMany # ps) v = Some (c' # cs)"
      by (auto simp: globMatch_PMany [of eqv nl ps "x # v"] split: option.splits list.splits)
    with None Cons show ?thesis by (cases k) auto
  next
    case (Some a)
    with Cons.prems show ?thesis by (simp add: globMatch_PMany)
  qed
qed (auto simp: globMatch_PMany split: option.splits)

section \<open>The engine\<close>

text \<open>
  What the octet engine promises for rendered ASCII patterns: the expression compiles and a search
  returns the text and the captures of \<open>globMatch\<close>, in which a dot outside \<open>(?s:...)\<close> does not
  match a line feed.  \<open>eqv\<close> is the comparison of characters, equality unless the expression
  folds case.
\<close>

fun asciiPiece :: "char piece \<Rightarrow> bool" where
  "asciiPiece (PChar c) = (ord c < 128)"
| "asciiPiece POne = True"
| "asciiPiece PMany = True"

definition octetEngine :: "host \<Rightarrow> (bool \<Rightarrow> char \<Rightarrow> char \<Rightarrow> bool) \<Rightarrow> bool" where
  "octetEngine h eqv \<longleftrightarrow> eqv False = (=) \<and>
     (\<forall>cf ps. list_all asciiPiece ps \<longrightarrow> (\<exists>f. binaryCompile h (octetRegex cf ps) = Some f \<and>
        (\<forall>v. f v = map_option (Cons v) (globMatch (eqv cf) LF ps v))))"

lemma matchOctet_engine:
  assumes "octetEngine h eqv" and "pieces False (runes key) = (ps, False)" and "list_all asciiPiece (bytePieces ps)"
  shows "matchOctet h key value cf =
    Inr (matchResult (map_option (Cons value) (globMatch (eqv cf) LF (bytePieces ps) value)))"
proof -
  obtain f where "binaryCompile h (octetRegex cf (bytePieces ps)) = Some f"
      "\<forall>v. f v = map_option (Cons v) (globMatch (eqv cf) LF (bytePieces ps) v)"
    using assms(1,3) unfolding octetEngine_def by blast
  then show ?thesis using octetRegex_pattern [OF assms(2), of cf] by (simp add: matchOctet_def)
qed

text \<open>An engine that keeps the promise: it reads a rendered pattern back.\<close>

fun unrender :: "bytes \<Rightarrow> char piece list option" where
  "unrender [] = None"
| "unrender (c # s) =
     (if s = [] then (if c = CHR ''$'' then Some [] else None)
      else if c = BACKSLASH then map_option (Cons (PChar (hd s))) (unrender (tl s))
      else if c = CHR ''('' then
        if HasPrefix s ''.)'' then map_option (Cons POne) (unrender (drop 2 s))
        else if HasPrefix s ''(?s:.*?))'' then map_option (Cons PMany) (unrender (drop 9 s))
        else None
      else map_option (Cons (PChar c)) (unrender s))"

lemma unrender_render: "unrender (concat (map renderByte ps) @ ''$'') = Some ps"
proof (induction ps)
  case (Cons p ps)
  then show ?case
    by (cases p) (auto simp: metaEscaped_def)
qed simp

definition globEngine :: "bytes \<Rightarrow> (bytes \<Rightarrow> bytes list option) option" where
  "globEngine r =
     (let cf = HasPrefix r ''(?i)''; body = drop (if cf then 5 else 1) r in
      map_option (\<lambda>ps v. map_option (Cons v)
        (globMatch (\<lambda>a b. if cf then lowerByte a = lowerByte b else a = b) LF ps v)) (unrender body))"

lemma globEngine_ok:
  "octetEngine (h\<lparr>binaryCompile := globEngine\<rparr>) (\<lambda>cf a b. if cf then lowerByte a = lowerByte b else a = b)"
proof -
  have "globEngine (octetRegex cf ps) = Some (\<lambda>v. map_option (Cons v)
      (globMatch (\<lambda>a b. if cf then lowerByte a = lowerByte b else a = b) LF ps v))" for cf ps
    using unrender_render [of ps] by (cases cf) (simp_all add: globEngine_def octetRegex_def)
  then show ?thesis by (simp add: octetEngine_def)
qed

section \<open>Addresses\<close>

lemma indexAny_Some:
  "indexAny cs chars = Some i \<Longrightarrow>
   \<exists>pre r b post. cs = pre @ (r, b) # post \<and> r \<in> set chars \<and> i = length (concat (map snd pre)) \<and>
     (\<forall>q \<in> set pre. fst q \<notin> set chars)"
proof (induction cs chars arbitrary: i rule: indexAny.induct)
  case (2 r b cs chars)
  show ?case
  proof (cases "r \<in> set chars")
    case True
    with 2 show ?thesis by (intro exI [of _ "[]"]) auto
  next
    case False
    with 2 obtain j pre r' b' post where "i = length b + j" "cs = pre @ (r', b') # post" "r' \<in> set chars"
        "j = length (concat (map snd pre))" "\<forall>q \<in> set pre. fst q \<notin> set chars"
      by auto
    then show ?thesis using False by (intro exI [of _ "(r, b) # pre"]) auto
  qed
qed simp

lemma decodeRune_ascii: "decodeRune (b # s) = (r, w) \<Longrightarrow> r < 128 \<Longrightarrow> w = 1 \<and> r = ord b"
  by (auto simp: decodeRune_def runeError_def cont_def split: if_splits list.splits)

lemma runeChunks_ascii: "(r, b) \<in> set (runeChunks s) \<Longrightarrow> r < 128 \<Longrightarrow> b = [char_of r]"
proof (induction s rule: runeChunks.induct)
  case (2 c s)
  obtain r' w where d: "decodeRune (c # s) = (r', w)" by fastforce
  with 2 show ?case by (auto dest: decodeRune_ascii)
qed simp

lemma indexAny_None: "indexAny cs chars = None \<longleftrightarrow> (\<forall>q \<in> set cs. fst q \<notin> set chars)"
  by (induction cs chars rule: indexAny.induct) auto

text \<open>An ASCII byte is a rune of its own.\<close>

lemma decodeRune_bytes:
  assumes "decodeRune (b # s) = (r, w)" "c \<in> set (take w (b # s))" "ord c < 128"
  shows "r = ord c"
proof (cases "w = 1")
  case True
  then have "c = b" using assms(2) by simp
  then show ?thesis using assms(1,3) by (auto simp: decodeRune_def split: list.splits if_splits)
next
  case False
  have "\<forall>x \<in> set (take w (b # s)). 128 \<le> ord x"
    using assms(1) False
    by (cases s; cases "tl s"; cases "tl (tl s)") (auto simp: decodeRune_def cont_def split: if_splits)
  then show ?thesis using assms(2,3) by fastforce
qed

lemma runeChunks_bytes: "(r, b) \<in> set (runeChunks s) \<Longrightarrow> c \<in> set b \<Longrightarrow> ord c < 128 \<Longrightarrow> r = ord c"
proof (induction s rule: runeChunks.induct)
  case (2 x s)
  obtain r' w where d: "decodeRune (x # s) = (r', w)" by fastforce
  with 2 show ?case by (auto dest: decodeRune_bytes)
qed simp

lemma runes_ascii: "isASCII s \<Longrightarrow> runes s = map ord s"
proof (induction s)
  case (Cons c s)
  then have "decodeRune (c # s) = (ord c, 1)" by (simp add: isASCII_def decodeRune_def)
  with Cons show ?case by (simp add: runes_def isASCII_def)
qed simp

text \<open>On an ASCII pattern the runes of the loop are the characters of the RFC.\<close>

lemma pieces_wildcards:
  "isASCII key \<Longrightarrow> wildcards key = Some ps \<Longrightarrow>
   \<exists>ps'. pieces False (map ord key) = (ps', False) \<and> bytePieces ps' = ps \<and> list_all asciiPiece ps"
proof (induction key arbitrary: ps rule: wildcards.induct)
  case (2 c s)
  have byte: "ord x < 128 \<Longrightarrow> encodeRune (ord x) = [x]" for x :: char by (simp add: encodeRune_ascii)
  show ?case
  proof (cases "c = BACKSLASH")
    case True
    with 2(4) obtain q t ps1 where s: "s = q # t" "wildcards t = Some ps1" "ps = PChar q # ps1"
      by (auto split: list.splits)
    with 2(1) [OF True s(1)] 2(3) obtain ps' where "pieces False (map ord t) = (ps', False)" "bytePieces ps' = ps1"
        "list_all asciiPiece ps1"
      by (auto simp: isASCII_def)
    then show ?thesis using True s 2(3) byte [of q]
      by (intro exI [of _ "PChar (ord q) # ps'"]) (auto simp: bytePieces_def isASCII_def)
  next
    case False
    with 2(4) obtain ps1 where s: "wildcards s = Some ps1"
        "ps = (if c = CHR ''?'' then POne else if c = CHR ''*'' then PMany else PChar c) # ps1"
      by auto
    with 2(2) [OF False] 2(3) obtain ps' where "pieces False (map ord s) = (ps', False)" "bytePieces ps' = ps1"
        "list_all asciiPiece ps1"
      by (auto simp: isASCII_def)
    moreover have "ord c = 42 \<longleftrightarrow> c = CHR ''*''" "ord c = 63 \<longleftrightarrow> c = CHR ''?''" "ord c = 92 \<longleftrightarrow> c = BACKSLASH"
      by (simp_all flip: of_char_eq_iff [of c, where 'a = nat])
    ultimately show ?thesis using False s 2(3) byte [of c]
      by (intro exI [of _ "(if c = CHR ''?'' then POne else if c = CHR ''*'' then PMany else PChar (ord c)) # ps'"])
        (auto simp: bytePieces_def isASCII_def)
  qed
qed (simp add: bytePieces_def)

lemma testString_octet:
  assumes "octetEngine h eqv" "isASCII key" "wildcards key = Some ps"
  shows "testString h ComparatorOctet MatchMatches rel value key =
    Inr (matchResult (map_option (Cons value) (globMatch (=) LF ps value)))"
proof -
  obtain ps' where ps': "pieces False (runes key) = (ps', False)" "bytePieces ps' = ps" "list_all asciiPiece ps"
    using pieces_wildcards [OF assms(2,3)] runes_ascii [OF assms(2)] by auto
  then show ?thesis
    using matchOctet_engine [OF assms(1) ps'(1), of "value" False] assms(1)
    by (simp add: testString_def comparators octetEngine_def)
qed

text \<open>With ASCII separators a local part is the user, the first separator and the detail.\<close>

definition separators :: "bytes \<Rightarrow> bytes" where
  "separators sep = (if sep = [] then ''+'' else sep)"

lemma chunks_separators:
  assumes "isASCII sep" "set qs \<subseteq> set (runeChunks l)" "\<forall>q \<in> set qs. fst q \<notin> set (runes sep)"
  shows "set (concat (map snd qs)) \<inter> set sep = {}"
proof -
  have "c \<notin> set sep" if "(r, b) \<in> set qs" "c \<in> set b" for r b c
  proof
    assume "c \<in> set sep"
    moreover from this have "ord c < 128" using assms(1) by (simp add: isASCII_def list_all_iff)
    then have "r = ord c" using runeChunks_bytes [of r b l c] that assms(2) by blast
    ultimately show False using assms(3) that(1) by (force simp: runes_ascii [OF assms(1)])
  qed
  then show ?thesis by fastforce
qed

lemma splitSubAddress_parts:
  assumes "splitSubAddress l sep = (u, det, has)" and "isASCII sep"
  shows "set u \<inter> set (separators sep) = {} \<and>
    (if has then \<exists>c. l = u @ c # det \<and> c \<in> set (separators sep) else u = l)"
proof -
  let ?sep = "separators sep"
  have asc: "isASCII ?sep" using assms(2) by (simp add: isASCII_def separators_def)
  have rs: "runes ?sep = map ord ?sep" by (rule runes_ascii [OF asc])
  show ?thesis
  proof (cases "indexAny (runeChunks l) (runes ?sep)")
    case None
    then have "set (concat (map snd (runeChunks l))) \<inter> set ?sep = {}"
      by (intro chunks_separators [OF asc, of _ l]) (simp_all add: indexAny_None)
    then show ?thesis
      using assms(1) None runeChunks_concat [of l] by (simp add: splitSubAddress_def separators_def)
  next
    case (Some i)
    then have i: "u = take i l" "det = drop (i + 1) l" "has"
      using assms(1) by (simp_all add: splitSubAddress_def separators_def)
    from indexAny_Some [OF Some] obtain pre r b post where p: "runeChunks l = pre @ (r, b) # post"
        "r \<in> set (runes ?sep)" "i = length (concat (map snd pre))" "\<forall>q \<in> set pre. fst q \<notin> set (runes ?sep)" by blast
    obtain c where c: "c \<in> set ?sep" "r = ord c" using p(2) unfolding rs set_map by blast
    have r: "r < 128" using c asc by (auto simp: isASCII_def list_all_iff)
    have b: "b = [c]" using runeChunks_ascii [of r b l] p(1) r c(2) by simp
    have l: "l = concat (map snd pre) @ c # concat (map snd post)"
      using runeChunks_concat [of l] p(1) b by simp
    have "set (concat (map snd pre)) \<inter> set ?sep = {}"
      using p(1,4) by (intro chunks_separators [OF asc, of _ l]) auto
    then show ?thesis using l i p(3) c by auto
  qed
qed

text \<open>A \<open>:count\<close> matcher that reaches \<open>tryMatch\<close> panics: \<open>setKey\<close> gave it the numeric comparator.\<close>

lemma tryMatch_count_panics:
  assumes "isCount m" "Comparator m = ComparatorASCIINumeric" "keyCompiled m = None" "Key m = k # ks"
    "\<not> requiresExt (Script d) ''variables''"
  shows "tryMatch h m v d = (Inl (Panic ''testString should not be used with MatchCount''), d)"
  using assms
  by (simp add: tryMatch_def matchKey_def compiledAt_def isCount_def testString_def comparators expandVars_def)

lemma setKey_count:
  assumes "setKey h s (newMatcherTest\<lparr>MMatch := MatchCount, matchCnt := 1, Relational := rel\<rparr>) ks = (Inr m, s')"
  shows "isCount m" "Comparator m = ComparatorASCIINumeric" "keyCompiled m = None" "Key m = ks"
  using assms
  by (auto simp: setKey_def newMatcherTest_def Let_def checkRelational_def defaultComparator_def setCompiled_def
      isCount_def comparators split: prod.splits sum.splits if_splits)

section \<open>Properties\<close>

text \<open>
  C12. The match type \<open>:matches\<close> with the comparator \<open>i;octet\<close> is the wildcard matching of the
  RFC.  For an ASCII key that does not end in a lone backslash, and a value without line feed
  unless the key has no \<open>?\<close>, given an engine that keeps its promise on rendered patterns, the
  test succeeds exactly when the value is the pattern with every \<open>?\<close> filled by one byte and every
  \<open>*\<close> by any bytes, and the match variables are the value and those fillings.
\<close>

theorem octet_matches_wildcards:
  assumes "octetEngine h eqv" and "isASCII key" and "wildcards key = Some ps" and "POne \<notin> set ps \<or> LF \<notin> set value"
  shows "\<exists>b ms. testString h ComparatorOctet MatchMatches rel value key = Inr (b, ms) \<and>
    (b \<longleftrightarrow> (\<exists>cs. globs (=) ps cs value)) \<and> (b \<longrightarrow> (\<exists>cs. ms = value # cs \<and> globs (=) ps cs value))"
  using testString_octet [OF assms(1-3), of rel "value"] assms(4)
    globMatch_sound [of "(=)" LF ps "value"] globMatch_complete [of "(=)" ps _ "value" LF]
  by (cases "globMatch (=) LF ps value") (auto simp: matchResult_def)

theorem octet_matches_wildcards_witness:
  "\<exists>ms. testString (exampleHost\<lparr>binaryCompile := globEngine\<rparr>) ComparatorOctet MatchMatches [] ''abbc'' ''a*?c''
     = Inr (True, ms) \<and> (\<exists>cs. ms = ''abbc'' # cs \<and> globs (=) [PChar CHR ''a'', PMany, POne, PChar CHR ''c''] cs ''abbc'')"
proof -
  have p: "isASCII ''a*?c''" "wildcards ''a*?c'' = Some [PChar CHR ''a'', PMany, POne, PChar CHR ''c'']"
    by (simp_all add: isASCII_def)
  have "globs (=) [POne, PChar CHR ''c''] [''b''] ''bc''" by (auto intro!: globs.intros)
  from globs_PChar [OF refl globs_PMany [OF this, of "''b''"], of "CHR ''a''"]
  have "\<exists>cs. globs (=) [PChar CHR ''a'', PMany, POne, PChar CHR ''c''] cs ''abbc''" by auto
  then show ?thesis
    using octet_matches_wildcards [OF globEngine_ok p, of "''abbc''" exampleHost "[]"] by auto
qed

text \<open>
  The conditions are needed.  A \<open>?\<close> does not match a line feed, and a byte of the key that is no
  UTF-8 is replaced by the three bytes of U+FFFD, also under \<open>i;octet\<close>.
\<close>

lemma question_mark_line_feed:
  assumes "octetEngine h eqv"
  shows "testString h ComparatorOctet MatchMatches rel [LF] ''?'' = Inr (False, [])"
  using testString_octet [OF assms, of "''?''" "[POne]" rel "[LF]"] by (simp add: isASCII_def matchResult_def)

lemma invalid_key_byte: "patternToRegex [CHR 0xFF] cf = patternToRegex [CHR 0xEF, CHR 0xBF, CHR 0xBD] cf"
  by (simp add: patternToRegex_def runes_def decodeRune_def runeError_def cont_def)

text \<open>
  A pattern that ends in a lone backslash is accepted, against the comment in
  \<open>patternToRegex\<close>: it becomes the expression of the pattern without the backslash and without
  the end anchor, which matches any value that starts with the pattern.
\<close>

theorem trailing_backslash_drops_anchor:
  assumes "isASCII p" and "pieces False (runes p) = (ps, False)"
  shows "patternToRegex p cf = patternToRegex (p @ [BACKSLASH]) cf @ ''$''"
proof -
  have a: "isASCII (p @ [BACKSLASH])" using assms(1) by (simp add: isASCII_def)
  have "pieces e rs = (ps', False) \<Longrightarrow> pieces e (rs @ [of_char BACKSLASH]) = (ps', True)" for e rs ps'
    by (induction e rs arbitrary: ps' rule: pieces.induct) (auto split: prod.splits if_splits)
  then have "pieces False (runes (p @ [BACKSLASH])) = (ps, True)"
    using assms(2) by (simp add: runes_ascii [OF assms(1)] runes_ascii [OF a])
  then show ?thesis
    using patternToRegex_pieces [OF assms(2), of cf] patternToRegex_pieces [of "p @ [BACKSLASH]" ps True cf] by simp
qed

theorem trailing_backslash_drops_anchor_witness:
  "patternToRegex ''abc'' False = patternToRegex (''abc'' @ [BACKSLASH]) False @ ''$''"
proof -
  have a: "isASCII ''abc''" by (simp add: isASCII_def)
  have "pieces False (runes ''abc'') = ([PChar 97, PChar 98, PChar 99], False)"
    by (simp add: runes_ascii [OF a])
  from trailing_backslash_drops_anchor [OF a this] show ?thesis .
qed

text \<open>
  C30. The parts of an address recompose it.  For an address other than \<open>postmaster\<close> (in any
  case) and the null path that has a local part and a domain, these are the text around the last
  at-sign; with ASCII separators the user is the local part up to the first separator and the
  detail what follows that separator, and without a separator there is no detail and the user is
  the whole local part.
\<close>

theorem address_parts:
  assumes "\<not> EqualFold (uni h) address ''postmaster''" and "address \<noteq> ''<>''" and "address \<noteq> []"
    and "addressValue h d LocalPart address = Some l" and "addressValue h d Domain address = Some dm"
    and "sep = SubAddressSep (opts (Script d))" and "isASCII sep"
  shows "address = l @ ''@'' @ dm \<and> l \<noteq> [] \<and> dm \<noteq> [] \<and> CHR ''@'' \<notin> set dm \<and>
    (\<exists>u. addressValue h d User address = Some u \<and> set u \<inter> set (separators sep) = {} \<and>
       (case addressValue h d Detail address of
          Some det \<Rightarrow> \<exists>c. l = u @ c # det \<and> c \<in> set (separators sep)
        | None \<Rightarrow> u = l))"
proof -
  have s: "split (uni h) address = Inr (l, dm)"
    using assms(2-5) by (auto simp: addressValue_def split: sum.splits if_splits)
  have a: "address = l @ ''@'' @ dm \<and> l \<noteq> [] \<and> dm \<noteq> [] \<and> CHR ''@'' \<notin> set dm"
    using s assms(1) by (auto simp: split_def split: option.splits if_splits dest: splitLast_Some)
  obtain u det has where u: "splitSubAddress l sep = (u, det, has)" by (cases "splitSubAddress l sep")
  have "addressValue h d User address = Some u" "addressValue h d Detail address = (if has then Some det else None)"
    using assms(2,3,6) s u by (simp_all add: addressValue_def)
  then show ?thesis using a splitSubAddress_parts [OF u assms(7)] by (cases has) auto
qed

theorem address_parts_witness:
  "\<exists>u. addressValue exampleHost (exampleData {}) User ''u+d@x'' = Some u \<and> set u \<inter> set (separators []) = {} \<and>
    (\<exists>c. ''u+d'' = u @ c # ''d'' \<and> c \<in> set (separators []))"
proof -
  let ?h = exampleHost and ?d = "exampleData {}"
  have e: "\<not> EqualFold (uni ?h) ''u+d@x'' ''postmaster''"
    by (simp add: EqualFold_def runes_ascii isASCII_def foldRune_def)
  have sp: "split (uni ?h) ''u+d@x'' = Inr (''u+d'', ''x'')" using e by (simp add: split_def)
  have sub: "[] = SubAddressSep (opts (Script ?d))" by (simp add: example_defs)
  have ssa: "splitSubAddress ''u+d'' [] = (''u'', ''d'', True)"
    by (simp add: splitSubAddress_def decodeRune_def runes_def)
  have l: "addressValue ?h ?d LocalPart ''u+d@x'' = Some ''u+d''" "addressValue ?h ?d Domain ''u+d@x'' = Some ''x''"
    and det: "addressValue ?h ?d Detail ''u+d@x'' = Some ''d''"
    using sp sub ssa by (simp_all add: addressValue_def)
  show ?thesis using det address_parts [OF e _ _ l sub] by (auto simp: isASCII_def)
qed

text \<open>
  Keys are expanded twice: text that a variable brought in is searched for references
  again.  Here \<open>x\<close> holds the text of a reference to \<open>y\<close>, and the key \<open>${x}\<close> matches
  the value of \<open>y\<close> instead of that text.
\<close>

theorem keys_expand_twice:
  "let d = (exampleData {''variables''})\<lparr>Vars := [''x'' \<mapsto> ''${y}'', ''y'' \<mapsto> ''secret'']\<rparr>;
       t = newMatcherTest\<lparr>Comparator := ComparatorOctet, Key := [''${x}'']\<rparr>
   in expandVars exampleHost d ''${x}'' = Inr ''${y}'' \<and> tryMatch exampleHost t ''secret'' d = (Inr True, d) \<and>
      tryMatch exampleHost t ''${y}'' d = (Inr False, d)"
proof -
  let ?d = "(exampleData {''variables''})\<lparr>Vars := [''x'' \<mapsto> ''${y}'', ''y'' \<mapsto> ''secret'']\<rparr>"
  have s: "segments ''${x}'' = [Ref ''x'']" "segments ''${y}'' = [Ref ''y'']" by code_simp+
  have a: "Atoi ''x'' = None" "Atoi ''y'' = None" by code_simp+
  have sv: "splitVar (uni exampleHost) ''x'' = ([], ''x'')" "splitVar (uni exampleHost) ''y'' = ([], ''y'')"
    by code_simp+
  have x: "expandVars exampleHost ?d ''${x}'' = Inr ''${y}''" "expandVars exampleHost ?d ''${y}'' = Inr ''secret''"
    by (simp_all add: expandVars_def s refValue_def a Var_def sv mapGet_def example_defs RequiresExtension_def)
  show ?thesis
    unfolding Let_def
    by (intro conjI x) (simp_all add: tryMatch_def matchKey_def compiledAt_def newMatcherTest_def testString_def
        comparators x)
qed

end
