(* ===== verification/Dates.thy ===== *)
theory Dates
  imports Matching
begin

text \<open>
  The date extension, \<open>interp/date.go\<close>: extraction of date parts, the modified Julian day,
  time zones, and the tests \<open>date\<close> and \<open>currentdate\<close>.

  Of package \<open>time\<close> the model has what the code calls: the proleptic Gregorian calendar of
  \<open>Time.Date\<close>, the clock, and the layouts used with \<open>Format\<close>.  Parsing of dates
  (\<open>mail.ParseDate\<close>, \<open>time.Parse\<close>), the current time and the local zone come from the
  host.  \<open>dayNumber\<close> counts the days of the calendar from year one and is the reference
  that the code's arithmetic is compared with.
\<close>

section \<open>The Gregorian calendar\<close>

definition leap :: "int \<Rightarrow> bool" where
  "leap y \<longleftrightarrow> y mod 4 = 0 \<and> (y mod 100 \<noteq> 0 \<or> y mod 400 = 0)"

definition monthLengths :: "int \<Rightarrow> int list" where
  "monthLengths y = [31, if leap y then 29 else 28, 31, 30, 31, 30, 31, 31, 30, 31, 30, 31]"

definition daysBeforeYear :: "int \<Rightarrow> int" where
  "daysBeforeYear y = 365 * (y - 1) + (y - 1) div 4 - (y - 1) div 100 + (y - 1) div 400"

definition validDate :: "int \<times> int \<times> int \<Rightarrow> bool" where
  "validDate ymd =
     (case ymd of (y, m, d) \<Rightarrow> 1 \<le> m \<and> m \<le> 12 \<and> 1 \<le> d \<and> d \<le> monthLengths y ! nat (m - 1))"

text \<open>Days from 1 January of year one to a date.\<close>

definition dayNumber :: "int \<times> int \<times> int \<Rightarrow> int" where
  "dayNumber ymd =
     (case ymd of (y, m, d) \<Rightarrow> daysBeforeYear y + sum_list (take (nat (m - 1)) (monthLengths y)) + d - 1)"

section \<open>Package time\<close>

definition epochDay :: int where
  "epochDay = 719162"

definition absDays :: "time \<Rightarrow> int" where
  "absDays t = epochDay + (Unix t + ZoneOffset t) div 86400"

text \<open>The year and the day of the year, by cycles of 400, 100, 4 and 1 years.\<close>

definition yearDay :: "int \<Rightarrow> int \<times> int" where
  "yearDay n =
     (let d0 = n mod 146097; n100 = min 3 (d0 div 36524); d1 = d0 - 36524 * n100;
          n4 = d1 div 1461; d2 = d1 mod 1461; n1 = min 3 (d2 div 365) in
      (1 + 400 * (n div 146097) + 100 * n100 + 4 * n4 + n1, d2 - 365 * n1))"

fun monthDay :: "int \<Rightarrow> int list \<Rightarrow> int \<Rightarrow> int \<times> int" where
  "monthDay m [] yday = (m, yday + 1)"
| "monthDay m (l # ls) yday = (if yday < l then (m, yday + 1) else monthDay (m + 1) ls (yday - l))"

definition dateOfDays :: "int \<Rightarrow> int \<times> int \<times> int" where
  "dateOfDays n = (case yearDay n of (y, yday) \<Rightarrow> (y, monthDay 1 (monthLengths y) yday))"

definition Date :: "time \<Rightarrow> int \<times> int \<times> int" where
  "Date t = dateOfDays (absDays t)"

definition Year :: "time \<Rightarrow> int" where
  "Year t = fst (Date t)"

definition Month :: "time \<Rightarrow> int" where
  "Month t = fst (snd (Date t))"

definition Day :: "time \<Rightarrow> int" where
  "Day t = snd (snd (Date t))"

definition secondsOfDay :: "time \<Rightarrow> int" where
  "secondsOfDay t = (Unix t + ZoneOffset t) mod 86400"

definition Hour :: "time \<Rightarrow> int" where
  "Hour t = secondsOfDay t div 3600"

definition Minute :: "time \<Rightarrow> int" where
  "Minute t = secondsOfDay t mod 3600 div 60"

definition Second :: "time \<Rightarrow> int" where
  "Second t = secondsOfDay t mod 60"

definition Weekday :: "time \<Rightarrow> int" where
  "Weekday t = (absDays t + 1) mod 7"

text \<open>A number with at least \<open>w\<close> digits, as in \<open>%02d\<close> and in the layouts of \<open>Format\<close>.\<close>

definition padNat :: "nat \<Rightarrow> nat \<Rightarrow> bytes" where
  "padNat w n = (let s = nat_to_dec n in replicate (w - length s) CHR ''0'' @ s)"

definition padInt :: "nat \<Rightarrow> int \<Rightarrow> bytes" where
  "padInt w x = (if x < 0 then CHR ''-'' # padNat w (nat (- x)) else padNat w (nat x))"

text \<open>The zone in minutes, rounded toward zero, between a sign and two fields of two digits.\<close>

definition formatZone :: "bytes \<Rightarrow> int \<Rightarrow> bytes" where
  "formatZone sep off =
     (let m = nat \<bar>off\<bar> div 60 in
      (if off \<le> - 60 then ''-'' else ''+'') @ padNat 2 (m div 60) @ sep @ padNat 2 (m mod 60))"

definition formatDate :: "time \<Rightarrow> bytes" where
  "formatDate t = padInt 4 (Year t) @ ''-'' @ padInt 2 (Month t) @ ''-'' @ padInt 2 (Day t)"

definition formatTime :: "time \<Rightarrow> bytes" where
  "formatTime t = padInt 2 (Hour t) @ '':'' @ padInt 2 (Minute t) @ '':'' @ padInt 2 (Second t)"

definition dayNames :: "bytes list" where
  "dayNames = [''Sun'', ''Mon'', ''Tue'', ''Wed'', ''Thu'', ''Fri'', ''Sat'']"

definition monthNames :: "bytes list" where
  "monthNames = [''Jan'', ''Feb'', ''Mar'', ''Apr'', ''May'', ''Jun'', ''Jul'', ''Aug'', ''Sep'', ''Oct'', ''Nov'', ''Dec'']"

definition formatRFC1123Z :: "time \<Rightarrow> bytes" where
  "formatRFC1123Z t =
     dayNames ! nat (Weekday t) @ '', '' @ padInt 2 (Day t) @ '' '' @ monthNames ! nat (Month t - 1) @ '' '' @
     padInt 4 (Year t) @ '' '' @ formatTime t @ '' '' @ formatZone [] (ZoneOffset t)"

definition inZone :: "time \<Rightarrow> int \<Rightarrow> time" where
  "inZone t off = t\<lparr>ZoneOffset := off\<rparr>"

section \<open>Date parts\<close>

text \<open>Division of Go rounds toward zero.\<close>

definition quotGo :: "int \<Rightarrow> int \<Rightarrow> int" where
  "quotGo a b = (if a < 0 then - ((- a) div b) else a div b)"

definition modifiedJulianDay :: "time \<Rightarrow> int" where
  "modifiedJulianDay t =
     (case Date t of (year, month, day) \<Rightarrow>
       (let a = quotGo (14 - month) 12; y = year + 4800 - a; m = month + 12 * a - 3;
            jdn = day + quotGo (153 * m + 2) 5 + 365 * y + quotGo y 4 - quotGo y 100 + quotGo y 400 - 32045 in
        jdn - 2400001))"

definition validDateParts :: "bytes list" where
  "validDateParts = [''year'', ''month'', ''day'', ''date'', ''julian'', ''hour'', ''minute'', ''second'', ''time'',
     ''iso8601'', ''std11'', ''zone'', ''weekday'']"

definition extractDatePart :: "time \<Rightarrow> bytes \<Rightarrow> (exec_error, bytes) result" where
  "extractDatePart t part =
     (if part = ''year'' then Inr (Itoa (Year t))
      else if part = ''month'' then Inr (padInt 2 (Month t))
      else if part = ''day'' then Inr (padInt 2 (Day t))
      else if part = ''date'' then Inr (formatDate t)
      else if part = ''julian'' then Inr (Itoa (modifiedJulianDay t))
      else if part = ''hour'' then Inr (padInt 2 (Hour t))
      else if part = ''minute'' then Inr (padInt 2 (Minute t))
      else if part = ''second'' then Inr (padInt 2 (Second t))
      else if part = ''time'' then Inr (formatTime t)
      else if part = ''iso8601'' then Inr (formatDate t @ ''T'' @ formatTime t @ formatZone '':'' (ZoneOffset t))
      else if part = ''std11'' then Inr (formatRFC1123Z t)
      else if part = ''zone'' then Inr (formatZone [] (ZoneOffset t))
      else if part = ''weekday'' then Inr (Itoa (Weekday t))
      else Inl ErrDatePart)"

definition parseZoneOffset :: "bytes \<Rightarrow> int option" where
  "parseZoneOffset zone =
     (if length zone \<noteq> 5 then None
      else if zone ! 0 \<noteq> CHR ''-'' \<and> zone ! 0 \<noteq> CHR ''+'' then None
      else (case Atoi (take 2 (drop 1 zone)) of
              None \<Rightarrow> None
            | Some hours \<Rightarrow>
                (case Atoi (drop 3 zone) of
                   None \<Rightarrow> None
                 | Some minutes \<Rightarrow>
                     Some ((if zone ! 0 = CHR ''-'' then - 1 else 1) * (hours * 3600 + minutes * 60)))))"

definition dateFormats :: "bytes list" where
  "dateFormats =
     [''Mon, 02 Jan 2006 15:04:05 -0700'', ''Mon, 02 Jan 2006 15:04:05 MST'', ''02 Jan 06 15:04 -0700'',
      ''02 Jan 06 15:04 MST'', ''2006-01-02T15:04:05Z07:00'', ''2006-01-02T15:04:05.999999999Z07:00'',
      ''Mon, 2 Jan 2006 15:04:05 -0700'', ''Mon, 2 Jan 2006 15:04:05 MST'',
      ''2 Jan 2006 15:04:05 -0700'', ''2 Jan 2006 15:04:05 MST'']"

fun firstParse :: "(bytes \<Rightarrow> time option) list \<Rightarrow> bytes \<Rightarrow> time option" where
  "firstParse [] v = None"
| "firstParse (p # ps) v = (case p v of Some t \<Rightarrow> Some t | None \<Rightarrow> firstParse ps v)"

definition parseDateHeader :: "host \<Rightarrow> bytes \<Rightarrow> time option" where
  "parseDateHeader h value0 =
     (let value = TrimSpace value0 in
      if value = [] then None else firstParse (MailParseDate h # map (TimeParse h) dateFormats) value)"

definition applyZone :: "host \<Rightarrow> time \<Rightarrow> bytes \<Rightarrow> bool \<Rightarrow> time" where
  "applyZone h t zone original =
     (if original then t
      else (case (if zone \<noteq> [] then parseZoneOffset zone else None) of
              Some off \<Rightarrow> inZone t off
            | None \<Rightarrow> inZone t (LocalOffset h (Unix t))))"

section \<open>The tests\<close>

definition matchDatePart :: "host \<Rightarrow> matcher_test \<Rightarrow> time \<Rightarrow> bytes \<Rightarrow> bool exec" where
  "matchDatePart h m t datePart d =
     (case expandVars h d datePart of
        Inl e \<Rightarrow> (Inl e, d)
      | Inr part \<Rightarrow>
          (case extractDatePart t (ToLower (uni h) part) of
             Inl e \<Rightarrow> (Inl e, d)
           | Inr v \<Rightarrow> tryMatch h m v d))"

text \<open>The header value that \<open>:index\<close> and \<open>:last\<close> select; \<open>None\<close> when it does not exist.\<close>

definition selectIndex :: "int \<Rightarrow> bool \<Rightarrow> 'a list \<Rightarrow> 'a option" where
  "selectIndex index lst values =
     (if index > 0 then
        (let idx = (if lst then int (length values) - index else index - 1) in
         if idx < 0 \<or> idx \<ge> int (length values) then None else Some (values ! nat idx))
      else (case values of [] \<Rightarrow> None | v # vs \<Rightarrow> Some v))"

definition DateTest_Check ::
  "host \<Rightarrow> matcher_test \<Rightarrow> bytes \<Rightarrow> bytes \<Rightarrow> bytes \<Rightarrow> bool \<Rightarrow> int \<Rightarrow> bool \<Rightarrow> bool exec" where
  "DateTest_Check h m hdr datePart zone originalZone index lst d =
     (case expandVars h d hdr of
        Inl e \<Rightarrow> (Inl e, d)
      | Inr name \<Rightarrow>
          (case HeaderGet h name of
             Inl e \<Rightarrow> (Inl e, d)
           | Inr values \<Rightarrow>
               if isCount m then
                 (countMatches h m d (of_nat (length (filter (\<lambda>v. parseDateHeader h v \<noteq> None) values))), d)
               else (case selectIndex index lst values of
                       None \<Rightarrow> (Inr False, d)
                     | Some v \<Rightarrow>
                         (case parseDateHeader h v of
                            None \<Rightarrow> (Inr False, d)
                          | Some t \<Rightarrow> matchDatePart h m (applyZone h t zone originalZone) datePart d))))"

definition CurrentDateTest_Check :: "host \<Rightarrow> matcher_test \<Rightarrow> bytes \<Rightarrow> bytes \<Rightarrow> bool exec" where
  "CurrentDateTest_Check h m datePart zone d =
     (let t = (case (if zone \<noteq> [] then parseZoneOffset zone else None) of
                 Some off \<Rightarrow> inZone (Now h) off | None \<Rightarrow> Now h) in
      matchDatePart h m t datePart d)"

end
