(* ===== verification/Dates_Laws.thy ===== *)
theory Dates_Laws
  imports Dates Matching_Laws
begin

text \<open>
  The calendar of package \<open>time\<close> is a bijection between day numbers and valid dates, and
  the arithmetic of \<open>modifiedJulianDay\<close> counts its days.  Zones printed by \<open>Format\<close> are read
  back by \<open>parseZoneOffset\<close>.
\<close>

section \<open>Day numbers\<close>

lemma div_bounds: "0 < (k::int) \<Longrightarrow> k * (x div k) \<le> x \<and> x < k * (x div k) + k"
  by (smt (verit) mult_div_mod_eq pos_mod_bound pos_mod_sign)

lemma leap_cycles:
  assumes "0 \<le> c" "c < 24 \<or> c = 24 \<and> b = 3" "y = 400 * a + 100 * b + 4 * (c + 1)"
  shows "leap y"
proof (cases "c < 24")
  case True
  have "y = 4 * (100 * a + 25 * b + c + 1)" and y: "y = 4 * (c + 1) + (4 * a + b) * 100" using assms(3) by simp_all
  then have "y mod 4 = 0" by (metis mod_mult_self1_is_0)
  moreover have "y mod 100 = 4 * (c + 1)" unfolding y mod_mult_self1 using True assms(1) by simp
  ultimately show ?thesis using assms(1) by (simp add: leap_def)
next
  case False
  then have "y = 400 * (a + 1)" "y = 4 * (100 * (a + 1))" using assms by simp_all
  then have "y mod 400 = 0" "y mod 4 = 0" by (metis mod_mult_self1_is_0)+
  then show ?thesis by (simp add: leap_def)
qed

lemma yearDay_spec:
  assumes "yearDay n = (y, r)"
  shows "n = daysBeforeYear y + r" "0 \<le> r" "r < (if leap y then 366 else 365)"
proof -
  define a where "a = n div 146097"
  define d0 where "d0 = n mod 146097"
  define b where "b = min 3 (d0 div 36524)"
  define d1 where "d1 = d0 - 36524 * b"
  define c where "c = d1 div 1461"
  define d2 where "d2 = d1 mod 1461"
  define e where "e = min 3 (d2 div 365)"
  have yr: "y = 1 + 400 * a + 100 * b + 4 * c + e" "r = d2 - 365 * e"
    using assms unfolding yearDay_def Let_def e_def d2_def c_def d1_def b_def d0_def a_def
    by (auto simp only: prod.inject)
  have n: "n = 146097 * a + d0" and d0: "0 \<le> d0" "d0 < 146097" by (simp_all add: a_def d0_def)
  have b: "0 \<le> b" "b \<le> 3" "0 \<le> d1" "d1 \<le> 36524" "b < 3 \<longrightarrow> d1 < 36524"
    using div_bounds [of 36524 d0] d0 unfolding b_def d1_def min_def by (simp_all split: if_splits)
  have d1: "d1 = 1461 * c + d2" "0 \<le> d2" "d2 < 1461" by (simp_all add: c_def d2_def)
  have c: "0 \<le> c" "c \<le> 24" using b(3,4) div_bounds [of 1461 d1] unfolding c_def by simp_all
  have e: "0 \<le> e" "e \<le> 3" "0 \<le> r" "r \<le> 365" "e < 3 \<longrightarrow> r < 365"
    using div_bounds [of 365 d2] d1(2,3) unfolding e_def yr(2) min_def by (simp_all split: if_splits)
  have div: "(y - 1) div 4 = 100 * a + 25 * b + c" "(y - 1) div 100 = 4 * a + b" "(y - 1) div 400 = a"
    using b c e by (simp_all add: yr(1))
  show "n = daysBeforeYear y + r" by (simp add: daysBeforeYear_def div, simp add: yr n d1_def [symmetric])
      (use d1 in \<open>simp add: d1_def\<close>)
  show "0 \<le> r" by fact
  show "r < (if leap y then 366 else 365)"
  proof (cases "r < 365")
    case False
    with e have e3: "e = 3" and r: "r = 365" by auto
    then have "d2 = 1460" using yr(2) by simp
    then have "c < 24 \<or> b = 3" using b d1 by auto
    moreover have "y = 400 * a + 100 * b + 4 * (c + 1)" using e3 yr(1) by simp
    ultimately have "leap y" using b c by (intro leap_cycles [of c b y a]) auto
    then show ?thesis using r by simp
  qed simp
qed

lemma monthDay_spec:
  assumes "monthDay m ls r = (m', d)" "0 \<le> r" "r < sum_list ls"
  shows "\<exists>k < length ls. m' = m + int k \<and> 1 \<le> d \<and> d \<le> ls ! k \<and> r = sum_list (take k ls) + d - 1"
  using assms
proof (induction m ls r rule: monthDay.induct)
  case (2 m l ls r)
  show ?case
  proof (cases "r < l")
    case True
    with 2 show ?thesis by (intro exI [of _ 0]) auto
  next
    case False
    with 2 obtain k where "k < length ls" "m' = m + 1 + int k" "1 \<le> d" "d \<le> ls ! k"
      "r - l = sum_list (take k ls) + d - 1" by auto
    then show ?thesis by (intro exI [of _ "Suc k"]) auto
  qed
qed simp

lemma sum_monthLengths: "sum_list (monthLengths y) = (if leap y then 366 else 365)"
  by (simp add: monthLengths_def)

lemma length_monthLengths [simp]: "length (monthLengths y) = 12"
  by (simp add: monthLengths_def)

lemma dateOfDays_spec: "validDate (dateOfDays n)" "dayNumber (dateOfDays n) = n"
proof -
  obtain y r where yr: "yearDay n = (y, r)" by fastforce
  obtain m d where md: "monthDay 1 (monthLengths y) r = (m, d)" by fastforce
  note y = yearDay_spec [OF yr]
  have "r < sum_list (monthLengths y)" using y(3) sum_monthLengths by simp
  with monthDay_spec [OF md y(2)] obtain k where k: "k < 12" "m = 1 + int k" "1 \<le> d" "d \<le> monthLengths y ! k"
    "r = sum_list (take k (monthLengths y)) + d - 1" by auto
  have "dateOfDays n = (y, m, d)" using yr md by (simp add: dateOfDays_def)
  then show "validDate (dateOfDays n)" "dayNumber (dateOfDays n) = n"
    using k y(1) by (simp_all add: validDate_def dayNumber_def)
qed

section \<open>The modified Julian day\<close>

lemma div_pred: "0 < k \<Longrightarrow> y div k = (y - 1) div k + (if y mod k = 0 then 1 else 0)" for k :: int
proof -
  assume k: "0 < k"
  let ?q = "if y mod k = 0 then y div k - 1 else y div k" and ?r = "if y mod k = 0 then k - 1 else y mod k - 1"
  have "k * (y div k) = y - y mod k" by (rule minus_mod_eq_mult_div [symmetric])
  then have "y - 1 = k * ?q + ?r" by (auto simp: right_diff_distrib)
  moreover have "0 \<le> ?r" "?r < k" using k pos_mod_sign [OF k, of y] pos_mod_bound [OF k, of y] by auto
  ultimately have "(y - 1) div k = ?q" by (rule int_div_pos_eq)
  then show ?thesis by simp
qed

lemma leapDays_step:
  "y div 4 - y div 100 + y div 400 = (y - 1) div 4 - (y - 1) div 100 + (y - 1) div 400 + (if leap y then 1 else (0::int))"
proof -
  have m: "k dvd l \<Longrightarrow> y mod l = 0 \<Longrightarrow> y mod k = 0" for k l :: int
    by (metis dvd_trans mod_eq_0_iff_dvd)
  have "x4 = z4 + (if a then 1 else 0) \<Longrightarrow> x1 = z1 + (if b then 1 else 0) \<Longrightarrow> x0 = z0 + (if c then 1 else 0) \<Longrightarrow>
      (c \<longrightarrow> b) \<Longrightarrow> (b \<longrightarrow> a) \<Longrightarrow> x4 - x1 + x0 = z4 - z1 + z0 + (if a \<and> (\<not> b \<or> c) then 1 else (0::int))"
    for x4 x1 x0 z4 z1 z0 a b c by (cases a; cases b; cases c) auto
  from this [OF div_pred div_pred div_pred, of 4 100 400 y] m [of 100 400] m [of 4 100]
  show ?thesis unfolding leap_def by simp
qed

lemma daysBeforeMonth:
  assumes "1 \<le> m" "m \<le> 12"
  shows "sum_list (take (nat (m - 1)) (monthLengths y)) =
    (if m \<le> 2 then 31 * (m - 1) else (153 * (m - 3) + 2) div 5 + 59 + (if leap y then 1 else 0))"
proof -
  have "m = 1 \<or> m = 2 \<or> m = 3 \<or> m = 4 \<or> m = 5 \<or> m = 6 \<or> m = 7 \<or> m = 8 \<or> m = 9 \<or> m = 10 \<or> m = 11 \<or> m = 12"
    using assms by presburger
  then show ?thesis by (elim disjE) (simp_all add: monthLengths_def)
qed

lemma julian_arithmetic:
  assumes "validDate (y, m, d)" "- 4800 < y"
  shows "d + quotGo (153 * (m + 12 * quotGo (14 - m) 12 - 3) + 2) 5 + 365 * (y + 4800 - quotGo (14 - m) 12)
     + quotGo (y + 4800 - quotGo (14 - m) 12) 4 - quotGo (y + 4800 - quotGo (14 - m) 12) 100
     + quotGo (y + 4800 - quotGo (14 - m) 12) 400 = dayNumber (y, m, d) + 1753471"
proof -
  have quot: "quotGo (z + 4800) 4 = z div 4 + 1200 \<and> quotGo (z + 4800) 100 = z div 100 + 48 \<and>
      quotGo (z + 4800) 400 = z div 400 + 12" if "0 \<le> z + 4800" for z :: int
    using that div_mult_self1 [of 4 z 1200] div_mult_self1 [of 100 z 48] div_mult_self1 [of 400 z 12]
    by (simp add: quotGo_def)
  have m: "1 \<le> m" "m \<le> 12" using assms(1) by (auto simp: validDate_def)
  note days = dayNumber_def daysBeforeYear_def prod.case daysBeforeMonth [OF m]
  show ?thesis
  proof (cases "m \<le> 2")
    case True
    have q: "quotGo (14 - m) 12 = 1" using m True by (auto simp: quotGo_def)
    have y: "y + 4800 - 1 = (y - 1) + 4800" by simp
    have "quotGo (153 * (m + 12 * 1 - 3) + 2) 5 = 306 + 31 * (m - 1)"
      using m True by (cases "m = 1") (auto simp: quotGo_def)
    moreover have "0 \<le> y - 1 + 4800" using assms(2) by simp
    ultimately show ?thesis using True unfolding q y days by (simp only: quot if_True) simp
  next
    case False
    have q: "quotGo (14 - m) 12 = 0" using m False by (auto simp: quotGo_def)
    have "quotGo (153 * (m + 12 * 0 - 3) + 2) 5 = (153 * (m - 3) + 2) div 5" using False by (simp add: quotGo_def)
    moreover have "0 \<le> y + 4800" using assms(2) by simp
    moreover have "a4 - a1 + a0 = b4 - b1 + b0 + l \<Longrightarrow>
        d + k + 365 * (y + 4800 - 0) + (a4 + 1200) - (a1 + 48) + (a0 + 12)
        = 365 * (y - 1) + b4 - b1 + b0 + (k + 59 + l) + d - 1 + 1753471" for a4 a1 a0 b4 b1 b0 l k :: int by simp
    note this [OF leapDays_step]
    ultimately show ?thesis using False unfolding q days by (simp only: quot if_False diff_zero)
  qed
qed

text \<open>
  C31. Days of the calendar and valid dates correspond, and the modified Julian day that the
  code computes from year, month and day is the number of days since 17 November 1858 in the
  zone of the time, for every time from the year -4799 on.
\<close>

theorem julian_counts_days:
  assumes "- 4799 \<le> Year t"
  shows "modifiedJulianDay t = (Unix t + ZoneOffset t) div 86400 + 40587 \<and>
    validDate (Date t) \<and> dayNumber (Date t) = absDays t"
proof -
  obtain y m d where ymd: "Date t = (y, m, d)" by (cases "Date t")
  have v: "validDate (y, m, d)" "dayNumber (y, m, d) = absDays t"
    using dateOfDays_spec [of "absDays t"] ymd by (simp_all add: Date_def)
  have "modifiedJulianDay t = dayNumber (y, m, d) + 1753471 - 32045 - 2400001"
    using julian_arithmetic [OF v(1)] assms ymd by (simp add: modifiedJulianDay_def Let_def Year_def)
  then show ?thesis using v ymd by (simp add: absDays_def epochDay_def)
qed

theorem julian_counts_days_witness:
  "Date \<lparr>Unix = 951827696, ZoneOffset = 0\<rparr> = (2000, 2, 29) \<and>
   modifiedJulianDay \<lparr>Unix = 951827696, ZoneOffset = 0\<rparr> = 51603"
proof -
  let ?t = "\<lparr>Unix = 951827696, ZoneOffset = 0\<rparr>"
  have d: "Date ?t = (2000, 2, 29)"
    by (simp add: Date_def dateOfDays_def absDays_def epochDay_def yearDay_def Let_def monthLengths_def leap_def)
  then show ?thesis using julian_counts_days [of ?t] by (simp add: Year_def)
qed

text \<open>The day is that of the time's own zone: an hour west of UTC the epoch is on the day before.\<close>

lemma julian_follows_zone:
  "modifiedJulianDay \<lparr>Unix = 0, ZoneOffset = 0\<rparr> = 40587" "modifiedJulianDay \<lparr>Unix = 0, ZoneOffset = - 3600\<rparr> = 40586"
  by (simp_all add: modifiedJulianDay_def Date_def dateOfDays_def absDays_def epochDay_def yearDay_def Let_def
      monthLengths_def leap_def quotGo_def)

section \<open>Zones\<close>

lemma padNat_two:
  assumes "n < 100"
  shows "length (padNat 2 n) = 2" "Atoi (padNat 2 n) = Some (int n)"
proof -
  have zero: "CHR ''0'' = char_of (48::nat)" by code_simp
  have "padNat 2 n = [digit_char (n div 10), digit_char (n mod 10)]"
  proof (cases "n < 10")
    case True
    then show ?thesis by (simp add: padNat_def Let_def nat_to_dec.simps [of n] digit_char_def numeral_2_eq_2 zero)
  next
    case False
    then show ?thesis using assms
      by (simp add: padNat_def Let_def nat_to_dec.simps [of n] nat_to_dec.simps [of "n div 10"])
  qed
  moreover have "n div 10 < 10" using assms by simp
  ultimately show "length (padNat 2 n) = 2" "Atoi (padNat 2 n) = Some (int n)"
    using Atoi_digits [of "padNat 2 n"] assms
    by (simp_all add: all_digits_def dec_value_def ord_digit_char maxInt64_def)
qed

lemma parseZone_fields:
  assumes "length hs = 2" "length ms = 2" "Atoi hs = Some a" "Atoi ms = Some b"
  shows "parseZoneOffset ((if neg then CHR ''-'' else CHR ''+'') # hs @ ms)
    = Some ((if neg then - 1 else 1) * (a * 3600 + b * 60))"
  using assms by (cases neg) (simp_all add: parseZoneOffset_def numeral_3_eq_3 numeral_2_eq_2)

text \<open>
  C33. The zone that \<open>Format\<close> prints for an offset of whole minutes below one hundred hours
  is read back as that offset by \<open>parseZoneOffset\<close>.
\<close>

theorem zone_round_trip:
  assumes "off mod 60 = 0" and "\<bar>off\<bar> < 360000"
  shows "parseZoneOffset (formatZone [] off) = Some off"
proof -
  let ?m = "nat \<bar>off\<bar> div 60"
  have m: "?m div 60 < 100" "?m mod 60 < 100" using assms(2) by auto
  note p = padNat_two [OF m(1)] padNat_two [OF m(2)]
  have "formatZone [] off = (if off \<le> - 60 then CHR ''-'' else CHR ''+'') # padNat 2 (?m div 60) @ padNat 2 (?m mod 60)"
    by (simp add: formatZone_def Let_def)
  then have "parseZoneOffset (formatZone [] off)
      = Some ((if off \<le> - 60 then - 1 else 1) * (int (?m div 60) * 3600 + int (?m mod 60) * 60))"
    using parseZone_fields [OF p(1,3,2,4), of "off \<le> - 60"] by (simp only:)
  moreover have "(if off \<le> - 60 then - 1 else 1) * (int (?m div 60) * 3600 + int (?m mod 60) * 60) = off"
  proof -
    obtain k where k: "off = 60 * k" using assms(1) by (auto simp: mod_eq_0_iff_dvd elim: dvdE)
    then have "nat \<bar>off\<bar> = nat \<bar>k\<bar> * 60" by (simp add: abs_mult nat_mult_distrib)
    then have "int ?m = \<bar>k\<bar>" by simp
    moreover have "a div 60 * 3600 + a mod 60 * 60 = 60 * a" for a :: int
      using mult_div_mod_eq [of 60 a] by linarith
    ultimately have "int (?m div 60) * 3600 + int (?m mod 60) * 60 = 60 * \<bar>k\<bar>"
      by (simp only: zdiv_int zmod_int of_nat_numeral)
    then show ?thesis using k by auto
  qed
  ultimately show ?thesis by simp
qed

theorem zone_round_trip_witness:
  "parseZoneOffset (formatZone [] (- 12600)) = Some (- 12600)"
  by (rule zone_round_trip) simp_all

text \<open>
  The fields are not limited to hours and minutes: \<open>+9999\<close> is an offset of more than a hundred
  hours, which prints with three digits of hours and is not read back.
\<close>

lemma zone_out_of_range:
  "parseZoneOffset ''+9999'' = Some 362340" "formatZone [] 362340 = ''+10039''" "parseZoneOffset ''+10039'' = None"
proof -
  have "Atoi ''99'' = Some 99" by code_simp
  then show "parseZoneOffset ''+9999'' = Some 362340" by (simp add: parseZoneOffset_def)
  have "padNat 2 100 = ''100''" "padNat 2 39 = ''39''" by code_simp+
  then show "formatZone [] 362340 = ''+10039''" by (simp add: formatZone_def)
  show "parseZoneOffset ''+10039'' = None" by (simp add: parseZoneOffset_def)
qed

section \<open>Counting where the test has no count\<close>

lemma dateParts_lower: "p \<in> set validDateParts \<Longrightarrow> ToLower U p = p"
  by (auto simp: validDateParts_def ToLower_def isASCII_def lowerByte_def is_upper_def)

lemma dateParts_extract: "p \<in> set validDateParts \<Longrightarrow> \<exists>v. extractDatePart t p = Inr v"
  by (auto simp: validDateParts_def extractDatePart_def)

text \<open>
  \<open>currentdate\<close> has no branch for \<open>:count\<close>: with the matcher that \<open>setKey\<close> makes of
  \<open>:count\<close> and a key, the test panics for every date part, zone and time.
\<close>

theorem currentdate_count_panics:
  assumes "setKey h s (newMatcherTest\<lparr>MMatch := MatchCount, matchCnt := 1, Relational := rel\<rparr>) (k # ks) = (Inr m, s')"
    and "part \<in> set validDateParts" and "\<not> requiresExt (Script d) ''variables''"
  shows "CurrentDateTest_Check h m part zone d = (Inl (Panic ''testString should not be used with MatchCount''), d)"
proof -
  note m = setKey_count [OF assms(1)]
  let ?t = "case (if zone \<noteq> [] then parseZoneOffset zone else None) of Some off \<Rightarrow> inZone (Now h) off | None \<Rightarrow> Now h"
  obtain v where "extractDatePart ?t part = Inr v" using dateParts_extract [OF assms(2)] by blast
  then show ?thesis
    using assms(3) dateParts_lower [OF assms(2)] tryMatch_count_panics [OF m assms(3)]
    by (simp add: CurrentDateTest_Check_def matchDatePart_def expandVars_def del: if_split)
qed

theorem currentdate_count_panics_witness:
  "fst (CurrentDateTest_Check exampleHost
     (newMatcherTest\<lparr>MMatch := MatchCount, matchCnt := 1, Relational := RelEqual, Key := [''1''],
        Comparator := ComparatorASCIINumeric\<rparr>) ''year'' [] (exampleData {}))
   = Inl (Panic ''testString should not be used with MatchCount'')"
proof -
  let ?m = "newMatcherTest\<lparr>MMatch := MatchCount, matchCnt := 1, Relational := RelEqual, Key := [''1''],
    Comparator := ComparatorASCIINumeric\<rparr>" and ?s = "Script (exampleData {''relational''})"
  have "setKey exampleHost ?s (newMatcherTest\<lparr>MMatch := MatchCount, matchCnt := 1, Relational := RelEqual\<rparr>) [''1'']
      = (Inr ?m, ?s)"
    by (simp add: setKey_def newMatcherTest_def Let_def checkRelational_def defaultComparator_def setCompiled_def
        comparators relationals_def example_defs RequiresExtension_def)
  from currentdate_count_panics [OF this, of "''year''" "exampleData {}" "[]"] show ?thesis
    by (simp add: validDateParts_def example_defs RequiresExtension_def)
qed

end
