(* ===== verification/Body.thy ===== *)
theory Body
  imports Matching
begin

text \<open>
  The body test: matching of message parts in \<open>interp/test_body.go\<close> and
  \<open>interp/matchertest.go\<close>, the HTML stripper and the content type rules of
  \<open>interp/body_parse.go\<close>, and \<open>BodyTest\<close> of \<open>interp/test.go\<close>.  A reader is the list of
  bytes it delivers.
\<close>

section \<open>Readers\<close>

text \<open>\<open>htmlStripper\<close>: the bytes outside of tags; the argument is the flag \<open>inTag\<close>.\<close>

fun stripHTML :: "bool \<Rightarrow> bytes \<Rightarrow> bytes" where
  "stripHTML inTag [] = []"
| "stripHTML inTag (b # bs) =
     (if b = CHR ''<'' \<and> \<not> inTag then stripHTML True bs
      else if b = CHR ''>'' \<and> inTag then stripHTML False bs
      else if inTag then stripHTML inTag bs
      else b # stripHTML inTag bs)"

definition asciiLowerByteReader :: "bytes \<Rightarrow> bytes" where
  "asciiLowerByteReader r = map (\<lambda>c. if 65 \<le> ord c \<and> ord c \<le> 90 then char_of (ord c + 32) else c) r"

text \<open>The loop of \<open>numericValueReader\<close>: the value so far and the flag \<open>overflow\<close>.\<close>

fun numericLoop :: "unicode_tables \<Rightarrow> 64 word \<Rightarrow> bool \<Rightarrow> nat list \<Rightarrow> 64 word \<times> bool" where
  "numericLoop U v overflow [] = (v, overflow)"
| "numericLoop U v overflow (r # rs) =
     (if \<not> runeIsDigit U r then (v, overflow)
      else if r < 48 \<or> r > 57 then numericLoop U v True rs
      else (let digit = of_nat (r - 48) in
            if \<not> overflow then
              if v > (of_nat maxUint64 - digit) div 10 then numericLoop U v True rs
              else numericLoop U (v * 10 + digit) overflow rs
            else numericLoop U v overflow rs))"

definition numericValueReader :: "unicode_tables \<Rightarrow> bytes \<Rightarrow> 64 word option" where
  "numericValueReader U content =
     (case runes content of
        [] \<Rightarrow> None
      | first # rs \<Rightarrow>
          if \<not> runeIsDigit U first then None
          else if first < 48 \<or> first > 57 then None
          else (case numericLoop U (of_nat (first - 48)) False rs of
                  (v, overflow) \<Rightarrow> if overflow then None else Some v))"

section \<open>Matching a part\<close>

text \<open>\<open>regexp.QuoteMeta\<close>.\<close>

definition quoteMeta :: "bytes \<Rightarrow> bytes" where
  "quoteMeta s = concat (map (\<lambda>c. if c \<in> set (BACKSLASH # ''.+*?()|[]{}^$'') then [BACKSLASH, c] else [c]) s)"

definition MatchReader :: "host \<Rightarrow> compiled_matcher \<Rightarrow> bytes \<Rightarrow> (exec_error, bool) result" where
  "MatchReader h cm content =
     (case (if Octet cm then binaryCompile h (Regexp cm) else regexpCompile h (Regexp cm)) of
        None \<Rightarrow> Inl (Panic ''nil matcher'')
      | Some f \<Rightarrow> Inr (f content \<noteq> None))"

text \<open>The expression that \<open>testReader\<close> builds; nothing is written for \<open>:regex\<close> and \<open>:list\<close>.\<close>

definition readerRegex :: "match_type \<Rightarrow> bool \<Rightarrow> bytes \<Rightarrow> (exec_error, bytes) result" where
  "readerRegex m caseFold key =
     (case m of
        MatchContains \<Rightarrow> Inr (quoteMeta key)
      | MatchIs \<Rightarrow> Inr (''^'' @ quoteMeta key @ ''$'')
      | MatchMatches \<Rightarrow> Inr (patternToRegex key caseFold)
      | MatchValue \<Rightarrow> Inl (Panic ''testReader does not support relational matching'')
      | MatchCount \<Rightarrow> Inl (Panic ''testReader should not be used with MatchCount'')
      | MatchRegex \<Rightarrow> Inr []
      | MatchList \<Rightarrow> Inr [])"

definition testReaderRegex ::
  "host \<Rightarrow> bytes \<Rightarrow> match_type \<Rightarrow> bytes \<Rightarrow> bytes \<Rightarrow> (exec_error, bool) result" where
  "testReaderRegex h comparator m content key =
     (let octet = IsOctet comparator; caseFold = IsCaseMap comparator in
      case readerRegex m caseFold key of
        Inl e \<Rightarrow> Inl e
      | Inr regex \<Rightarrow>
          (let regex' = (if caseFold then if octet then toLowerASCII regex else ''(?i)'' @ regex else regex);
               content' = (if caseFold \<and> octet then asciiLowerByteReader content else content) in
           case compileMatcherRegex h regex' octet of
             None \<Rightarrow> Inl ErrRegex
           | Some cm \<Rightarrow> MatchReader h cm content'))"

definition testReader :: "host \<Rightarrow> bytes \<Rightarrow> match_type \<Rightarrow> bytes \<Rightarrow> bytes \<Rightarrow> (exec_error, bool) result" where
  "testReader h comparator m content key =
     (if comparator = ComparatorASCIINumeric then
        (case m of
           MatchContains \<Rightarrow> Inl ErrComparatorMatchUnsupported
         | MatchMatches \<Rightarrow> Inl ErrComparatorMatchUnsupported
         | MatchIs \<Rightarrow> Inr (CompareNumericValue RelEqual (numericValueReader (uni h) content) (numericValue (uni h) key))
         | MatchValue \<Rightarrow> Inl (Panic ''testReader does not support relational matching'')
         | MatchCount \<Rightarrow> Inl (Panic ''testReader should not be used with MatchCount'')
         | _ \<Rightarrow> testReaderRegex h comparator m content key)
      else testReaderRegex h comparator m content key)"

text \<open>
  The loop over the keys; opening a part gives its contents, no body, or an error.
\<close>

fun bodyKeys ::
  "host \<Rightarrow> matcher_test \<Rightarrow> runtime \<Rightarrow> (exec_error, bytes option) result \<Rightarrow> bool \<Rightarrow> nat \<Rightarrow> bytes list \<Rightarrow>
     (exec_error, bool) result" where
  "bodyKeys h t d part strip i [] = Inr False"
| "bodyKeys h t d part strip i (key # ks) =
     (case part of
        Inl e \<Rightarrow> Inl e
      | Inr None \<Rightarrow> Inr False
      | Inr (Some content) \<Rightarrow>
          (let r = (if strip then stripHTML False content else content) in
           case (case compiledAt t i of
                   Some cm \<Rightarrow> MatchReader h cm r
                 | None \<Rightarrow>
                     (case expandVars h d key of
                        Inl e \<Rightarrow> Inl e
                      | Inr key1 \<Rightarrow>
                          (case expandVars h d key1 of
                             Inl e \<Rightarrow> Inl e
                           | Inr key2 \<Rightarrow> testReader h (Comparator t) (MMatch t) r key2))) of
             Inl e \<Rightarrow> Inl e
           | Inr ok \<Rightarrow> if ok then Inr True else bodyKeys h t d part strip (Suc i) ks))"

definition tryMatchBodyPart ::
  "host \<Rightarrow> matcher_test \<Rightarrow> runtime \<Rightarrow> (exec_error, bytes option) result \<Rightarrow> bool \<Rightarrow> (exec_error, bool) result" where
  "tryMatchBodyPart h t d part strip = bodyKeys h t d part strip 0 (Key t)"

section \<open>The test\<close>

datatype body_transform = BodyTransformRaw | BodyTransformText | BodyTransformContent

text \<open>The parts a transform selects: content type and what opening the part gives.\<close>

definition bodyTestParts ::
  "body_message \<Rightarrow> body_transform \<Rightarrow> bytes list \<Rightarrow> (exec_error, (bytes \<times> (exec_error, bytes option) result) list) result" where
  "bodyTestParts bm transform contentTypes =
     (case transform of
        BodyTransformRaw \<Rightarrow> Inr [([], BodyRaw bm)]
      | BodyTransformContent \<Rightarrow>
          map_sum id (map (\<lambda>(ct, b). (ct, Inr (Some b)))) (BodyParts bm contentTypes)
      | BodyTransformText \<Rightarrow>
          map_sum id (map (\<lambda>(ct, b). (ct, Inr (Some b)))) (BodyParts bm [''text'', ''application/xhtml+xml'']))"

fun bodyParts ::
  "host \<Rightarrow> matcher_test \<Rightarrow> runtime \<Rightarrow> body_transform \<Rightarrow> (bytes \<times> (exec_error, bytes option) result) list \<Rightarrow>
     (exec_error, bool) result" where
  "bodyParts h t d transform [] = Inr False"
| "bodyParts h t d transform ((ct0, part) # ps) =
     (let ct = ToLower (uni h) ct0;
          strip = (transform = BodyTransformText \<and> (HasPrefix ct ''text/html'' \<or> HasPrefix ct ''application/xhtml'')) in
      case tryMatchBodyPart h t d part strip of
        Inl e \<Rightarrow> Inl e
      | Inr ok \<Rightarrow> if ok then Inr True else bodyParts h t d transform ps)"

definition BodyTest_Check :: "host \<Rightarrow> matcher_test \<Rightarrow> body_transform \<Rightarrow> bytes list \<Rightarrow> bool exec" where
  "BodyTest_Check h t transform contentTypes d =
     (case BodyMessage h of
        None \<Rightarrow> (Inr False, d)
      | Some bm \<Rightarrow>
          (case bodyTestParts bm transform contentTypes of
             Inl e \<Rightarrow> (Inl e, d)
           | Inr parts \<Rightarrow>
               if isCount t then (countMatches h t d (of_nat (length parts)), d)
               else (bodyParts h t d transform parts, d)))"

section \<open>Content types\<close>

definition countByte :: "char \<Rightarrow> bytes \<Rightarrow> nat" where
  "countByte c s = length (filter (\<lambda>x. x = c) s)"

definition contentTypeMatch :: "unicode_tables \<Rightarrow> bytes \<Rightarrow> bytes \<Rightarrow> bool" where
  "contentTypeMatch U ctype p0 =
     (let p = ToLower U p0 in
      if HasPrefix p ''/'' \<or> (p \<noteq> [] \<and> last p = CHR ''/'') then False
      else if countByte CHR ''/'' p > 1 then False
      else if p = [] then True
      else if countByte CHR ''/'' p = 1 then ctype = p
      else HasPrefix ctype (p @ ''/'') \<and> countByte CHR ''/'' ctype = 1)"

definition ContentTypeMatches :: "unicode_tables \<Rightarrow> bytes \<Rightarrow> bytes list \<Rightarrow> bool" where
  "ContentTypeMatches U ctype0 patterns =
     (let ct = ToLower U (case Cut ctype0 CHR '';'' of (a, b, ok) \<Rightarrow> if ok then TrimSpace a else ctype0) in
      list_ex (contentTypeMatch U ct) patterns)"

text \<open>
  \<open>skipHeader\<close> and \<open>ParseBodyRaw\<close>: what follows the first line that is a lone newline or starts
  with a carriage return; \<open>None\<close> when there is no such line.  \<open>ReadSlice\<close> fails on a line that
  does not fit the buffer of 4096 bytes.
\<close>

fun skipHeader :: "nat \<Rightarrow> bytes \<Rightarrow> (exec_error, bytes option) result" where
  "skipHeader 0 s = Inl ErrFuel"
| "skipHeader (Suc n) s =
     (let line = takeWhile (\<lambda>c. c \<noteq> LF) s; rest = dropWhile (\<lambda>c. c \<noteq> LF) s in
      if length line \<ge> 4096 then Inl (ErrHost ''bufio: buffer full'')
      else (case rest of
              [] \<Rightarrow> Inr None
            | nl # after \<Rightarrow> if line = [] \<or> line ! 0 = CR then Inr (Some after) else skipHeader n after))"

definition ParseBodyRaw :: "bytes \<Rightarrow> (exec_error, bytes option) result" where
  "ParseBodyRaw raw = skipHeader (Suc (length raw)) raw"

end
