(* ===== verification/Body_Laws.thy ===== *)
theory Body_Laws
  imports Body Matching_Laws
begin

text \<open>
  The numeric comparator reads a number from a stream exactly as it does from a string, and
  what the missing cases of \<open>testReader\<close> do.
\<close>

section \<open>Runes of ASCII text\<close>

lemma runeChunks_ascii_head: "ord b < 128 \<Longrightarrow> runeChunks (b # s) = (ord b, [b]) # runeChunks s"
  by (simp add: decodeRune_def)

lemma runes_low: "isASCII s \<Longrightarrow> runes s = map ord s"
  by (induction s) (auto simp: isASCII_def runes_def runeChunks_ascii_head simp del: runeChunks.simps(2))

lemma decodeRune_wide:
  assumes "128 \<le> ord b"
  shows "128 \<le> fst (decodeRune (b # s))"
proof -
  have two: "0xC2 \<le> b0 \<Longrightarrow> 128 \<le> (b0 - 0xC0) * 0x40 + (x :: nat)" for b0 x by simp
  have three: "0xE0 \<le> b0 \<Longrightarrow> b0 = 0xE0 \<longrightarrow> 0xA0 \<le> b1 \<Longrightarrow> 128 \<le> (b0 - 0xE0) * 0x1000 + (b1 - 0x80) * 0x40 + (x :: nat)"
    for b0 b1 x by (cases "b0 = 0xE0") simp_all
  have four: "0xF0 \<le> b0 \<Longrightarrow> b0 = 0xF0 \<longrightarrow> 0x90 \<le> b1 \<Longrightarrow>
      128 \<le> (b0 - 0xF0) * 0x40000 + (b1 - 0x80) * 0x1000 + y + (x :: nat)"
    for b0 b1 x y by (cases "b0 = 0xF0") simp_all
  obtain t where t: "map ord (take 4 (b # s)) = ord b # t" by simp
  consider "ord b < 0xC2 \<or> 0xF4 < ord b" | "0xC2 \<le> ord b" "ord b \<le> 0xDF" | "0xE0 \<le> ord b" "ord b \<le> 0xEF"
    | "0xF0 \<le> ord b" "ord b \<le> 0xF4" by linarith
  then show ?thesis
  proof cases
    case 1
    then show ?thesis using assms unfolding decodeRune_def t list.case by (auto simp: runeError_def)
  next
    case 2
    then show ?thesis using two [OF 2(1)] unfolding decodeRune_def t list.case
      by (cases t) (simp_all add: runeError_def)
  next
    case 3
    show ?thesis
    proof (cases "\<exists>b1 b2 u. t = b1 # b2 # u \<and> (ord b = 0xE0 \<longrightarrow> 0xA0 \<le> b1)")
      case True
      then show ?thesis using 3 three [OF 3(1)] unfolding decodeRune_def t list.case by (auto simp: runeError_def)
    next
      case False
      then show ?thesis using 3 unfolding decodeRune_def t list.case by (auto simp: runeError_def split: list.split)
    qed
  next
    case 4
    show ?thesis
    proof (cases "\<exists>b1 b2 b3 u. t = b1 # b2 # b3 # u \<and> (ord b = 0xF0 \<longrightarrow> 0x90 \<le> b1)")
      case True
      then show ?thesis using 4 four [OF 4(1)] unfolding decodeRune_def t list.case by (auto simp: runeError_def)
    next
      case False
      then show ?thesis using 4 unfolding decodeRune_def t list.case by (auto simp: runeError_def split: list.split)
    qed
  qed
qed

lemma decodeRune_low:
  assumes "decodeRune (b # s) = (r, w)" "r < 128"
  shows "ord b = r" "w = 1"
proof -
  have b: "ord b < 128" using decodeRune_wide [of b s] assms by (cases "ord b < 128") auto
  then have "decodeRune (b # s) = (ord b, 1)" by (simp add: decodeRune_def)
  then show "ord b = r" "w = 1" using assms(1) by auto
qed

lemma ascii_runes: "list_all (\<lambda>r. r < 128) (runes s) \<Longrightarrow> s = map char_of (runes s)"
proof (induction s rule: runeChunks.induct)
  case (2 b s)
  obtain r w where d: "decodeRune (b # s) = (r, w)" by fastforce
  with 2(2) have "r < 128" by (simp add: runes_def)
  note a = decodeRune_low [OF d this]
  have "b = char_of r" using a(1) by auto
  then show ?case using 2(1) [OF d [symmetric]] 2(2) d a(2) by (simp add: runes_def)
qed simp

definition asciiDigit :: "nat \<Rightarrow> bool" where
  "asciiDigit r \<longleftrightarrow> 48 \<le> r \<and> r \<le> 57"

definition runeNumber :: "nat list \<Rightarrow> nat" where
  "runeNumber rs = foldl (\<lambda>n r. 10 * n + (r - 48)) 0 rs"

text \<open>The number that a list of digits denotes when all are ASCII and it fits in 64 bits.\<close>

definition digitsValue :: "nat list \<Rightarrow> 64 word option" where
  "digitsValue ds = (if list_all asciiDigit ds \<and> runeNumber ds < 2 ^ 64 then Some (of_nat (runeNumber ds)) else None)"

lemma digitPrefix_takeWhile:
  "digitPrefix U cs = (takeWhile (runeIsDigit U) (map fst cs), list_all (runeIsDigit U) (map fst cs))"
  by (induction U cs rule: digitPrefix.induct) auto

lemma encodeRunes_ascii: "list_all (\<lambda>r. r < 128) rs \<Longrightarrow> encodeRunes rs = map char_of rs"
  by (induction rs) (auto simp: encodeRune_def)

lemma dec_value_runes: "list_all asciiDigit ds \<Longrightarrow> dec_value (map char_of ds) = runeNumber ds"
proof -
  have "list_all asciiDigit ds \<Longrightarrow> foldl (\<lambda>n b. 10 * n + (ord b - 48)) k (map char_of ds) = foldl (\<lambda>n r. 10 * n + (r - 48)) k ds" for k
    by (induction ds arbitrary: k) (auto simp: asciiDigit_def)
  then show "list_all asciiDigit ds \<Longrightarrow> ?thesis" by (simp add: dec_value_def runeNumber_def)
qed

lemma ParseUint_runes:
  assumes "list_all asciiDigit ds" "ds \<noteq> []"
  shows "map_option of_nat (ParseUint 64 (map char_of ds)) = digitsValue ds"
proof -
  have "all_digits (map char_of ds)" using assms by (auto simp: all_digits_def list_all_iff is_digit_def asciiDigit_def)
  then show ?thesis using assms by (simp add: ParseUint_def digitsValue_def dec_value_runes)
qed

lemma encodeRune_non_ascii: "128 \<le> r \<Longrightarrow> \<exists>b \<in> set (encodeRune r). 128 \<le> ord b"
  by (auto simp: encodeRune_def validRune_def)

lemma digit_rune: "runeIsDigit U r \<Longrightarrow> r < 256 \<Longrightarrow> asciiDigit r"
  by (simp add: runeIsDigit_def asciiDigit_def)

lemma numericValue_digits:
  assumes "runes s = r # rs" "runeIsDigit U r"
  shows "numericValue U s = digitsValue (takeWhile (runeIsDigit U) (runes s))"
proof -
  let ?ds = "takeWhile (runeIsDigit U) (runes s)" and ?whole = "list_all (runeIsDigit U) (runes s)"
  let ?sl = "if ?whole then s else encodeRunes ?ds"
  have dp: "digitPrefix U (runeChunks s) = (?ds, ?whole)" by (simp add: digitPrefix_takeWhile runes_def)
  have nv: "numericValue U s = map_option of_nat (ParseUint 64 ?sl)"
    using assms by (simp add: numericValue_def dp)
  have ne: "?ds \<noteq> []" using assms by simp
  have whole: "?whole \<Longrightarrow> ?ds = runes s" by (simp add: list_all_iff)
  show ?thesis
  proof (cases "list_all asciiDigit ?ds")
    case True
    then have a: "list_all (\<lambda>r. r < 128) ?ds" by (auto simp: list_all_iff asciiDigit_def)
    have "?sl = map char_of ?ds"
    proof (cases ?whole)
      case True
      have "s = map char_of (runes s)" using ascii_runes a unfolding whole [OF True] by blast
      then show ?thesis unfolding if_P [OF True] whole [OF True] .
    qed (simp add: encodeRunes_ascii [OF a])
    then show ?thesis using nv ParseUint_runes [OF True ne] by simp
  next
    case False
    then obtain q where q: "q \<in> set ?ds" "\<not> asciiDigit q" by (auto simp: list_all_iff)
    then have "256 \<le> q" using digit_rune [of U q] set_takeWhileD [OF q(1)] by (meson not_le)
    have "\<exists>b \<in> set ?sl. 128 \<le> ord b"
    proof (cases ?whole)
      case True
      then have "q \<in> set (runes s)" using q(1) whole by simp
      then have "\<not> isASCII s" using \<open>256 \<le> q\<close> runes_low [of s]
        by (metis in_set_conv_nth length_map nth_map not_le ord_less_256)
      then show ?thesis using True by (auto simp: isASCII_def list_all_iff not_less)
    next
      case False
      then show ?thesis using q(1) encodeRune_non_ascii [of q] \<open>256 \<le> q\<close> by (auto simp: encodeRunes_def)
    qed
    then have "\<not> all_digits ?sl" by (fastforce simp: all_digits_def list_all_iff is_digit_def)
    then show ?thesis using nv False by (simp add: ParseUint_def digitsValue_def)
  qed
qed

lemma runeNumber_snoc_mono: "foldl (\<lambda>n r. 10 * n + (r - 48)) n rs \<ge> (n::nat)"
proof (induction rs arbitrary: n)
  case (Cons r rs)
  show ?case using Cons [of "10 * n + (r - 48)"] by simp
qed simp

lemma overflow_test:
  assumes "n < 2 ^ 64" "asciiDigit r"
  shows "(of_nat n :: 64 word) > (of_nat maxUint64 - of_nat (r - 48)) div 10 \<longleftrightarrow> 2 ^ 64 \<le> 10 * n + (r - 48)"
proof -
  let ?d = "r - 48"
  have d: "?d < 10" using assms(2) by (auto simp: asciiDigit_def)
  have u: "unat (of_nat maxUint64 :: 64 word) = maxUint64" "unat (of_nat ?d :: 64 word) = ?d" "unat (of_nat n :: 64 word) = n"
    using d assms(1) by (simp_all add: unat_of_nat maxUint64_def)
  have "unat (of_nat maxUint64 - of_nat ?d :: 64 word) = maxUint64 - ?d"
    using u d by (subst unat_sub) (simp_all add: word_le_nat_alt maxUint64_def)
  then have "unat ((of_nat maxUint64 - of_nat ?d :: 64 word) div 10) = (maxUint64 - ?d) div 10"
    by (simp add: unat_div)
  then have "(of_nat n :: 64 word) > (of_nat maxUint64 - of_nat ?d) div 10 \<longleftrightarrow> (maxUint64 - ?d) div 10 < n"
    using u by (simp add: word_less_nat_alt)
  also have "\<dots> \<longleftrightarrow> 2 ^ 64 \<le> 10 * n + ?d" using d by (auto simp: maxUint64_def)
  finally show ?thesis .
qed

lemma numericLoop_spec:
  assumes "n < 2 ^ 64"
  shows "\<exists>v. numericLoop U (of_nat n) ov rs =
    (let ds = takeWhile (runeIsDigit U) rs; m = foldl (\<lambda>n r. 10 * n + (r - 48)) n ds in
     if ov \<or> \<not> list_all asciiDigit ds \<or> 2 ^ 64 \<le> m then (v, True) else (of_nat m, False))"
  using assms
proof (induction rs arbitrary: n ov)
  case (Cons r rs)
  show ?case
  proof (cases "runeIsDigit U r \<and> asciiDigit r \<and> \<not> ov \<and> 10 * n + (r - 48) < 2 ^ 64")
    case True
    then have "numericLoop U (of_nat n) ov (r # rs) = numericLoop U (of_nat (10 * n + (r - 48))) False rs"
      using overflow_test [OF Cons.prems, of r] by (auto simp: Let_def asciiDigit_def mult.commute add_diff_eq)
    with Cons.IH [of "10 * n + (r - 48)" False] True show ?thesis by (auto simp: Let_def)
  next
    case False
    show ?thesis
    proof (cases "runeIsDigit U r")
      case True
      then have "numericLoop U (of_nat n) ov (r # rs) = numericLoop U (of_nat n) True rs"
        using False overflow_test [OF Cons.prems, of r] by (auto simp: Let_def asciiDigit_def)
      moreover obtain v where "numericLoop U (of_nat n) True rs = (v, True)"
        using Cons.IH [OF Cons.prems, of True] by (auto simp: Let_def)
      moreover have "ov \<or> \<not> list_all asciiDigit (takeWhile (runeIsDigit U) (r # rs)) \<or>
          2 ^ 64 \<le> foldl (\<lambda>n r. 10 * n + (r - 48)) n (takeWhile (runeIsDigit U) (r # rs))"
      proof (cases "ov \<or> \<not> asciiDigit r")
        case False
        with True \<open>\<not> (runeIsDigit U r \<and> _)\<close> have "2 ^ 64 \<le> 10 * n + (r - 48)" by simp
        also have "\<dots> \<le> foldl (\<lambda>n r. 10 * n + (r - 48)) (10 * n + (r - 48)) (takeWhile (runeIsDigit U) rs)"
          by (rule runeNumber_snoc_mono)
        finally show ?thesis using True by simp
      qed (use True in auto)
      ultimately show ?thesis by (simp only: Let_def if_True) blast
    qed (use Cons.prems in \<open>auto simp: Let_def\<close>)
  qed
qed (auto simp: Let_def)

section \<open>Properties\<close>

text \<open>
  C32. Reading a number from a stream rune by rune, with the overflow test on 64 bit words,
  gives what the string version computes with \<open>ParseUint\<close>, for every input.
\<close>

theorem numeric_reader_equivalence: "numericValueReader U content = numericValue U content"
proof (cases "runes content")
  case (Cons r rs)
  show ?thesis
  proof (cases "runeIsDigit U r")
    case True
    let ?ds = "takeWhile (runeIsDigit U) rs"
    have nv: "numericValue U content = digitsValue (r # ?ds)" using numericValue_digits [OF Cons True] Cons True by simp
    show ?thesis
    proof (cases "asciiDigit r")
      case True
      then have n: "r - 48 < 2 ^ 64" by (auto simp: asciiDigit_def)
      have "foldl (\<lambda>n r. 10 * n + (r - 48)) (r - 48) ?ds = runeNumber (r # ?ds)" by (simp add: runeNumber_def)
      with numericLoop_spec [OF n, of U False rs] show ?thesis
        using nv True \<open>runeIsDigit U r\<close> Cons
        by (auto simp: numericValueReader_def digitsValue_def Let_def asciiDigit_def)
    qed (use nv True Cons in \<open>simp add: numericValueReader_def digitsValue_def asciiDigit_def, auto\<close>)
  qed (use Cons in \<open>simp add: numericValueReader_def numericValue_def\<close>)
qed (simp add: numericValueReader_def numericValue_def)

lemma setKey_list:
  assumes "setKey h s (newMatcherTest\<lparr>MMatch := MatchList, matchCnt := 1\<rparr>) ks = (Inr m, s')"
  shows "MMatch m = MatchList" "Comparator m = []" "keyCompiled m = None" "Key m = ks"
  using assms by (auto simp: setKey_def newMatcherTest_def Let_def split: prod.splits if_splits)

text \<open>
  \<open>testReader\<close> has no case for \<open>:list\<close> and compiles the empty expression: with an engine
  in which the empty expression matches every text, \<open>body :raw :list\<close> holds for every message
  with a body, whatever the lists contain.
\<close>

theorem body_list_matches_everything:
  assumes "setKey h s (newMatcherTest\<lparr>MMatch := MatchList, matchCnt := 1\<rparr>) (k # ks) = (Inr m, s')"
    and "regexpCompile h [] = Some f" and "f content \<noteq> None"
    and "BodyMessage h = Some bm" and "BodyRaw bm = Inr (Some content)"
    and "\<not> requiresExt (Script d) ''variables''"
  shows "BodyTest_Check h m BodyTransformRaw [] d = (Inr True, d)"
proof -
  note m = setKey_list [OF assms(1)]
  have "testReader h (Comparator m) MatchList content x = Inr True" for x
    using assms(2,3) m
    by (simp add: testReader_def testReaderRegex_def readerRegex_def comparators IsOctet_def IsCaseMap_def
        compileMatcherRegex_def restore_def MatchReader_def)
  then have "tryMatchBodyPart h m d (Inr (Some content)) False = Inr True"
    using m assms(6) by (simp add: tryMatchBodyPart_def compiledAt_def expandVars_def)
  then show ?thesis using assms(4,5) m by (simp add: BodyTest_Check_def bodyTestParts_def isCount_def)
qed

theorem body_list_matches_everything_witness:
  "let h = exampleHost\<lparr>regexpCompile := (\<lambda>e. if e = [] then Some (\<lambda>_. Some [[]]) else None),
       BodyMessage := Some \<lparr>BodyRaw = Inr (Some ''hello''), BodyParts = (\<lambda>_. Inr [])\<rparr>\<rparr>;
       m = newMatcherTest\<lparr>MMatch := MatchList, matchCnt := 1, Key := [''blocked'']\<rparr>
   in BodyTest_Check h m BodyTransformRaw [] (exampleData {}) = (Inr True, exampleData {})"
proof -
  let ?h = "exampleHost\<lparr>regexpCompile := (\<lambda>e. if e = [] then Some (\<lambda>_. Some [[]]) else None),
       BodyMessage := Some \<lparr>BodyRaw = Inr (Some ''hello''), BodyParts = (\<lambda>_. Inr [])\<rparr>\<rparr>"
  let ?m = "newMatcherTest\<lparr>MMatch := MatchList, matchCnt := 1, Key := [''blocked'']\<rparr>"
  let ?s = "Script (exampleData {''extlists''})"
  have "setKey ?h ?s (newMatcherTest\<lparr>MMatch := MatchList, matchCnt := 1\<rparr>) [''blocked''] = (Inr ?m, ?s)"
    by (simp add: setKey_def newMatcherTest_def Let_def example_defs RequiresExtension_def)
  from body_list_matches_everything [OF this, of "\<lambda>_. Some [[]]" "''hello''" _ "exampleData {}"] show ?thesis
    by (simp add: Let_def example_defs RequiresExtension_def)
qed

end
