(* ===== verification/Mime.thy ===== *)
theory Mime
  imports Matching
begin

text \<open>
  The MIME tree of \<open>interp/mime.go\<close>: parsing a message into parts, the parts a \<open>:mime\<close> test
  looks at, and the values it compares.  The header reader, the multipart reader and the
  content type parser of go-message are parameters (\<open>ReadHeader\<close>, \<open>MultipartParts\<close>,
  \<open>ContentType\<close>, \<open>HdrGet\<close>, \<open>HdrHas\<close> of the host).

  The recursion over nested multiparts takes fuel: \<open>parseMIMETree\<close> gives one unit for each byte
  of the message, which is enough for a reader whose parts are shorter than the body it reads
  them from (\<open>mime_tree_total\<close>).
\<close>

section \<open>The tree\<close>

definition isMultipart :: "mimePart \<Rightarrow> bool" where
  "isMultipart p \<longleftrightarrow> HasPrefix (contentType p) ''multipart/''"

fun descendants :: "mimePart \<Rightarrow> mimePart list" where
  "descendants (MimePart h ct t s ps b cs) = concat (map (\<lambda>c. c # descendants c) cs)"

text \<open>The boundary that splits a body into parts; \<open>None\<close> when the entity has none.\<close>

definition partBoundary :: "bytes \<Rightarrow> (bytes \<rightharpoonup> bytes) \<Rightarrow> bytes option" where
  "partBoundary ct ps =
     (if HasPrefix ct ''multipart/'' \<and> mapGet ps ''boundary'' \<noteq> [] then Some (mapGet ps ''boundary'') else None)"

fun parseMIMEEntity :: "nat \<Rightarrow> host \<Rightarrow> mime_header \<Rightarrow> bytes \<Rightarrow> mimePart option"
and parseMIMEParts :: "nat \<Rightarrow> host \<Rightarrow> (mime_header \<times> bytes) list \<Rightarrow> mimePart list option" where
  "parseMIMEEntity 0 h hdr raw = None"
| "parseMIMEEntity (Suc n) h hdr raw =
     (case ContentType h hdr of (ct0, ps) \<Rightarrow>
       (let ct = ToLower (uni h) ct0 in
        case Cut ct CHR ''/'' of (t, sub, ok) \<Rightarrow>
          (case (case partBoundary ct ps of
                   Some boundary \<Rightarrow> parseMIMEParts n h (MultipartParts h raw boundary)
                 | None \<Rightarrow> Some []) of
             None \<Rightarrow> None
           | Some cs \<Rightarrow> Some (MimePart hdr ct t sub ps raw cs))))"
| "parseMIMEParts n h [] = Some []"
| "parseMIMEParts n h ((hdr, raw) # parts) =
     (case parseMIMEEntity n h hdr raw of
        None \<Rightarrow> None
      | Some c \<Rightarrow> (case parseMIMEParts n h parts of None \<Rightarrow> None | Some cs \<Rightarrow> Some (c # cs)))"

definition parseMIMETree :: "host \<Rightarrow> bytes \<Rightarrow> (exec_error, mimePart) result" where
  "parseMIMETree h raw =
     (case ReadHeader h raw of
        None \<Rightarrow> Inl (ErrHost ''malformed header'')
      | Some (hdr, rest) \<Rightarrow>
          (case parseMIMEEntity (Suc (length rest)) h hdr rest of None \<Rightarrow> Inl ErrFuel | Some p \<Rightarrow> Inr p))"

text \<open>The cached tree of the message; \<open>None\<close> without raw bytes.\<close>

definition mimeTree :: "host \<Rightarrow> (exec_error, mimePart option) result" where
  "mimeTree h =
     (case RawMessageBytes h of
        None \<Rightarrow> Inr None
      | Some raw \<Rightarrow> map_sum id Some (parseMIMETree h raw))"

definition currentMIMEPart :: "runtime \<Rightarrow> mimePart option" where
  "currentMIMEPart d = (if partStack d = [] then None else Some (last (partStack d)))"

text \<open>The parts of a \<open>:mime\<close> test; a message that does not parse has none.\<close>

definition mimeTestParts :: "host \<Rightarrow> runtime \<Rightarrow> bool \<Rightarrow> (exec_error, mimePart list) result" where
  "mimeTestParts h d anyChild =
     (case currentMIMEPart d of
        Some cur \<Rightarrow> Inr (if \<not> anyChild then [cur] else cur # descendants cur)
      | None \<Rightarrow>
          (case mimeTree h of
             Inl ErrFuel \<Rightarrow> Inl ErrFuel
           | Inl e \<Rightarrow> Inr []
           | Inr None \<Rightarrow> Inr []
           | Inr (Some tree) \<Rightarrow> Inr (if \<not> anyChild then [tree] else tree # descendants tree)))"

section \<open>Header values\<close>

text \<open>\<open>strings.Split\<close> at a byte, and \<open>strings.Trim\<close> with one byte.\<close>

fun splitByte :: "char \<Rightarrow> bytes \<Rightarrow> bytes list" where
  "splitByte c [] = [[]]"
| "splitByte c (b # s) =
     (if b = c then [] # splitByte c s
      else (case splitByte c s of x # xs \<Rightarrow> (b # x) # xs | [] \<Rightarrow> [[b]]))"

definition trimByte :: "char \<Rightarrow> bytes \<Rightarrow> bytes" where
  "trimByte c s = rev (dropWhile (\<lambda>b. b = c) (rev (dropWhile (\<lambda>b. b = c) s)))"

definition headerParam :: "unicode_tables \<Rightarrow> bytes \<Rightarrow> (bytes \<rightharpoonup> bytes) \<Rightarrow> (bytes \<rightharpoonup> bytes)" where
  "headerParam U s ps =
     (case Cut s CHR ''='' of (k, v, ok) \<Rightarrow>
        if ok then ps(ToLower U (TrimSpace k) \<mapsto> trimByte DQUOTE (TrimSpace v)) else ps)"

definition parseMIMEHeaderValue :: "unicode_tables \<Rightarrow> bytes \<Rightarrow> bytes \<times> (bytes \<rightharpoonup> bytes)" where
  "parseMIMEHeaderValue U v =
     (case splitByte CHR '';'' v of
        seg # segs \<Rightarrow> (TrimSpace seg, fold (headerParam U) segs Map.empty)
      | [] \<Rightarrow> ([], Map.empty))"

fun selectParams :: "unicode_tables \<Rightarrow> (bytes \<rightharpoonup> bytes) \<Rightarrow> bytes list \<Rightarrow> bytes list" where
  "selectParams U ps [] = []"
| "selectParams U ps (n # ns) =
     (case ps (ToLower U n) of Some v \<Rightarrow> v # selectParams U ps ns | None \<Rightarrow> selectParams U ps ns)"

definition mimeHeaderValues :: "host \<Rightarrow> mimePart \<Rightarrow> bytes \<Rightarrow> bytes \<Rightarrow> bytes list \<Rightarrow> bytes list" where
  "mimeHeaderValues h part field mode paramNames =
     (let raw = HdrGet h (mheader part) field; fieldLC = ToLower (uni h) field in
      case parseMIMEHeaderValue (uni h) raw of (main, ps) \<Rightarrow>
        (case Cut main CHR ''/'' of (t, sub, ok) \<Rightarrow>
          if mode = [] then if raw = [] then [] else [raw]
          else if mode = ''type'' then
            [if fieldLC = ''content-type'' then ToLower (uni h) t
             else if fieldLC = ''content-disposition'' then ToLower (uni h) main else []]
          else if mode = ''subtype'' then
            [if fieldLC = ''content-type'' then ToLower (uni h) sub else []]
          else if mode = ''contenttype'' then
            [if fieldLC = ''content-type'' then ToLower (uni h) (TrimSpace main)
             else if fieldLC = ''content-disposition'' then ToLower (uni h) main else []]
          else if mode = ''param'' then selectParams (uni h) ps paramNames
          else []))"

text \<open>The text of a part; a part that cannot be decoded, and no part, give the empty text.\<close>

definition decodePartText :: "host \<Rightarrow> mimePart option \<Rightarrow> bytes" where
  "decodePartText h p =
     (case p of
        None \<Rightarrow> []
      | Some q \<Rightarrow> (case EntityText h (mheader q) (mbody q) of Some t \<Rightarrow> t | None \<Rightarrow> []))"

section \<open>Termination\<close>

text \<open>
  \<open>splits\<close>: the parts that the reader takes from a body are shorter than the body.
\<close>

definition splits :: "host \<Rightarrow> bool" where
  "splits h \<longleftrightarrow> (\<forall>raw b. \<forall>p \<in> set (MultipartParts h raw b). length (snd p) < length raw)"

lemma parseMIMEParts_total:
  "(\<And>p. p \<in> set parts \<Longrightarrow> \<exists>q. parseMIMEEntity n h (fst p) (snd p) = Some q) \<Longrightarrow>
   \<exists>cs. parseMIMEParts n h parts = Some cs \<and> length cs = length parts"
proof (induction parts)
  case (Cons p parts)
  obtain q where "parseMIMEEntity n h (fst p) (snd p) = Some q" using Cons.prems [of p] by auto
  moreover obtain cs where "parseMIMEParts n h parts = Some cs" "length cs = length parts"
    using Cons.IH Cons.prems by auto
  ultimately show ?case by (cases p) simp
qed simp

lemma parseMIMEEntity_total:
  assumes "splits h" "length raw < n"
  shows "\<exists>p. parseMIMEEntity n h hdr raw = Some p"
  using assms(2)
proof (induction n arbitrary: hdr raw rule: nat_less_induct)
  case (1 m)
  then obtain n where m: "m = Suc n" by (cases m) auto
  have "\<exists>q. parseMIMEEntity n h (fst p) (snd p) = Some q" if "p \<in> set (MultipartParts h raw b)" for p b
    using 1 m that assms(1) unfolding splits_def by (metis less_Suc_eq_le less_le_trans lessI)
  then have "\<forall>b. \<exists>cs. parseMIMEParts n h (MultipartParts h raw b) = Some cs" using parseMIMEParts_total by blast
  then obtain g where "\<And>b. parseMIMEParts n h (MultipartParts h raw b) = Some (g b)" by metis
  then show ?case unfolding m by (auto simp: Let_def split: prod.splits option.splits)
qed

text \<open>
  C27. A message whose header can be read has a MIME tree: parsing of nested multiparts ends,
  for every multipart reader whose parts are shorter than the body they come from.
\<close>

theorem mime_tree_total:
  assumes "splits h" and "ReadHeader h raw = Some (hdr, rest)"
  shows "\<exists>p. parseMIMETree h raw = Inr p"
  using parseMIMEEntity_total [OF assms(1), of rest "Suc (length rest)" hdr] assms(2)
  by (auto simp: parseMIMETree_def)

theorem mime_tree_total_witness:
  "\<exists>p. parseMIMETree (exampleHost\<lparr>ReadHeader := (\<lambda>raw. Some ([], raw)),
      ContentType := (\<lambda>_. (''multipart/mixed'', [''boundary'' \<mapsto> ''b''])),
      MultipartParts := (\<lambda>raw b. if raw = [] then [] else [([], tl raw)])\<rparr>) ''abc'' = Inr p"
  by (rule mime_tree_total [where hdr = "[]" and rest = "''abc''"]) (simp_all add: splits_def)

end
