(* ===== verification/Program.thy ===== *)
theory Program
  imports Dates Body Mime
begin

text \<open>
  Loaded scripts: the test and command types of package \<open>interp\<close> as two datatypes with the
  fields of the Go structs.  The embedded \<open>matcherTest\<close> is the first field where a struct has
  one.  A value modifier closure is the map of modifiers by precedence together with the
  \<open>MaxVariableLen\<close> that the closure reads.

  The commands \<open>replace\<close> and \<open>enclose\<close> and the commands and tests of the Dovecot test suite
  have no constructor.
\<close>

section \<open>Tests\<close>

datatype id_source = IdMessageID | IdHeader | IdUniqueID

datatype execute_input = ExecuteInputNone | ExecuteInputString | ExecuteInputMessage

datatype itest =
    AddressTest matcher_test address_part "bytes list"
  | AllOfTest "itest list"
  | AnyOfTest "itest list"
  | NotTest itest
  | TrueTest
  | FalseTest
  | EnvelopeTest matcher_test address_part "bytes list"
  | ExistsTest "bytes list" bool bool
  | HeaderTest matcher_test "bytes list" bool bool bytes "bytes list"
  | SizeTest int bool bool
  | EnvironmentTest matcher_test "bytes list"
  | HasFlagTest matcher_test "bytes list"
  | BodyTest matcher_test body_transform "bytes list"
  | TestString matcher_test "bytes list"
  | DateTest matcher_test bytes bytes bytes bool int bool
  | CurrentDateTest matcher_test bytes bytes
  | MailboxExistsTest "bytes list"
  | TestMailboxIDExists "bytes list"
  | TestSpecialUseExists bytes "bytes list"
  | TestValidExtList "bytes list"
  | TestValidNotifyMethod "bytes list"
  | TestNotifyMethodCapability matcher_test bytes bytes
  | SpamTest matcher_test bool
  | VirusTest matcher_test
  | TestMetadata matcher_test bytes bytes
  | TestMetadataExists bytes "bytes list"
  | TestServerMetadata matcher_test bytes
  | TestServerMetadataExists "bytes list"
  | TestIhave "bytes list" bool
  | TestDuplicate bytes "32 word" bool id_source bytes
  | TestFilter bytes "bytes list"
  | TestExecute bytes "bytes list" execute_input bytes bytes

section \<open>Commands\<close>

datatype value_modifier =
  ModLength | ModQuoteWildcard | ModQuoteRegex | ModEncodeURL | ModUpperFirst | ModLowerFirst | ModUpper | ModLower

type_synonym modifiers = "nat \<rightharpoonup> value_modifier"

record vacation_cmd =
  CDays :: int
  CSubject :: bytes
  CFrom :: bytes
  CAddresses :: "bytes list"
  CMime :: bool
  CHandle :: bytes
  CReason :: bytes
  CSeconds :: int
  CFcc :: bytes
  CFccFlags :: flags
  CFccCreate :: bool
  CFccSpecialUse :: bytes
  CDaysGiven :: bool
  CSecondsGiven :: bool

datatype icmd =
    CmdStop
  | CmdFileInto bytes flags bool bool bytes bytes
  | CmdRedirect bytes bool bool
  | CmdKeep flags
  | CmdDiscard
  | CmdSetFlag bytes flags
  | CmdAddFlag bytes flags
  | CmdRemoveFlag bytes flags
  | CmdReject bytes
  | CmdEReject bytes
  | CmdIf itest "icmd list"
  | CmdElsif itest "icmd list"
  | CmdElse "icmd list"
  | CmdSet bytes bytes modifiers int
  | CmdVacation vacation_cmd
  | CmdAddHeader bytes bytes bool
  | CmdDeleteHeader matcher_test bytes "bytes list" int bool
  | CmdError bytes
  | CmdInclude bytes bool bool bytes
  | CmdReturn
  | CmdGlobal "bytes list"
  | CmdNotify bytes bytes bytes "bytes list" bytes
  | CmdDebugLog bytes
  | CmdPipe bytes "bytes list" bool bool
  | CmdFilter bytes "bytes list"
  | CmdExecute bytes "bytes list" execute_input bytes bytes
  | CmdReport bytes bytes bytes bool
  | CmdForEveryPart bytes "icmd list"
  | CmdBreak bytes
  | CmdExtractText int bytes modifiers int
  | CmdNoop

section \<open>Expansion in sequence\<close>

text \<open>
  The pattern of every command and test: expand a string, or report the panic of the
  expansion; emit an action, or return its error.
\<close>

definition expanding :: "host \<Rightarrow> bytes \<Rightarrow> (bytes \<Rightarrow> 'a exec) \<Rightarrow> 'a exec" where
  "expanding h s k d = (case expandVars h d s of Inl e \<Rightarrow> (Inl e, d) | Inr v \<Rightarrow> k v d)"

definition expandingList :: "host \<Rightarrow> flags \<Rightarrow> (bytes list \<Rightarrow> 'a exec) \<Rightarrow> 'a exec" where
  "expandingList h l k d = (case expandVarsList h d l of Inl e \<Rightarrow> (Inl e, d) | Inr vs \<Rightarrow> k vs d)"

definition acting :: "host \<Rightarrow> action \<Rightarrow> unit exec \<Rightarrow> unit exec" where
  "acting h a k d = (case OnAction h a d of (Inl e, d') \<Rightarrow> (Inl e, d') | (Inr _, d') \<Rightarrow> k d')"

definition flagList :: "flags \<Rightarrow> bytes list" where
  "flagList f = (case f of None \<Rightarrow> [] | Some fs \<Rightarrow> fs)"

fun isPanic :: "exec_error \<Rightarrow> bool" where
  "isPanic (Panic s) = True"
| "isPanic _ = False"

section \<open>External programs\<close>

text \<open>Names and arguments of the programs that \<open>pipe\<close>, \<open>filter\<close> and \<open>execute\<close> run.\<close>

definition isValidProgramName :: "bytes \<Rightarrow> bool" where
  "isValidProgramName name \<longleftrightarrow>
     name \<noteq> [] \<and> length (runes name) \<le> 128 \<and>
     list_all (\<lambda>r. r \<noteq> of_char CHR ''/'' \<and>
       \<not> (r \<le> 0x1F \<or> r = 0x7F \<or> (r \<ge> 0x80 \<and> r \<le> 0x9F) \<or> r = 0x2028 \<or> r = 0x2029)) (runes name)"

definition isValidPipeArg :: "bytes \<Rightarrow> bool" where
  "isValidPipeArg arg \<longleftrightarrow> CR \<notin> set arg \<and> LF \<notin> set arg"

definition YariloPipeExtension :: bytes where
  "YariloPipeExtension = ''vnd.yarilo.pipe''"

definition YariloFilterExtension :: bytes where
  "YariloFilterExtension = ''vnd.yarilo.filter''"

definition YariloExecuteExtension :: bytes where
  "YariloExecuteExtension = ''vnd.yarilo.execute''"

definition YariloReportExtension :: bytes where
  "YariloReportExtension = ''vnd.yarilo.report''"

definition YariloDebugExtension :: bytes where
  "YariloDebugExtension = ''vnd.yarilo.debug''"

lemmas yarilo_extensions = YariloPipeExtension_def YariloFilterExtension_def YariloExecuteExtension_def
  YariloReportExtension_def YariloDebugExtension_def YariloEnvironmentExtension_def

text \<open>\<open>runFilter\<close>: empty output is no output.\<close>

definition runFilter :: "host \<Rightarrow> bytes \<Rightarrow> bytes list \<Rightarrow> unit exec" where
  "runFilter h programName args d =
     (case Filter h of
        None \<Rightarrow> (Inl (ErrNoInterface ''FilterExecutor''), d)
      | Some run \<Rightarrow>
          (case run programName args (StaticRaw h) of
             Inl e \<Rightarrow> (Inl (ErrProgramFailed programName), d)
           | Inr None \<Rightarrow> (Inr (), d\<lparr>FilteredMessage := None\<rparr>)
           | Inr (Some data) \<Rightarrow> (Inr (), d\<lparr>FilteredMessage := (if data = [] then None else Some data)\<rparr>)))"

text \<open>The shared part of the filter command and the filter test: true when there is output.\<close>

definition filterCommon :: "host \<Rightarrow> bytes \<Rightarrow> bytes list \<Rightarrow> bool exec" where
  "filterCommon h programName0 args0 d =
     (if \<not> requiresExt (Script d) YariloFilterExtension then (Inl (ErrExtension YariloFilterExtension), d)
      else expanding h programName0 (\<lambda>programName d.
        if \<not> isValidProgramName programName then (Inl (ErrProgramName programName), d)
        else (case expandEach h d args0 of
                Inl e \<Rightarrow> (Inl e, d)
              | Inr args \<Rightarrow>
                  (case runFilter h programName args d of
                     (Inl e, d1) \<Rightarrow> (Inl e, d1)
                   | (Inr _, d1) \<Rightarrow>
                       (case OnAction h (ActionFilter programName args) d1 of
                          (Inl e, d2) \<Rightarrow> (Inl e, d2)
                        | (Inr _, d2) \<Rightarrow> (Inr (FilteredMessage d1 \<noteq> None), d2))))) d)"

text \<open>\<open>runExecute\<close> on expanded arguments: the exit status; output may set a variable.\<close>

definition runExecute ::
  "host \<Rightarrow> bytes \<Rightarrow> bytes list \<Rightarrow> execute_input \<Rightarrow> bytes \<Rightarrow> bytes \<Rightarrow> bool exec" where
  "runExecute h programName args input inputData outputVar d =
     (case ExecuteProgram h of
        None \<Rightarrow> (Inl (ErrNoInterface ''ExecuteExecutor''), d)
      | Some run \<Rightarrow>
          (case (case input of
                   ExecuteInputNone \<Rightarrow> Inr None
                 | ExecuteInputString \<Rightarrow> map_sum id Some (expandVars h d inputData)
                 | ExecuteInputMessage \<Rightarrow> Inr (Some (StaticRaw h))) of
             Inl e \<Rightarrow> (Inl e, d)
           | Inr stdin \<Rightarrow>
               (case run programName args stdin of
                  Inl e \<Rightarrow> (Inl (ErrProgramFailed programName), d)
                | Inr (out, ok) \<Rightarrow>
                    if outputVar \<noteq> [] \<and> out \<noteq> [] then
                      expanding h outputVar (\<lambda>varName d.
                        case SetVar (uni h) varName out d of (Inl e, d') \<Rightarrow> (Inl e, d') | (Inr _, d') \<Rightarrow> (Inr ok, d')) d
                    else (Inr ok, d))))"

definition executeCommon ::
  "host \<Rightarrow> bytes \<Rightarrow> bytes list \<Rightarrow> execute_input \<Rightarrow> bytes \<Rightarrow> bytes \<Rightarrow> bool exec" where
  "executeCommon h programName0 args0 input inputData outputVar d =
     (if \<not> requiresExt (Script d) YariloExecuteExtension then (Inl (ErrExtension YariloExecuteExtension), d)
      else expanding h programName0 (\<lambda>programName d.
        if \<not> isValidProgramName programName then (Inl (ErrProgramName programName), d)
        else (case expandEach h d args0 of
                Inl e \<Rightarrow> (Inl e, d)
              | Inr args \<Rightarrow> runExecute h programName args input inputData outputVar d)) d)"

end
