(* ===== verification/Encoded_Chars.thy ===== *)
theory Encoded_Chars
  imports Go_Strings
begin

text \<open>
  The encoded-character extension: \<open>decodeEncodedChars\<close> of \<open>interp/strings.go\<close>.

  A sequence \<open>${hex:...}\<close> or \<open>${unicode:...}\<close> (the words in any case) is recognised by a
  regular expression; since its body has no closing brace, a match ends at the first one.
  \<open>encodedAt\<close> is the match at the head of a text, \<open>None\<close> of the decoders is the error.
\<close>

section \<open>Recognising a sequence\<close>

definition isBlank :: "char \<Rightarrow> bool" where
  "isBlank c \<longleftrightarrow> c = CHR '' '' \<or> c = TAB \<or> c = CR \<or> c = LF"

definition hexValue :: "char \<Rightarrow> nat option" where
  "hexValue c =
     (if is_digit c then Some (ord c - 48)
      else if 97 \<le> ord c \<and> ord c \<le> 102 then Some (ord c - 87)
      else if 65 \<le> ord c \<and> ord c \<le> 70 then Some (ord c - 55)
      else None)"

definition isHex :: "char \<Rightarrow> bool" where
  "isHex c \<longleftrightarrow> hexValue c \<noteq> None"

text \<open>The words of a body: maximal runs of characters that are not blank.\<close>

fun bodyWords :: "bytes \<Rightarrow> bytes \<Rightarrow> bytes list" where
  "bodyWords cur [] = (if cur = [] then [] else [cur])"
| "bodyWords cur (c # s) =
     (if isBlank c then (if cur = [] then bodyWords [] s else cur # bodyWords [] s)
      else bodyWords (cur @ [c]) s)"

definition hexBody :: "bytes \<Rightarrow> bool" where
  "hexBody b \<longleftrightarrow> bodyWords [] b \<noteq> [] \<and> list_all (\<lambda>w. length w \<le> 2 \<and> list_all isHex w) (bodyWords [] b)"

definition unicodeBody :: "bytes \<Rightarrow> bool" where
  "unicodeBody b \<longleftrightarrow> bodyWords [] b \<noteq> [] \<and> list_all (list_all isHex) (bodyWords [] b)"

datatype encoded = Hex bytes | Unicode bytes

definition encodedAt :: "bytes \<Rightarrow> (encoded \<times> bytes) option" where
  "encodedAt s =
     (let hx = drop 6 s; un = drop 10 s; notClose = (\<lambda>c. c \<noteq> CHR ''}'') in
      if HasPrefix (map lowerByte s) ''${hex:'' \<and> hexBody (takeWhile notClose hx) \<and> dropWhile notClose hx \<noteq> [] then
        Some (Hex (takeWhile notClose hx), tl (dropWhile notClose hx))
      else if HasPrefix (map lowerByte s) ''${unicode:'' \<and> unicodeBody (takeWhile notClose un) \<and>
              dropWhile notClose un \<noteq> [] then
        Some (Unicode (takeWhile notClose un), tl (dropWhile notClose un))
      else None)"

section \<open>Decoding\<close>

text \<open>\<open>hex.DecodeString\<close>: pairs of digits.\<close>

fun hexPairs :: "bytes \<Rightarrow> bytes option" where
  "hexPairs [] = Some []"
| "hexPairs [a] = None"
| "hexPairs (a # b # s) =
     (case (hexValue a, hexValue b) of
        (Some x, Some y) \<Rightarrow> map_option (\<lambda>r. char_of (16 * x + y) # r) (hexPairs s)
      | _ \<Rightarrow> None)"

text \<open>\<open>strconv.ParseInt(part, 16, 32)\<close> of a word of hexadecimal digits.\<close>

definition hexNumber :: "bytes \<Rightarrow> nat" where
  "hexNumber w = foldl (\<lambda>n c. 16 * n + (case hexValue c of Some v \<Rightarrow> v | None \<Rightarrow> 0)) 0 w"

definition ParseHex32 :: "bytes \<Rightarrow> nat option" where
  "ParseHex32 w = (if w \<noteq> [] \<and> list_all isHex w \<and> hexNumber w < 2 ^ 31 then Some (hexNumber w) else None)"

text \<open>\<open>strings.Split\<close> at spaces.\<close>

fun splitSpaces :: "bytes \<Rightarrow> bytes list" where
  "splitSpaces [] = [[]]"
| "splitSpaces (c # s) =
     (if c = CHR '' '' then [] # splitSpaces s
      else (case splitSpaces s of w # ws \<Rightarrow> (c # w) # ws | [] \<Rightarrow> [[c]]))"

fun decodeRunes :: "bytes list \<Rightarrow> bytes option" where
  "decodeRunes [] = Some []"
| "decodeRunes (w # ws) =
     (if w = [] then decodeRunes ws
      else (case ParseHex32 w of
              None \<Rightarrow> None
            | Some v \<Rightarrow>
                if \<not> (v \<le> 0xD7FF) \<and> \<not> (v \<ge> 0xE000 \<and> v \<le> 0x10FFFF) then None
                else map_option (\<lambda>r. encodeRune v @ r) (decodeRunes ws)))"

fun decodeMatch :: "encoded \<Rightarrow> bytes option" where
  "decodeMatch (Hex b) = hexPairs (filter (\<lambda>c. \<not> isBlank c) b)"
| "decodeMatch (Unicode b) = decodeRunes (splitSpaces (filter (\<lambda>c. c \<noteq> TAB \<and> c \<noteq> CR \<and> c \<noteq> LF) b))"

lemma encodedAt_shorter: "encodedAt s = Some (e, r) \<Longrightarrow> length r < length s"
proof -
  have *: "length (tl (dropWhile p (drop n s))) < length s" if "dropWhile p (drop n s) \<noteq> []" for p n
    using that length_dropWhile_le [of p "drop n s"] by (cases "dropWhile p (drop n s)") auto
  show "encodedAt s = Some (e, r) \<Longrightarrow> ?thesis"
    using * by (auto simp: encodedAt_def Let_def split: if_splits)
qed

function decodeEncodedChars :: "bytes \<Rightarrow> bytes option" where
  "decodeEncodedChars [] = Some []"
| "decodeEncodedChars (c # s) =
     (case encodedAt (c # s) of
        Some (e, r) \<Rightarrow>
          (case decodeMatch e of
             None \<Rightarrow> None
           | Some out \<Rightarrow> map_option (\<lambda>t. out @ t) (decodeEncodedChars r))
      | None \<Rightarrow> map_option (\<lambda>t. c # t) (decodeEncodedChars s))"
  by pat_completeness auto

termination decodeEncodedChars
  by (relation "measure length") (auto dest: encodedAt_shorter)

declare decodeEncodedChars.simps(2) [simp del]

section \<open>Text without sequences\<close>

lemma lowerByte_dollar: "lowerByte c = CHR ''$'' \<longleftrightarrow> c = CHR ''$''"
proof -
  have "ord (lowerByte c) = 36 \<longleftrightarrow> ord c = 36" by (auto simp: lowerByte_def char_class)
  moreover have "ord CHR ''$'' = 36" by simp
  ultimately show ?thesis by (metis ord_inject)
qed

lemma encodedAt_dollar: "encodedAt (c # s) = Some x \<Longrightarrow> c = CHR ''$''"
  by (auto simp: encodedAt_def Let_def lowerByte_dollar split: if_splits)

lemma decode_plain: "CHR ''$'' \<notin> set s \<Longrightarrow> decodeEncodedChars s = Some s"
proof (induction s)
  case (Cons c s)
  then have "encodedAt (c # s) = None" using encodedAt_dollar [of c s] by (cases "encodedAt (c # s)") auto
  with Cons show ?case by (simp add: decodeEncodedChars.simps(2))
qed simp

end
