(* ===== verification/Load_Spec.thy ===== *)
theory Load_Spec
  imports Program Encoded_Chars Parser
begin

text \<open>
  \<open>LoadSpec\<close> of \<open>interp/load_generic.go\<close>, which every loader calls to check the arguments,
  tests and block of a command against a specification.

  The Go closures of a \<open>Spec\<close> assign the fields of the command being loaded.  Here they act
  on a record of named slots that the loaders read when \<open>LoadSpec\<close> has succeeded; an unset
  slot reads as Go's zero value.  The script is threaded through, because asking for an
  extension may record its use.  Loading of nested tests and blocks is passed in as an action.
\<close>

section \<open>Loading actions\<close>

type_synonym 'a load = "script \<Rightarrow> (load_error, 'a) result \<times> script"

definition returnL :: "'a \<Rightarrow> 'a load" where
  "returnL x s = (Inr x, s)"

definition failL :: "load_error \<Rightarrow> 'a load" where
  "failL e s = (Inl e, s)"

definition bindL :: "'a load \<Rightarrow> ('a \<Rightarrow> 'b load) \<Rightarrow> 'b load" where
  "bindL m f s = (case m s of (Inl e, s') \<Rightarrow> (Inl e, s') | (Inr x, s') \<Rightarrow> f x s')"

text \<open>The checks \<open>cond && !s.RequiresExtension(ext)\<close> and \<open>!s.RequiresExtension(ext) && cond\<close>.\<close>

definition needIf :: "bool \<Rightarrow> bytes \<Rightarrow> unit load" where
  "needIf cond ext s =
     (if cond then (case RequiresExtension s ext of (r, s') \<Rightarrow> if r then (Inr (), s') else (Inl (MissingRequire ext), s'))
      else (Inr (), s))"

definition needOnly :: "bytes \<Rightarrow> bool \<Rightarrow> unit load" where
  "needOnly ext cond s =
     (case RequiresExtension s ext of (r, s') \<Rightarrow> if \<not> r \<and> cond then (Inl (MissingRequire ext), s') else (Inr (), s'))"

definition need :: "bytes \<Rightarrow> unit load" where
  "need ext = needIf True ext"

definition guardL :: "bool \<Rightarrow> load_error \<Rightarrow> unit load" where
  "guardL ok e s = (if ok then (Inr (), s) else (Inl e, s))"

definition RequiresExtensionL :: "bytes \<Rightarrow> bool load" where
  "RequiresExtensionL ext s = (case RequiresExtension s ext of (r, s') \<Rightarrow> (Inr r, s'))"

section \<open>Specifications\<close>

record slots =
  sslot :: "bytes \<rightharpoonup> bytes list"
  nslot :: "bytes \<rightharpoonup> int"
  bslot :: "bytes set"
  cnt :: nat
  mtest :: matcher_test
  mods :: modifiers
  conflicting :: bool
  tslot :: "itest list"
  cslot :: "icmd list"

definition noSlots :: slots where
  "noSlots = \<lparr>sslot = Map.empty, nslot = Map.empty, bslot = {}, cnt = 0, mtest = newMatcherTest,
     mods = Map.empty, conflicting = False, tslot = [], cslot = []\<rparr>"

definition strs :: "slots \<Rightarrow> bytes \<Rightarrow> bytes list" where
  "strs a k = (case sslot a k of Some v \<Rightarrow> v | None \<Rightarrow> [])"

definition str :: "slots \<Rightarrow> bytes \<Rightarrow> bytes" where
  "str a k = (case strs a k of [] \<Rightarrow> [] | v # vs \<Rightarrow> v)"

definition num :: "slots \<Rightarrow> bytes \<Rightarrow> int" where
  "num a k = (case nslot a k of Some n \<Rightarrow> n | None \<Rightarrow> 0)"

definition flag :: "slots \<Rightarrow> bytes \<Rightarrow> bool" where
  "flag a k \<longleftrightarrow> k \<in> bslot a"

record spec_tag =
  NeedsValue :: bool
  TMatchStr :: "(bytes list \<Rightarrow> slots \<Rightarrow> slots) option"
  TMatchNum :: "(int \<Rightarrow> slots \<Rightarrow> slots) option"
  TMatchBool :: "(slots \<Rightarrow> slots) option"
  TMinStrCount :: int
  TMaxStrCount :: int
  TNoVariables :: bool

record spec_pos =
  Optional :: bool
  PMatchStr :: "(bytes list \<Rightarrow> slots \<Rightarrow> slots) option"
  PMatchNum :: "(int \<Rightarrow> slots \<Rightarrow> slots) option"
  PMinStrCount :: int
  PMaxStrCount :: int

record spec =
  Tags :: "bytes \<rightharpoonup> spec_tag"
  Pos :: "spec_pos list"
  AddBlock :: "(icmd list \<Rightarrow> slots \<Rightarrow> slots) option"
  AddTest :: "(itest \<Rightarrow> slots \<Rightarrow> slots) option"
  MultipleTests :: bool

definition emptySpec :: spec where
  "emptySpec = \<lparr>Tags = Map.empty, Pos = [], AddBlock = None, AddTest = None, MultipleTests = False\<rparr>"

text \<open>The forms of tags and positional arguments that the loaders use.\<close>

definition setStr :: "bytes \<Rightarrow> bytes list \<Rightarrow> slots \<Rightarrow> slots" where
  "setStr k v a = a\<lparr>sslot := (sslot a)(k \<mapsto> v)\<rparr>"

definition setNum :: "bytes \<Rightarrow> int \<Rightarrow> slots \<Rightarrow> slots" where
  "setNum k n a = a\<lparr>nslot := (nslot a)(k \<mapsto> n)\<rparr>"

definition setFlag :: "bytes \<Rightarrow> slots \<Rightarrow> slots" where
  "setFlag k a = a\<lparr>bslot := insert k (bslot a)\<rparr>"

definition strTag :: "(bytes list \<Rightarrow> slots \<Rightarrow> slots) \<Rightarrow> int \<Rightarrow> int \<Rightarrow> spec_tag" where
  "strTag f mn mx = \<lparr>NeedsValue = True, TMatchStr = Some f, TMatchNum = None, TMatchBool = None,
     TMinStrCount = mn, TMaxStrCount = mx, TNoVariables = False\<rparr>"

definition constTag :: "(bytes list \<Rightarrow> slots \<Rightarrow> slots) \<Rightarrow> int \<Rightarrow> int \<Rightarrow> spec_tag" where
  "constTag f mn mx = (strTag f mn mx)\<lparr>TNoVariables := True\<rparr>"

definition numTag :: "(int \<Rightarrow> slots \<Rightarrow> slots) \<Rightarrow> spec_tag" where
  "numTag f = \<lparr>NeedsValue = True, TMatchStr = None, TMatchNum = Some f, TMatchBool = None,
     TMinStrCount = 0, TMaxStrCount = 0, TNoVariables = False\<rparr>"

definition boolTag :: "(slots \<Rightarrow> slots) \<Rightarrow> spec_tag" where
  "boolTag f = \<lparr>NeedsValue = False, TMatchStr = None, TMatchNum = None, TMatchBool = Some f,
     TMinStrCount = 0, TMaxStrCount = 0, TNoVariables = False\<rparr>"

definition strPos :: "bytes \<Rightarrow> int \<Rightarrow> int \<Rightarrow> spec_pos" where
  "strPos k mn mx = \<lparr>Optional = False, PMatchStr = Some (setStr k), PMatchNum = None,
     PMinStrCount = mn, PMaxStrCount = mx\<rparr>"

definition optPos :: "bytes \<Rightarrow> int \<Rightarrow> int \<Rightarrow> spec_pos" where
  "optPos k mn mx = (strPos k mn mx)\<lparr>Optional := True\<rparr>"

definition numPos :: "bytes \<Rightarrow> spec_pos" where
  "numPos k = \<lparr>Optional = False, PMatchStr = None, PMatchNum = Some (setNum k), PMinStrCount = 0, PMaxStrCount = 0\<rparr>"

section \<open>Arguments\<close>

fun decodeAll :: "bytes list \<Rightarrow> bytes list option" where
  "decodeAll [] = Some []"
| "decodeAll (v # vs) =
     (case decodeEncodedChars v of
        None \<Rightarrow> None
      | Some d \<Rightarrow> map_option (\<lambda>ds. d # ds) (decodeAll vs))"

definition decodeL :: "bytes list \<Rightarrow> bytes list load" where
  "decodeL vs =
     bindL (RequiresExtensionL ''encoded-character'') (\<lambda>r.
       if r then (case decodeAll vs of None \<Rightarrow> failL MalformedEncodedCharacter | Some ds \<Rightarrow> returnL ds)
       else returnL vs)"

definition wrongCount :: "int \<Rightarrow> int \<Rightarrow> bytes list \<Rightarrow> bool" where
  "wrongCount mn mx vs \<longleftrightarrow> (mn \<noteq> 0 \<and> int (length vs) < mn) \<or> (mx \<noteq> 0 \<and> int (length vs) > mx)"

text \<open>A string or string list that a tag waits for.\<close>

definition tagStrings :: "spec_tag \<Rightarrow> bytes list \<Rightarrow> slots \<Rightarrow> slots load" where
  "tagStrings tag vs a =
     (case TMatchNum tag of
        Some _ \<Rightarrow> failL (SpecError ''tagged argument requires a number'')
      | None \<Rightarrow>
          (case TMatchStr tag of
             Some f \<Rightarrow> bindL (decodeL vs) (\<lambda>ds. returnL (f ds a))
           | None \<Rightarrow> failL (LoadPanic ''missing matcher for SpecTag'')))"

definition posStrings :: "spec_pos \<Rightarrow> bytes list \<Rightarrow> slots \<Rightarrow> slots load" where
  "posStrings p vs a =
     (case PMatchNum p of
        Some _ \<Rightarrow> failL (SpecError ''argument requires a number'')
      | None \<Rightarrow>
          (case PMatchStr p of
             Some f \<Rightarrow> bindL (decodeL vs) (\<lambda>ds. returnL (f ds a))
           | None \<Rightarrow> failL (LoadPanic ''no pos matcher'')))"

definition tagNumber :: "spec_tag \<Rightarrow> int \<Rightarrow> slots \<Rightarrow> slots load" where
  "tagNumber tag n a =
     (case TMatchStr tag of
        Some _ \<Rightarrow> failL (SpecError ''tagged argument requires a string-list'')
      | None \<Rightarrow>
          (case TMatchNum tag of
             Some f \<Rightarrow> returnL (f n a)
           | None \<Rightarrow> failL (LoadPanic ''missing matcher for SpecTag'')))"

definition posNumber :: "spec_pos \<Rightarrow> int \<Rightarrow> slots \<Rightarrow> slots load" where
  "posNumber p n a =
     (case PMatchStr p of
        Some _ \<Rightarrow> failL (SpecError ''argument requires a string-list'')
      | None \<Rightarrow>
          (case PMatchNum p of
             Some f \<Rightarrow> returnL (f n a)
           | None \<Rightarrow> failL (LoadPanic ''no pos matcher'')))"

text \<open>
  The loop over the arguments.  \<open>lastTag\<close> is a tag that still waits for its value, \<open>n\<close> the
  index \<open>nextPosArg\<close>.  A single string given to a tag also asks for \<open>variables\<close>, with no
  consequence: that block of the source is empty.
\<close>

fun loadArgs :: "host \<Rightarrow> spec \<Rightarrow> spec_tag option \<Rightarrow> nat \<Rightarrow> arg list \<Rightarrow> slots \<Rightarrow> (nat \<times> slots) load" where
  "loadArgs h sp lastTag n [] a = returnL (n, a)"
| "loadArgs h sp lastTag n (StringArg v p # as) a =
     (case lastTag of
        Some tag \<Rightarrow>
          bindL (tagStrings tag [v] a) (\<lambda>a'. bindL (RequiresExtensionL ''variables'') (\<lambda>_. loadArgs h sp None n as a'))
      | None \<Rightarrow>
          if n \<ge> length (Pos sp) then failL (SpecError ''too many arguments'')
          else if PMinStrCount (Pos sp ! n) > 1 then failL (SpecError ''string-list required'')
          else bindL (posStrings (Pos sp ! n) [v] a) (\<lambda>a'. loadArgs h sp None (Suc n) as a'))"
| "loadArgs h sp lastTag n (StringListArg vs p # as) a =
     (case lastTag of
        Some tag \<Rightarrow>
          if Option.is_none (TMatchNum tag) \<and> \<not> Option.is_none (TMatchStr tag) \<and> wrongCount (TMinStrCount tag) (TMaxStrCount tag) vs
          then failL (SpecError ''wrong amount of string arguments'')
          else bindL (tagStrings tag vs a) (\<lambda>a'. loadArgs h sp None n as a')
      | None \<Rightarrow>
          if n \<ge> length (Pos sp) then failL (SpecError ''too many arguments'')
          else if wrongCount (PMinStrCount (Pos sp ! n)) (PMaxStrCount (Pos sp ! n)) vs
          then failL (SpecError ''wrong amount of string arguments'')
          else bindL (posStrings (Pos sp ! n) vs a) (\<lambda>a'. loadArgs h sp None (Suc n) as a'))"
| "loadArgs h sp lastTag n (NumberArg v p # as) a =
     (case lastTag of
        Some tag \<Rightarrow> bindL (tagNumber tag v a) (\<lambda>a'. loadArgs h sp None n as a')
      | None \<Rightarrow>
          if n \<ge> length (Pos sp) then failL (SpecError ''too many arguments'')
          else bindL (posNumber (Pos sp ! n) v a) (\<lambda>a'. loadArgs h sp None (Suc n) as a'))"
| "loadArgs h sp lastTag n (TagArg v p # as) a =
     (case lastTag of
        Some tag \<Rightarrow> failL (SpecError ''tagged argument requires a value'')
      | None \<Rightarrow>
          (case Tags sp (ToLower (uni h) v) of
             None \<Rightarrow> failL (SpecError ''unknown tagged argument'')
           | Some tag \<Rightarrow>
               if NeedsValue tag then loadArgs h sp (Some tag) n as a
               else (case TMatchBool tag of
                       Some f \<Rightarrow> loadArgs h sp None n as (f a)
                     | None \<Rightarrow> failL (LoadPanic ''nil MatchBool''))))"

text \<open>
  \<open>LoadSpec\<close>.  \<open>loadTests\<close> and \<open>loadBlock\<close> load the nested tests and the block.
\<close>

definition LoadSpec ::
  "host \<Rightarrow> spec \<Rightarrow> arg list \<Rightarrow> test list \<Rightarrow> itest list load \<Rightarrow> cmd list option \<Rightarrow> icmd list load \<Rightarrow>
     slots \<Rightarrow> slots load" where
  "LoadSpec h sp args ts loadTests block loadBlock a0 =
     bindL (loadArgs h sp None 0 args a0) (\<lambda>(n, a1).
       if list_ex (\<lambda>p. \<not> Optional p) (drop n (Pos sp)) then failL (SpecError ''argument is required'')
       else bindL
         (case AddTest sp of
            None \<Rightarrow> if ts \<noteq> [] then failL (SpecError ''no tests allowed'') else returnL a1
          | Some add \<Rightarrow>
              if ts = [] then failL (SpecError ''at least one test required'')
              else if length ts > 1 \<and> \<not> MultipleTests sp then failL (SpecError ''only one test allowed'')
              else bindL loadTests (\<lambda>its. returnL (fold add its a1)))
         (\<lambda>a2.
           case AddBlock sp of
             Some add \<Rightarrow>
               (case block of
                  Some _ \<Rightarrow> bindL loadBlock (\<lambda>cs. returnL (add cs a2))
                | None \<Rightarrow> failL (SpecError ''block is required''))
           | None \<Rightarrow> (if block \<noteq> None then failL (SpecError ''no block allowed'') else returnL a2)))"

text \<open>The call of \<open>LoadSpec\<close> in a loader without nested tests and without a block.\<close>

definition LoadLeaf :: "host \<Rightarrow> spec \<Rightarrow> arg list \<Rightarrow> test list \<Rightarrow> cmd list option \<Rightarrow> (slots \<Rightarrow> 'a load) \<Rightarrow> 'a load" where
  "LoadLeaf h sp args ts block k =
     bindL (LoadSpec h sp args ts (returnL []) block (returnL []) noSlots) k"

section \<open>The tags of matchers\<close>

definition matchTag :: "match_type \<Rightarrow> slots \<Rightarrow> slots" where
  "matchTag m a = a\<lparr>mtest := (mtest a)\<lparr>MMatch := m, matchCnt := matchCnt (mtest a) + 1\<rparr>\<rparr>"

definition relationalTag :: "match_type \<Rightarrow> bytes list \<Rightarrow> slots \<Rightarrow> slots" where
  "relationalTag m v a =
     a\<lparr>mtest := (mtest a)\<lparr>MMatch := m, matchCnt := matchCnt (mtest a) + 1, Relational := hd (v @ [[]])\<rparr>\<rparr>"

definition comparatorTag :: "bytes list \<Rightarrow> slots \<Rightarrow> slots" where
  "comparatorTag v a = a\<lparr>mtest := (mtest a)\<lparr>Comparator := hd (v @ [[]])\<rparr>\<rparr>"

definition addSpecTags :: "spec \<Rightarrow> spec" where
  "addSpecTags sp = sp\<lparr>Tags := (Tags sp)
     (''comparator'' \<mapsto> constTag comparatorTag 1 1, ''is'' \<mapsto> boolTag (matchTag MatchIs),
      ''contains'' \<mapsto> boolTag (matchTag MatchContains), ''matches'' \<mapsto> boolTag (matchTag MatchMatches),
      ''regex'' \<mapsto> boolTag (matchTag MatchRegex), ''value'' \<mapsto> constTag (relationalTag MatchValue) 1 1,
      ''count'' \<mapsto> constTag (relationalTag MatchCount) 1 1, ''list'' \<mapsto> boolTag (matchTag MatchList))\<rparr>"

definition setKeyL :: "host \<Rightarrow> slots \<Rightarrow> bytes list \<Rightarrow> matcher_test load" where
  "setKeyL h a ks s = setKey h s (mtest a) ks"

text \<open>A flag tag or a single string tag that stores its argument under its own name.\<close>

definition flagTag :: "bytes \<Rightarrow> spec_tag" where
  "flagTag k = boolTag (setFlag k)"

definition oneTag :: "bytes \<Rightarrow> spec_tag" where
  "oneTag k = strTag (setStr k) 1 1"

definition listTag :: "bytes \<Rightarrow> spec_tag" where
  "listTag k = strTag (setStr k) 1 0"

end
