(* ===== verification/Load_Tests.thy ===== *)
theory Load_Tests
  imports Load_Spec
begin

text \<open>
  The loaders of the tests that contain no other tests: \<open>interp/load_tests.go\<close>,
  \<open>load_variables.go\<close>, \<open>load_date.go\<close>, \<open>load_mailbox.go\<close>, \<open>load_mailboxid.go\<close>,
  \<open>load_special_use.go\<close>, \<open>load_extlists.go\<close>, \<open>load_notify.go\<close>, \<open>load_spamtest.go\<close>,
  \<open>load_metadata.go\<close>, \<open>load_duplicate.go\<close>, \<open>load_ihave.go\<close>, and the loaders of the filter and
  execute tests.  Error messages and positions are reduced to the kind of error.
\<close>

section \<open>Tests of RFC 5228\<close>

definition addressPartTag :: "bytes \<Rightarrow> spec_tag" where
  "addressPartTag k = boolTag (\<lambda>a. a\<lparr>sslot := (sslot a)(''part'' \<mapsto> [k])\<rparr>)"

definition addressPartOf :: "slots \<Rightarrow> address_part" where
  "addressPartOf a =
     (if str a ''part'' = ''localpart'' then LocalPart
      else if str a ''part'' = ''domain'' then Domain
      else if str a ''part'' = ''user'' then User
      else if str a ''part'' = ''detail'' then Detail
      else All)"

text \<open>The specification shared by \<open>address\<close> and \<open>envelope\<close>; the tags of RFC 5233 are added on demand.\<close>

definition addressSpec :: "bool \<Rightarrow> spec" where
  "addressSpec sub =
     (let sp = addSpecTags (emptySpec\<lparr>
        Tags := [''all'' \<mapsto> addressPartTag ''all'', ''localpart'' \<mapsto> addressPartTag ''localpart'',
                 ''domain'' \<mapsto> addressPartTag ''domain''],
        Pos := [strPos ''header'' 1 0, strPos ''key'' 1 0]\<rparr>) in
      if sub then sp\<lparr>Tags := (Tags sp)(''user'' \<mapsto> addressPartTag ''user'', ''detail'' \<mapsto> addressPartTag ''detail'')\<rparr>
      else sp)"

definition loadAddressTest :: "host \<Rightarrow> arg list \<Rightarrow> test list \<Rightarrow> itest load" where
  "loadAddressTest h args ts =
     bindL (RequiresExtensionL ''subaddress'') (\<lambda>sub.
     LoadLeaf h (addressSpec sub) args ts None (\<lambda>a.
     bindL (setKeyL h a (strs a ''key'')) (\<lambda>m.
     returnL (AddressTest m (addressPartOf a) (strs a ''header'')))))"

definition loadEnvelopeTest :: "host \<Rightarrow> arg list \<Rightarrow> test list \<Rightarrow> itest load" where
  "loadEnvelopeTest h args ts =
     bindL (need ''envelope'') (\<lambda>_.
     bindL (RequiresExtensionL ''subaddress'') (\<lambda>sub.
     LoadLeaf h (addressSpec sub) args ts None (\<lambda>a.
     bindL (setKeyL h a (strs a ''key'')) (\<lambda>m.
     returnL (EnvelopeTest m (addressPartOf a) (strs a ''header''))))))"

definition modeTag :: "bytes \<Rightarrow> spec_tag" where
  "modeTag k = boolTag (setStr ''mode'' [k])"

definition mimeSpecTags :: "bytes \<rightharpoonup> spec_tag" where
  "mimeSpecTags =
     [''mime'' \<mapsto> flagTag ''mime'', ''anychild'' \<mapsto> flagTag ''anychild'', ''type'' \<mapsto> modeTag ''type'',
      ''subtype'' \<mapsto> modeTag ''subtype'', ''contenttype'' \<mapsto> modeTag ''contenttype'',
      ''param'' \<mapsto> strTag (\<lambda>v a. setStr ''params'' v (setStr ''mode'' [''param''] a)) 1 0]"

definition validateMimeTags :: "bool \<Rightarrow> bool \<Rightarrow> bytes \<Rightarrow> bytes list \<Rightarrow> unit load" where
  "validateMimeTags mime anyChild mode ps =
     bindL (guardL (\<not> ((anyChild \<or> mode \<noteq> [] \<or> ps \<noteq> []) \<and> \<not> mime)) (SpecError ''MIME tags require :mime''))
       (\<lambda>_. needIf mime ''mime'')"

definition loadExistsTest :: "host \<Rightarrow> arg list \<Rightarrow> test list \<Rightarrow> itest load" where
  "loadExistsTest h args ts =
     LoadLeaf h (emptySpec\<lparr>Tags := mimeSpecTags, Pos := [strPos ''fields'' 1 0]\<rparr>) args ts None (\<lambda>a.
     bindL (guardL (str a ''mode'' = []) (SpecError ''exists :mime does not support selectors'')) (\<lambda>_.
     bindL (validateMimeTags (flag a ''mime'') (flag a ''anychild'') [] []) (\<lambda>_.
     returnL (ExistsTest (strs a ''fields'') (flag a ''mime'') (flag a ''anychild'')))))"

definition loadTrueTest :: "host \<Rightarrow> arg list \<Rightarrow> test list \<Rightarrow> itest load" where
  "loadTrueTest h args ts = LoadLeaf h emptySpec args ts None (\<lambda>a. returnL TrueTest)"

definition loadFalseTest :: "host \<Rightarrow> arg list \<Rightarrow> test list \<Rightarrow> itest load" where
  "loadFalseTest h args ts = LoadLeaf h emptySpec args ts None (\<lambda>a. returnL FalseTest)"

definition loadHeaderTest :: "host \<Rightarrow> arg list \<Rightarrow> test list \<Rightarrow> itest load" where
  "loadHeaderTest h args ts =
     LoadLeaf h (addSpecTags (emptySpec\<lparr>Tags := mimeSpecTags, Pos := [strPos ''header'' 1 0, strPos ''key'' 1 0]\<rparr>))
       args ts None (\<lambda>a.
     bindL (validateMimeTags (flag a ''mime'') (flag a ''anychild'') (str a ''mode'') (strs a ''params'')) (\<lambda>_.
     bindL (setKeyL h a (strs a ''key'')) (\<lambda>m.
     returnL (HeaderTest m (strs a ''header'') (flag a ''mime'') (flag a ''anychild'') (str a ''mode'') (strs a ''params'')))))"

definition loadSizeTest :: "host \<Rightarrow> arg list \<Rightarrow> test list \<Rightarrow> itest load" where
  "loadSizeTest h args ts =
     LoadLeaf h (emptySpec\<lparr>Tags := [''under'' \<mapsto> flagTag ''under'', ''over'' \<mapsto> flagTag ''over''], Pos := [numPos ''size'']\<rparr>)
       args ts None (\<lambda>a.
     bindL (guardL (flag a ''under'' \<noteq> flag a ''over'') (SpecError ''either under or over is required'')) (\<lambda>_.
     returnL (SizeTest (num a ''size'') (flag a ''over'') (flag a ''under''))))"

section \<open>Flags, variables, environment, body, dates\<close>

definition loadHasFlagTest :: "host \<Rightarrow> arg list \<Rightarrow> test list \<Rightarrow> itest load" where
  "loadHasFlagTest h args ts =
     LoadLeaf h (addSpecTags (emptySpec\<lparr>Pos := [strPos ''arg1'' 0 0, optPos ''arg2'' 1 0]\<rparr>)) args ts None (\<lambda>a.
     (let single = strs a ''arg2'' = [];
          key = flagList (canonicalFlags (if single then strs a ''arg1'' else strs a ''arg2'') [] Map.empty) in
      bindL (setKeyL h a key) (\<lambda>m. returnL (HasFlagTest m (if single then [] else strs a ''arg1'')))))"

definition loadStringTest :: "host \<Rightarrow> arg list \<Rightarrow> test list \<Rightarrow> itest load" where
  "loadStringTest h args ts =
     bindL (need ''variables'') (\<lambda>_.
     LoadLeaf h (addSpecTags (emptySpec\<lparr>Pos := [strPos ''source'' 1 0, strPos ''key'' 1 0]\<rparr>)) args ts None (\<lambda>a.
     bindL (setKeyL h a (strs a ''key'')) (\<lambda>m. returnL (TestString m (strs a ''source'')))))"

definition loadEnvironmentTest :: "host \<Rightarrow> arg list \<Rightarrow> test list \<Rightarrow> itest load" where
  "loadEnvironmentTest h args ts =
     bindL (need ''environment'') (\<lambda>_.
     LoadLeaf h (addSpecTags (emptySpec\<lparr>Pos := [strPos ''name'' 1 0, strPos ''key'' 1 0]\<rparr>)) args ts None (\<lambda>a.
     bindL (setKeyL h a (strs a ''key'')) (\<lambda>m. returnL (EnvironmentTest m (strs a ''name'')))))"

definition transformTag :: "bytes \<Rightarrow> slots \<Rightarrow> slots" where
  "transformTag k a = (setStr ''transform'' [k] a)\<lparr>cnt := cnt a + 1\<rparr>"

definition transformOf :: "slots \<Rightarrow> body_transform" where
  "transformOf a =
     (if str a ''transform'' = ''raw'' then BodyTransformRaw
      else if str a ''transform'' = ''content'' then BodyTransformContent
      else BodyTransformText)"

definition loadBodyTest :: "host \<Rightarrow> arg list \<Rightarrow> test list \<Rightarrow> itest load" where
  "loadBodyTest h args ts =
     bindL (need ''body'') (\<lambda>_.
     (let sp = addSpecTags (emptySpec\<lparr>
        Tags := [''raw'' \<mapsto> boolTag (transformTag ''raw''), ''text'' \<mapsto> boolTag (transformTag ''text''),
                 ''content'' \<mapsto> strTag (\<lambda>v a. transformTag ''content'' (setStr ''types'' v a)) 1 0],
        Pos := [strPos ''key'' 1 0]\<rparr>) in
     LoadLeaf h (sp\<lparr>Tags := (Tags sp)(''value'' := None)\<rparr>) args ts None (\<lambda>a.
     bindL (guardL (cnt a \<le> 1) (SpecError ''only one body transform allowed'')) (\<lambda>_.
     bindL (setKeyL h a (strs a ''key'')) (\<lambda>m.
     returnL (BodyTest m (transformOf a) (strs a ''types'')))))))"

definition loadDateTest :: "host \<Rightarrow> arg list \<Rightarrow> test list \<Rightarrow> itest load" where
  "loadDateTest h args ts =
     bindL (need ''date'') (\<lambda>_.
     LoadLeaf h (addSpecTags (emptySpec\<lparr>
        Tags := [''zone'' \<mapsto> strTag (\<lambda>v a. (setStr ''zone'' v a)\<lparr>cnt := cnt a + 1\<rparr>) 1 1,
                 ''originalzone'' \<mapsto> boolTag (\<lambda>a. (setFlag ''originalzone'' a)\<lparr>cnt := cnt a + 1\<rparr>),
                 ''index'' \<mapsto> numTag (setNum ''index''), ''last'' \<mapsto> flagTag ''last''],
        Pos := [strPos ''header'' 1 1, strPos ''part'' 1 1, strPos ''key'' 1 0]\<rparr>)) args ts None (\<lambda>a.
     (let part = ToLower (uni h) (str a ''part'') in
     bindL (guardL (cnt a \<le> 1) (SpecError ''cannot specify both :zone and :originalzone'')) (\<lambda>_.
     bindL (guardL (str a ''zone'' = [] \<or> parseZoneOffset (str a ''zone'') \<noteq> None) (SpecError ''date: zone'')) (\<lambda>_.
     bindL (guardL (part \<in> set validDateParts) (SpecError ''date: invalid date-part'')) (\<lambda>_.
     bindL (guardL (\<not> (flag a ''last'' \<and> num a ''index'' = 0)) (SpecError ''date: :last requires :index'')) (\<lambda>_.
     bindL (needIf (num a ''index'' > 0) ''index'') (\<lambda>_.
     bindL (setKeyL h a (strs a ''key'')) (\<lambda>m.
     returnL (DateTest m (str a ''header'') part (str a ''zone'') (flag a ''originalzone'') (num a ''index'')
       (flag a ''last'')))))))))))"

definition loadCurrentDateTest :: "host \<Rightarrow> arg list \<Rightarrow> test list \<Rightarrow> itest load" where
  "loadCurrentDateTest h args ts =
     bindL (need ''date'') (\<lambda>_.
     LoadLeaf h (addSpecTags (emptySpec\<lparr>Tags := [''zone'' \<mapsto> oneTag ''zone''], Pos := [strPos ''part'' 1 1, strPos ''key'' 1 0]\<rparr>))
       args ts None (\<lambda>a.
     (let part = ToLower (uni h) (str a ''part'') in
     bindL (guardL (str a ''zone'' = [] \<or> parseZoneOffset (str a ''zone'') \<noteq> None) (SpecError ''currentdate: zone'')) (\<lambda>_.
     bindL (guardL (part \<in> set validDateParts) (SpecError ''currentdate: invalid date-part'')) (\<lambda>_.
     bindL (setKeyL h a (strs a ''key'')) (\<lambda>m. returnL (CurrentDateTest m part (str a ''zone''))))))))"

section \<open>Tests that ask the host\<close>

definition loadMailboxExistsTest :: "host \<Rightarrow> arg list \<Rightarrow> itest load" where
  "loadMailboxExistsTest h args =
     bindL (need ''mailbox'') (\<lambda>_.
     LoadLeaf h (emptySpec\<lparr>Pos := [strPos ''mailboxes'' 1 0]\<rparr>) args [] None (\<lambda>a.
     returnL (MailboxExistsTest (strs a ''mailboxes''))))"

definition loadMailboxIDExists :: "host \<Rightarrow> arg list \<Rightarrow> test list \<Rightarrow> itest load" where
  "loadMailboxIDExists h args ts =
     bindL (need ''mailboxid'') (\<lambda>_.
     LoadLeaf h (emptySpec\<lparr>Pos := [strPos ''ids'' 1 0]\<rparr>) args ts None (\<lambda>a.
     returnL (TestMailboxIDExists (strs a ''ids''))))"

definition loadSpecialUseExists :: "host \<Rightarrow> arg list \<Rightarrow> test list \<Rightarrow> itest load" where
  "loadSpecialUseExists h args ts =
     bindL (need ''special-use'') (\<lambda>_.
     LoadLeaf h (emptySpec\<lparr>Pos := [strPos ''first'' 1 0, optPos ''second'' 1 0]\<rparr>) args ts None (\<lambda>a.
     if strs a ''second'' \<noteq> [] then
       bindL (guardL (length (strs a ''first'') = 1) (SpecError ''mailbox must be a single string'')) (\<lambda>_.
       returnL (TestSpecialUseExists (str a ''first'') (strs a ''second'')))
     else returnL (TestSpecialUseExists [] (strs a ''first''))))"

definition loadValidExtList :: "host \<Rightarrow> arg list \<Rightarrow> test list \<Rightarrow> itest load" where
  "loadValidExtList h args ts =
     bindL (need ''extlists'') (\<lambda>_.
     LoadLeaf h (emptySpec\<lparr>Pos := [strPos ''names'' 1 0]\<rparr>) args ts None (\<lambda>a.
     returnL (TestValidExtList (strs a ''names''))))"

definition loadValidNotifyMethod :: "host \<Rightarrow> arg list \<Rightarrow> test list \<Rightarrow> itest load" where
  "loadValidNotifyMethod h args ts =
     bindL (need ''enotify'') (\<lambda>_.
     LoadLeaf h (emptySpec\<lparr>Pos := [strPos ''uris'' 1 0]\<rparr>) args ts None (\<lambda>a.
     returnL (TestValidNotifyMethod (strs a ''uris''))))"

definition loadNotifyMethodCapability :: "host \<Rightarrow> arg list \<Rightarrow> test list \<Rightarrow> itest load" where
  "loadNotifyMethodCapability h args ts =
     bindL (need ''enotify'') (\<lambda>_.
     LoadLeaf h (addSpecTags (emptySpec\<lparr>Pos := [strPos ''uri'' 1 1, strPos ''capability'' 1 1, strPos ''key'' 1 0]\<rparr>))
       args ts None (\<lambda>a.
     bindL (setKeyL h a (strs a ''key'')) (\<lambda>m.
     returnL (TestNotifyMethodCapability m (str a ''uri'') (str a ''capability'')))))"

definition loadSpamTest :: "host \<Rightarrow> arg list \<Rightarrow> test list \<Rightarrow> itest load" where
  "loadSpamTest h args ts =
     bindL (RequiresExtensionL ''spamtest'') (\<lambda>r.
     bindL (if r then returnL () else bindL (RequiresExtensionL ''spamtestplus'')
              (\<lambda>r2. guardL r2 (MissingRequire ''spamtest''))) (\<lambda>_.
     LoadLeaf h (addSpecTags (emptySpec\<lparr>Tags := [''percent'' \<mapsto> flagTag ''percent''], Pos := [strPos ''key'' 1 0]\<rparr>))
       args ts None (\<lambda>a.
     bindL (needIf (flag a ''percent'') ''spamtestplus'') (\<lambda>_.
     bindL (setKeyL h a (strs a ''key'')) (\<lambda>m. returnL (SpamTest m (flag a ''percent'')))))))"

definition loadVirusTest :: "host \<Rightarrow> arg list \<Rightarrow> test list \<Rightarrow> itest load" where
  "loadVirusTest h args ts =
     bindL (need ''virustest'') (\<lambda>_.
     LoadLeaf h (addSpecTags (emptySpec\<lparr>Pos := [strPos ''key'' 1 0]\<rparr>)) args ts None (\<lambda>a.
     bindL (setKeyL h a (strs a ''key'')) (\<lambda>m. returnL (VirusTest m))))"

definition loadMetadataTest :: "host \<Rightarrow> arg list \<Rightarrow> test list \<Rightarrow> itest load" where
  "loadMetadataTest h args ts =
     bindL (need ''mboxmetadata'') (\<lambda>_.
     LoadLeaf h (addSpecTags (emptySpec\<lparr>Pos := [strPos ''mailbox'' 1 1, strPos ''annotation'' 1 1, strPos ''key'' 1 0]\<rparr>))
       args ts None (\<lambda>a.
     bindL (setKeyL h a (strs a ''key'')) (\<lambda>m.
     returnL (TestMetadata m (str a ''mailbox'') (str a ''annotation'')))))"

definition loadMetadataExistsTest :: "host \<Rightarrow> arg list \<Rightarrow> test list \<Rightarrow> itest load" where
  "loadMetadataExistsTest h args ts =
     bindL (need ''mboxmetadata'') (\<lambda>_.
     LoadLeaf h (emptySpec\<lparr>Pos := [strPos ''mailbox'' 1 1, strPos ''annotations'' 1 0]\<rparr>) args ts None (\<lambda>a.
     returnL (TestMetadataExists (str a ''mailbox'') (strs a ''annotations''))))"

definition loadServerMetadataTest :: "host \<Rightarrow> arg list \<Rightarrow> test list \<Rightarrow> itest load" where
  "loadServerMetadataTest h args ts =
     bindL (need ''servermetadata'') (\<lambda>_.
     LoadLeaf h (addSpecTags (emptySpec\<lparr>Pos := [strPos ''annotation'' 1 1, strPos ''key'' 1 0]\<rparr>)) args ts None (\<lambda>a.
     bindL (setKeyL h a (strs a ''key'')) (\<lambda>m. returnL (TestServerMetadata m (str a ''annotation'')))))"

definition loadServerMetadataExistsTest :: "host \<Rightarrow> arg list \<Rightarrow> test list \<Rightarrow> itest load" where
  "loadServerMetadataExistsTest h args ts =
     bindL (need ''servermetadata'') (\<lambda>_.
     LoadLeaf h (emptySpec\<lparr>Pos := [strPos ''annotations'' 1 0]\<rparr>) args ts None (\<lambda>a.
     returnL (TestServerMetadataExists (strs a ''annotations''))))"

section \<open>Duplicates, capabilities, programs\<close>

definition duplicateDefaultSeconds :: "32 word" where
  "duplicateDefaultSeconds = 604800"

definition secondsTag :: "bytes list \<Rightarrow> slots \<Rightarrow> slots" where
  "secondsTag v a =
     (case ParseUint 32 (hd (v @ [[]])) of Some n \<Rightarrow> setNum ''seconds'' (int n) a | None \<Rightarrow> a)"

definition duplicateSeconds :: "slots \<Rightarrow> 32 word" where
  "duplicateSeconds a =
     (case nslot a ''seconds'' of None \<Rightarrow> duplicateDefaultSeconds | Some n \<Rightarrow> of_int n)"

definition idTag :: "bytes \<Rightarrow> bytes list \<Rightarrow> slots \<Rightarrow> slots" where
  "idTag kind v a = setStr ''idParam'' v (setStr ''idKind'' [kind] (setFlag kind a))"

definition loadDuplicateTest :: "host \<Rightarrow> arg list \<Rightarrow> test list \<Rightarrow> itest load" where
  "loadDuplicateTest h args ts =
     bindL (need ''duplicate'') (\<lambda>_.
     LoadLeaf h (emptySpec\<lparr>Tags :=
        [''handle'' \<mapsto> oneTag ''handle'', ''header'' \<mapsto> constTag (idTag ''header'') 1 1,
         ''uniqueid'' \<mapsto> strTag (idTag ''uniqueid'') 1 1, ''seconds'' \<mapsto> constTag secondsTag 1 1,
         ''last'' \<mapsto> flagTag ''last'']\<rparr>) args ts None (\<lambda>a.
     bindL (guardL (\<not> (flag a ''header'' \<and> flag a ''uniqueid'')) (SpecError '':header and :uniqueid are mutually exclusive'')) (\<lambda>_.
     returnL (TestDuplicate (str a ''handle'') (duplicateSeconds a) (flag a ''last'')
       (if str a ''idKind'' = ''header'' then IdHeader else if str a ''idKind'' = ''uniqueid'' then IdUniqueID else IdMessageID)
       (str a ''idParam'')))))"

definition supportedRequires :: "bytes list" where
  "supportedRequires =
     [''fileinto'', ''envelope'', ''encoded-character'',
      ''comparator-i;octet'', ''comparator-i;ascii-casemap'', ''comparator-i;ascii-numeric'', ''comparator-i;unicode-casemap'',
      ''imap4flags'', ''variables'', ''relational'', ''copy'', ''reject'', ''ereject'', ''subaddress'', ''environment'',
      ''body'', ''vacation'', ''regex'', ''date'', ''index'', ''editheader'', ''mailbox'', ''duplicate'', ''ihave'',
      ''special-use'', ''mailboxid'', ''imapsieve'', ''imapflags'', ''fcc'', ''vacation-seconds'', ''include'', ''extlists'',
      ''enotify'', ''spamtest'', ''spamtestplus'', ''virustest'', ''mboxmetadata'', ''servermetadata'', ''foreverypart'',
      ''mime'', ''extracttext'', ''replace'', ''enclose'',
      YariloDebugExtension, YariloEnvironmentExtension, YariloPipeExtension, YariloFilterExtension,
      YariloExecuteExtension, YariloReportExtension]"

definition available :: "script \<Rightarrow> bytes \<Rightarrow> bool" where
  "available s ext \<longleftrightarrow>
     ext \<noteq> ''variables'' \<and> ext \<noteq> ''encoded-character'' \<and> ext \<in> set supportedRequires \<and>
     (case Allowed (opts s) of None \<Rightarrow> True | Some f \<Rightarrow> f ext)"

definition loadIhaveTest :: "host \<Rightarrow> arg list \<Rightarrow> test list \<Rightarrow> itest load" where
  "loadIhaveTest h args ts =
     bindL (need ''ihave'') (\<lambda>_.
     LoadLeaf h (emptySpec\<lparr>Pos := [strPos ''caps'' 1 0]\<rparr>) args ts None (\<lambda>a s.
     (Inr (TestIhave (strs a ''caps'') (list_all (available s) (strs a ''caps''))), s)))"

text \<open>The checks that \<open>pipe\<close>, \<open>filter\<close> and \<open>execute\<close> share after \<open>LoadSpec\<close>.\<close>

fun programArgs :: "host \<Rightarrow> bytes list \<Rightarrow> unit load" where
  "programArgs h [] s = (Inr (), s)"
| "programArgs h (a # as) s =
     (if length a > 1024 then (Inl (SpecError ''argument too long''), s)
      else (case usedVarsAreValid (uni h) s a of (ok, s') \<Rightarrow>
              if ok then programArgs h as s' else (Inl (SpecError ''invalid variable in argument''), s')))"

definition programChecks :: "host \<Rightarrow> slots \<Rightarrow> unit load" where
  "programChecks h a =
     bindL (guardL (isValidProgramName (str a ''program'')) InvalidName) (\<lambda>_.
     bindL (guardL (length (strs a ''args'') \<le> 16) (SpecError ''too many arguments'')) (\<lambda>_.
     programArgs h (strs a ''args'')))"

definition programPos :: "spec_pos list" where
  "programPos = [strPos ''program'' 1 1, optPos ''args'' 0 (- 1)]"

definition loadFilterCommon :: "host \<Rightarrow> arg list \<Rightarrow> test list \<Rightarrow> cmd list option \<Rightarrow> (slots \<Rightarrow> 'a load) \<Rightarrow> 'a load" where
  "loadFilterCommon h args ts block k =
     LoadLeaf h (emptySpec\<lparr>Pos := programPos\<rparr>) args ts block (\<lambda>a. bindL (programChecks h a) (\<lambda>_. k a))"

definition loadFilterTest :: "host \<Rightarrow> arg list \<Rightarrow> itest load" where
  "loadFilterTest h args =
     bindL (need YariloFilterExtension) (\<lambda>_.
     loadFilterCommon h args [] None (\<lambda>a. returnL (TestFilter (str a ''program'') (strs a ''args''))))"

definition executeSpec :: spec where
  "executeSpec = emptySpec\<lparr>
     Tags := [''pipe'' \<mapsto> boolTag (setStr ''input'' [''message'']),
              ''input'' \<mapsto> strTag (\<lambda>v a. setStr ''data'' v (setStr ''input'' [''string''] a)) 1 1,
              ''output'' \<mapsto> oneTag ''output''],
     Pos := programPos\<rparr>"

definition executeInputOf :: "slots \<Rightarrow> execute_input" where
  "executeInputOf a =
     (if str a ''input'' = ''message'' then ExecuteInputMessage
      else if str a ''input'' = ''string'' then ExecuteInputString else ExecuteInputNone)"

definition loadExecuteCommon :: "host \<Rightarrow> arg list \<Rightarrow> test list \<Rightarrow> cmd list option \<Rightarrow> (slots \<Rightarrow> 'a load) \<Rightarrow> 'a load" where
  "loadExecuteCommon h args ts block k =
     LoadLeaf h executeSpec args ts block (\<lambda>a.
     bindL (programChecks h a) (\<lambda>_.
     bindL (needIf (str a ''output'' \<noteq> []) ''variables'') (\<lambda>_. k a)))"

definition loadExecuteTest :: "host \<Rightarrow> arg list \<Rightarrow> itest load" where
  "loadExecuteTest h args =
     bindL (need YariloExecuteExtension) (\<lambda>_.
     loadExecuteCommon h args [] None (\<lambda>a.
     returnL (TestExecute (str a ''program'') (strs a ''args'') (executeInputOf a) (str a ''data'') (str a ''output''))))"

section \<open>Choosing a loader\<close>

definition loadLeafTest :: "host \<Rightarrow> bytes \<Rightarrow> arg list \<Rightarrow> test list \<Rightarrow> itest load" where
  "loadLeafTest h name args ts =
     (if name = ''address'' then loadAddressTest h args ts
      else if name = ''envelope'' then loadEnvelopeTest h args ts
      else if name = ''exists'' then loadExistsTest h args ts
      else if name = ''false'' then loadFalseTest h args ts
      else if name = ''true'' then loadTrueTest h args ts
      else if name = ''header'' then loadHeaderTest h args ts
      else if name = ''size'' then loadSizeTest h args ts
      else if name = ''string'' then loadStringTest h args ts
      else if name = ''hasflag'' then loadHasFlagTest h args ts
      else if name = ''environment'' then loadEnvironmentTest h args ts
      else if name = ''body'' then loadBodyTest h args ts
      else if name = ''date'' then loadDateTest h args ts
      else if name = ''currentdate'' then loadCurrentDateTest h args ts
      else if name = ''mailboxexists'' then loadMailboxExistsTest h args
      else if name = ''duplicate'' then loadDuplicateTest h args ts
      else if name = ''ihave'' then loadIhaveTest h args ts
      else if name = ''specialuse_exists'' then loadSpecialUseExists h args ts
      else if name = ''mailboxidexists'' then loadMailboxIDExists h args ts
      else if name = ''valid_ext_list'' then loadValidExtList h args ts
      else if name = ''valid_notify_method'' then loadValidNotifyMethod h args ts
      else if name = ''notify_method_capability'' then loadNotifyMethodCapability h args ts
      else if name = ''spamtest'' then loadSpamTest h args ts
      else if name = ''virustest'' then loadVirusTest h args ts
      else if name = ''metadata'' then loadMetadataTest h args ts
      else if name = ''metadataexists'' then loadMetadataExistsTest h args ts
      else if name = ''servermetadata'' then loadServerMetadataTest h args ts
      else if name = ''servermetadataexists'' then loadServerMetadataExistsTest h args ts
      else if name = ''filter'' then loadFilterTest h args
      else if name = ''execute'' then loadExecuteTest h args
      else failL (UnsupportedTest name))"

end
