(* ===== verification/Tests.thy ===== *)
theory Tests
  imports Program
begin

text \<open>
  The \<open>Check\<close> methods of \<open>interp/test.go\<close> and of the test extensions.  Most tests loop over
  items (header names, environment names, sources), take values from each, and either count
  them or compare them with the keys: \<open>matchLoop\<close> is that loop and \<open>anyMatch\<close> the loop over
  the values of one item.
\<close>

section \<open>Loops\<close>

fun anyMatch :: "('v \<Rightarrow> bool exec) \<Rightarrow> 'v list \<Rightarrow> bool exec" where
  "anyMatch m [] d = (Inr False, d)"
| "anyMatch m (v # vs) d =
     (case m v d of
        (Inl e, d1) \<Rightarrow> (Inl e, d1)
      | (Inr ok, d1) \<Rightarrow> if ok then (Inr True, d1) else anyMatch m vs d1)"

fun matchLoop ::
  "host \<Rightarrow> matcher_test \<Rightarrow> (bytes \<Rightarrow> bool exec) \<Rightarrow> ('i \<Rightarrow> runtime \<Rightarrow> (exec_error, bytes list) result) \<Rightarrow>
     (bytes \<Rightarrow> bool) \<Rightarrow> 'i list \<Rightarrow> 64 word \<Rightarrow> bool exec" where
  "matchLoop h t m vals counted [] cnt d =
     (if isCount t then (countMatches h t d cnt, d) else (Inr False, d))"
| "matchLoop h t m vals counted (x # xs) cnt d =
     (case vals x d of
        Inl e \<Rightarrow> (Inl e, d)
      | Inr vs \<Rightarrow>
          if isCount t then matchLoop h t m vals counted xs (cnt + of_nat (length (filter counted vs))) d
          else (case anyMatch m vs d of
                  (Inl e, d1) \<Rightarrow> (Inl e, d1)
                | (Inr ok, d1) \<Rightarrow> if ok then (Inr True, d1) else matchLoop h t m vals counted xs cnt d1))"

text \<open>All of the names satisfy a check that the host answers, after expansion.\<close>

fun allExpanded :: "host \<Rightarrow> (bytes \<Rightarrow> (exec_error, bool) result) \<Rightarrow> bytes list \<Rightarrow> bool exec" where
  "allExpanded h p [] d = (Inr True, d)"
| "allExpanded h p (n # ns) d =
     (case expandVars h d n of
        Inl e \<Rightarrow> (Inl e, d)
      | Inr v \<Rightarrow>
          (case p v of
             Inl e \<Rightarrow> (Inl e, d)
           | Inr ok \<Rightarrow> if ok then allExpanded h p ns d else (Inr False, d)))"

definition entryMatch :: "host \<Rightarrow> matcher_test \<Rightarrow> bytes \<Rightarrow> bool exec" where
  "entryMatch h t v d = (if MMatch t = MatchList then tryMatchList h t v d else tryMatch h t v d)"

definition entryAddress :: "host \<Rightarrow> matcher_test \<Rightarrow> address_part \<Rightarrow> bytes \<Rightarrow> bool exec" where
  "entryAddress h t part v d = (if MMatch t = MatchList then tryMatchList h t v d else testAddress h t part v d)"

section \<open>Messages\<close>

definition allowedAddrHeaders :: "bytes list" where
  "allowedAddrHeaders =
     [''from'', ''to'', ''cc'', ''bcc'', ''sender'', ''resent-from'', ''resent-to'',
      ''reply-to'', ''resent-reply-to'', ''resent-sender'', ''resent-cc'', ''resent-bcc'',
      ''for-approval'', ''for-handling'', ''for-comment'', ''apparently-to'', ''errors-to'', ''delivered-to'',
      ''return-receipt-to'', ''x-admin'', ''read-receipt-to'', ''x-confirm-reading-to'', ''return-receipt-requested'',
      ''registered-mail-reply-requested-by'', ''mail-followup-to'', ''mail-reply-to'', ''abuse-reports-to'',
      ''x-complaints-to'', ''x-report-abuse-to'', ''x-beenthere'', ''x-original-from'', ''x-original-to'']"

text \<open>
  The loop over the values of one header of the address test: what the test returns from
  here, or the count so far when the loop goes on.
\<close>

fun addressValues ::
  "host \<Rightarrow> matcher_test \<Rightarrow> address_part \<Rightarrow> bytes list \<Rightarrow> 64 word \<Rightarrow> (bool option \<times> 64 word) exec" where
  "addressValues h t part [] cnt d = (Inr (None, cnt), d)"
| "addressValues h t part (v # vs) cnt d =
     (case ParseAddressList h v of
        None \<Rightarrow> (Inr (Some False, cnt), d)
      | Some addrs \<Rightarrow>
          if isCount t then addressValues h t part vs (cnt + of_nat (length addrs)) d
          else (case anyMatch (entryAddress h t part) addrs d of
                  (Inl e, d1) \<Rightarrow> (Inl e, d1)
                | (Inr ok, d1) \<Rightarrow> if ok then (Inr (Some True, cnt), d1) else addressValues h t part vs cnt d1))"

fun addressLoop :: "host \<Rightarrow> matcher_test \<Rightarrow> address_part \<Rightarrow> bytes list \<Rightarrow> 64 word \<Rightarrow> bool exec" where
  "addressLoop h t part [] cnt d = (if isCount t then (countMatches h t d cnt, d) else (Inr False, d))"
| "addressLoop h t part (hdr0 # hs) cnt d =
     (case expandVars h d (ToLower (uni h) hdr0) of
        Inl e \<Rightarrow> (Inl e, d)
      | Inr hdr \<Rightarrow>
          if hdr \<notin> set allowedAddrHeaders then addressLoop h t part hs cnt d
          else (case HeaderGet h hdr of
                  Inl e \<Rightarrow> (Inl e, d)
                | Inr values \<Rightarrow>
                    (case addressValues h t part values cnt d of
                       (Inl e, d1) \<Rightarrow> (Inl e, d1)
                     | (Inr (Some r, c), d1) \<Rightarrow> (Inr r, d1)
                     | (Inr (None, c), d1) \<Rightarrow> addressLoop h t part hs c d1)))"

definition AddressTest_Check :: "host \<Rightarrow> matcher_test \<Rightarrow> address_part \<Rightarrow> bytes list \<Rightarrow> bool exec" where
  "AddressTest_Check h t part hdrs = addressLoop h t part hdrs 0"

definition envelopeValue :: "host \<Rightarrow> bytes \<Rightarrow> runtime \<Rightarrow> (exec_error, bytes list) result" where
  "envelopeValue h field d =
     (case expandVars h d field of
        Inl e \<Rightarrow> Inl e
      | Inr f \<Rightarrow>
          (let f' = ToLower (uni h) f in
           if f' = ''from'' then Inr [EnvelopeFrom h]
           else if f' = ''to'' then Inr [EnvelopeTo h]
           else if f' = ''auth'' then Inr [AuthUsername h]
           else Inl ErrEnvelopePart))"

definition EnvelopeTest_Check :: "host \<Rightarrow> matcher_test \<Rightarrow> address_part \<Rightarrow> bytes list \<Rightarrow> bool exec" where
  "EnvelopeTest_Check h t part fs =
     matchLoop h t (entryAddress h t part) (envelopeValue h) (\<lambda>v. v \<noteq> []) fs 0"

definition ExistsTest_Check :: "host \<Rightarrow> bytes list \<Rightarrow> bool \<Rightarrow> bool \<Rightarrow> bool exec" where
  "ExistsTest_Check h fs mime anyChild d =
     (if mime then
        (case mimeTestParts h d anyChild of
           Inl e \<Rightarrow> (Inl e, d)
         | Inr parts \<Rightarrow> allExpanded h (\<lambda>f. Inr (list_ex (\<lambda>p. HdrHas h (mheader p) f) parts)) fs d)
      else allExpanded h (\<lambda>f. map_sum id (\<lambda>vs. vs \<noteq> []) (HeaderGet h f)) fs d)"

definition headerValues :: "host \<Rightarrow> bytes \<Rightarrow> runtime \<Rightarrow> (exec_error, bytes list) result" where
  "headerValues h hdr d = (case expandVars h d hdr of Inl e \<Rightarrow> Inl e | Inr n \<Rightarrow> HeaderGet h n)"

definition checkMime ::
  "host \<Rightarrow> matcher_test \<Rightarrow> bytes list \<Rightarrow> bool \<Rightarrow> bytes \<Rightarrow> bytes list \<Rightarrow> bool exec" where
  "checkMime h t hdrs anyChild mode ps d =
     (case mimeTestParts h d anyChild of
        Inl e \<Rightarrow> (Inl e, d)
      | Inr parts \<Rightarrow>
          matchLoop h t (entryMatch h t)
            (\<lambda>(p, hdr) d. case expandVars h d hdr of Inl e \<Rightarrow> Inl e | Inr n \<Rightarrow> Inr (mimeHeaderValues h p n mode ps))
            (\<lambda>_. True) (concat (map (\<lambda>p. map (Pair p) hdrs) parts)) 0 d)"

definition HeaderTest_Check ::
  "host \<Rightarrow> matcher_test \<Rightarrow> bytes list \<Rightarrow> bool \<Rightarrow> bool \<Rightarrow> bytes \<Rightarrow> bytes list \<Rightarrow> bool exec" where
  "HeaderTest_Check h t hdrs mime anyChild mode ps d =
     (if mime then checkMime h t hdrs anyChild mode ps d
      else matchLoop h t (entryMatch h t) (headerValues h) (\<lambda>_. True) hdrs 0 d)"

definition SizeTest_Check :: "host \<Rightarrow> int \<Rightarrow> bool \<Rightarrow> bool \<Rightarrow> bool exec" where
  "SizeTest_Check h sz ovr undr d =
     (Inr (ovr \<and> MessageSize h > sz \<or> undr \<and> MessageSize h < sz), d)"

section \<open>Environment, flags, variables\<close>

fun environmentLoop :: "host \<Rightarrow> matcher_test \<Rightarrow> bytes list \<Rightarrow> 64 word \<Rightarrow> bool \<Rightarrow> bool exec" where
  "environmentLoop h t [] cnt anyKnown d =
     (if isCount t then if \<not> anyKnown then (Inr False, d) else (countMatches h t d cnt, d) else (Inr False, d))"
| "environmentLoop h t (n # ns) cnt anyKnown d =
     (case expandVars h d n of
        Inl e \<Rightarrow> (Inl e, d)
      | Inr name \<Rightarrow>
          (case (case GetEnvironment h of None \<Rightarrow> None | Some get \<Rightarrow> get (ToLower (uni h) name)) of
             None \<Rightarrow> environmentLoop h t ns cnt anyKnown d
           | Some v \<Rightarrow>
               if isCount t then environmentLoop h t ns (if v \<noteq> [] then cnt + 1 else cnt) True d
               else (case tryMatch h t v d of
                       (Inl e, d1) \<Rightarrow> (Inl e, d1)
                     | (Inr ok, d1) \<Rightarrow> if ok then (Inr True, d1) else environmentLoop h t ns cnt True d1)))"

definition EnvironmentTest_Check :: "host \<Rightarrow> matcher_test \<Rightarrow> bytes list \<Rightarrow> bool exec" where
  "EnvironmentTest_Check h t names = environmentLoop h t names 0 False"

definition varFlags :: "host \<Rightarrow> bytes \<Rightarrow> runtime \<Rightarrow> (exec_error, bytes list) result" where
  "varFlags h v d =
     (case Var h d v of
        Inl e \<Rightarrow> Inl e
      | Inr val \<Rightarrow> Inr (flagList (canonicalFlags (Fields val) [] (FlagAliases d))))"

definition HasFlagTest_Check :: "host \<Rightarrow> matcher_test \<Rightarrow> bytes list \<Rightarrow> bool exec" where
  "HasFlagTest_Check h t variables d =
     (if variables = [] then
        matchLoop h t (tryMatch h t) (\<lambda>_ d. Inr (flagList (RFlags d))) (\<lambda>_. True) [()] 0 d
      else matchLoop h t (tryMatch h t) (varFlags h) (\<lambda>_. True) variables 0 d)"

definition TestString_Check :: "host \<Rightarrow> matcher_test \<Rightarrow> bytes list \<Rightarrow> bool exec" where
  "TestString_Check h t sources =
     matchLoop h t (entryMatch h t) (\<lambda>s d. map_sum id (\<lambda>v. [v]) (expandVars h d s)) (\<lambda>v. v \<noteq> []) sources 0"

section \<open>Mailboxes, lists, notification methods\<close>

definition MailboxExistsTest_Check :: "host \<Rightarrow> bytes list \<Rightarrow> bool exec" where
  "MailboxExistsTest_Check h mailboxes d =
     (case MailboxExists h of None \<Rightarrow> (Inr True, d) | Some check \<Rightarrow> allExpanded h check mailboxes d)"

definition TestMailboxIDExists_Check :: "host \<Rightarrow> bytes list \<Rightarrow> bool exec" where
  "TestMailboxIDExists_Check h ids d =
     (case MailboxByID h of
        None \<Rightarrow> (Inr False, d)
      | Some byID \<Rightarrow> allExpanded h (\<lambda>i. Inr (byID i \<noteq> None)) ids d)"

definition TestSpecialUseExists_Check :: "host \<Rightarrow> bytes \<Rightarrow> bytes list \<Rightarrow> bool exec" where
  "TestSpecialUseExists_Check h mailbox attrs d =
     (case SpecialUseMailbox h of
        None \<Rightarrow> (Inr False, d)
      | Some byAttr \<Rightarrow>
          if mailbox = [] then allExpanded h (\<lambda>a. Inr (byAttr a \<noteq> None)) attrs d
          else expanding h mailbox (\<lambda>m. allExpanded h (MailboxHasSpecialUse h m) attrs) d)"

definition TestValidExtList_Check :: "host \<Rightarrow> bytes list \<Rightarrow> bool exec" where
  "TestValidExtList_Check h names d =
     (case ListValid h of
        None \<Rightarrow> (Inr False, d)
      | Some valid \<Rightarrow> allExpanded h (\<lambda>n. Inr (valid (expandListName n))) names d)"

definition TestValidNotifyMethod_Check :: "host \<Rightarrow> bytes list \<Rightarrow> bool exec" where
  "TestValidNotifyMethod_Check h uris d =
     (case NotifyMethodValid h of
        None \<Rightarrow> (Inr False, d)
      | Some valid \<Rightarrow> allExpanded h (\<lambda>u. Inr (valid u)) uris d)"

definition TestNotifyMethodCapability_Check :: "host \<Rightarrow> matcher_test \<Rightarrow> bytes \<Rightarrow> bytes \<Rightarrow> bool exec" where
  "TestNotifyMethodCapability_Check h t uri0 cap0 d =
     (case NotifyMethodValid h of
        None \<Rightarrow> (Inr False, d)
      | Some _ \<Rightarrow>
          expanding h uri0 (\<lambda>uri. expanding h cap0 (\<lambda>cap d.
            case NotifyMethodCapability h uri (ToLower (uni h) cap) of
              None \<Rightarrow> (Inr False, d)
            | Some v \<Rightarrow> tryMatch h t v d)) d)"

section \<open>Scores and metadata\<close>

definition scoreMatch :: "host \<Rightarrow> matcher_test \<Rightarrow> bytes \<times> bool \<Rightarrow> bool exec" where
  "scoreMatch h t score d =
     (case score of (v, tested) \<Rightarrow>
        if isCount t then (countMatches h t d (if tested then 1 else 0), d) else tryMatch h t v d)"

definition SpamTest_Check :: "host \<Rightarrow> matcher_test \<Rightarrow> bool \<Rightarrow> bool exec" where
  "SpamTest_Check h t percent =
     scoreMatch h t (case SpamScore h of Some score \<Rightarrow> score percent | None \<Rightarrow> (''0'', False))"

definition VirusTest_Check :: "host \<Rightarrow> matcher_test \<Rightarrow> bool exec" where
  "VirusTest_Check h t = scoreMatch h t (case SpamScore h of Some _ \<Rightarrow> VirusScore h | None \<Rightarrow> (''0'', False))"

definition annotationMatch :: "host \<Rightarrow> matcher_test \<Rightarrow> (exec_error, bytes option) result \<Rightarrow> bool exec" where
  "annotationMatch h t r d =
     (case r of
        Inl e \<Rightarrow> (Inl e, d)
      | Inr a \<Rightarrow>
          if isCount t then (countMatches h t d (if a \<noteq> None then 1 else 0), d)
          else (case a of None \<Rightarrow> (Inr False, d) | Some v \<Rightarrow> tryMatch h t v d))"

definition TestMetadata_Check :: "host \<Rightarrow> matcher_test \<Rightarrow> bytes \<Rightarrow> bytes \<Rightarrow> bool exec" where
  "TestMetadata_Check h t mailbox0 annotation0 d =
     (case GetMailboxMetadata h of
        None \<Rightarrow> (Inr False, d)
      | Some get \<Rightarrow>
          expanding h mailbox0 (\<lambda>mailbox. expanding h annotation0 (\<lambda>ann. annotationMatch h t (get mailbox ann))) d)"

definition TestMetadataExists_Check :: "host \<Rightarrow> bytes \<Rightarrow> bytes list \<Rightarrow> bool exec" where
  "TestMetadataExists_Check h mailbox0 annotations d =
     (case GetMailboxMetadata h of
        None \<Rightarrow> (Inr False, d)
      | Some get \<Rightarrow>
          expanding h mailbox0
            (\<lambda>mailbox. allExpanded h (\<lambda>a. map_sum id (\<lambda>v. v \<noteq> None) (get mailbox a)) annotations) d)"

definition TestServerMetadata_Check :: "host \<Rightarrow> matcher_test \<Rightarrow> bytes \<Rightarrow> bool exec" where
  "TestServerMetadata_Check h t annotation0 d =
     (case GetMailboxMetadata h of
        None \<Rightarrow> (Inr False, d)
      | Some _ \<Rightarrow> expanding h annotation0 (\<lambda>ann. annotationMatch h t (GetServerMetadata h ann)) d)"

definition TestServerMetadataExists_Check :: "host \<Rightarrow> bytes list \<Rightarrow> bool exec" where
  "TestServerMetadataExists_Check h annotations d =
     (case GetMailboxMetadata h of
        None \<Rightarrow> (Inr False, d)
      | Some _ \<Rightarrow> allExpanded h (\<lambda>a. map_sum id (\<lambda>v. v \<noteq> None) (GetServerMetadata h a)) annotations d)"

section \<open>Duplicates\<close>

definition headerID :: "host \<Rightarrow> bytes \<Rightarrow> bytes option" where
  "headerID h name =
     (case HeaderGet h name of
        Inl e \<Rightarrow> None
      | Inr [] \<Rightarrow> None
      | Inr (v # vs) \<Rightarrow> Some (TrimSpace v))"

definition resolveID :: "host \<Rightarrow> runtime \<Rightarrow> id_source \<Rightarrow> bytes \<Rightarrow> (exec_error, bytes option) result" where
  "resolveID h d kind param =
     (case kind of
        IdUniqueID \<Rightarrow> map_sum id Some (expandVars h d param)
      | IdHeader \<Rightarrow> Inr (headerID h param)
      | IdMessageID \<Rightarrow> Inr (headerID h ''Message-ID''))"

definition TestDuplicate_Check :: "host \<Rightarrow> bytes \<Rightarrow> 32 word \<Rightarrow> bool \<Rightarrow> id_source \<Rightarrow> bytes \<Rightarrow> bool exec" where
  "TestDuplicate_Check h handle seconds lst kind param d =
     (case IsDuplicate h of
        None \<Rightarrow> (Inr False, d)
      | Some check \<Rightarrow>
          if seconds = 0 then (Inr False, d)
          else (case resolveID h d kind param of
                  Inl e \<Rightarrow> (Inl e, d)
                | Inr None \<Rightarrow> (Inr False, d)
                | Inr (Some i) \<Rightarrow> if i = [] then (Inr False, d) else check handle i seconds lst d))"

text \<open>
  \<open>MemoryDuplicateTracker.IsDuplicate\<close> at a given time: the memory maps keys to expiry
  times in nanoseconds, and expired entries are evicted first.
\<close>

definition evict :: "int \<Rightarrow> (bytes \<rightharpoonup> int) \<Rightarrow> (bytes \<rightharpoonup> int)" where
  "evict now entries = (\<lambda>k. case entries k of Some ex \<Rightarrow> if ex > now then Some ex else None | None \<Rightarrow> None)"

definition trackerKey :: "bytes \<Rightarrow> bytes \<Rightarrow> bytes" where
  "trackerKey handle i = handle @ [CHR 0x00] @ i"

definition MemoryDuplicateTracker ::
  "int \<Rightarrow> bytes \<Rightarrow> bytes \<Rightarrow> 32 word \<Rightarrow> bool \<Rightarrow> bool exec" where
  "MemoryDuplicateTracker now handle i seconds lst d =
     (let key = trackerKey handle i; expiry = now + uint seconds * 1000000000; es = evict now (duplicateEntries d) in
      case es key of
        Some prev \<Rightarrow>
          if prev > now then (Inr True, d\<lparr>duplicateEntries := (if lst then es(key \<mapsto> expiry) else es)\<rparr>)
          else (Inr False, d\<lparr>duplicateEntries := es(key \<mapsto> expiry)\<rparr>)
      | None \<Rightarrow> (Inr False, d\<lparr>duplicateEntries := es(key \<mapsto> expiry)\<rparr>))"

section \<open>Checking a test\<close>

fun Check :: "host \<Rightarrow> itest \<Rightarrow> bool exec"
and checkAll :: "host \<Rightarrow> itest list \<Rightarrow> bool exec"
and checkAny :: "host \<Rightarrow> itest list \<Rightarrow> bool exec" where
  "Check h (AddressTest t part hdrs) d = AddressTest_Check h t part hdrs d"
| "Check h (AllOfTest ts) d = checkAll h ts d"
| "Check h (AnyOfTest ts) d = checkAny h ts d"
| "Check h (NotTest t) d = (case Check h t d of (Inl e, d') \<Rightarrow> (Inl e, d') | (Inr ok, d') \<Rightarrow> (Inr (\<not> ok), d'))"
| "Check h TrueTest d = (Inr True, d)"
| "Check h FalseTest d = (Inr False, d)"
| "Check h (EnvelopeTest t part fs) d = EnvelopeTest_Check h t part fs d"
| "Check h (ExistsTest fs mime anyChild) d = ExistsTest_Check h fs mime anyChild d"
| "Check h (HeaderTest t hdrs mime anyChild mode ps) d = HeaderTest_Check h t hdrs mime anyChild mode ps d"
| "Check h (SizeTest sz ovr undr) d = SizeTest_Check h sz ovr undr d"
| "Check h (EnvironmentTest t names) d = EnvironmentTest_Check h t names d"
| "Check h (HasFlagTest t variables) d = HasFlagTest_Check h t variables d"
| "Check h (BodyTest t transform cts) d = BodyTest_Check h t transform cts d"
| "Check h (TestString t sources) d = TestString_Check h t sources d"
| "Check h (DateTest t hdr part zone orig idx lst) d = DateTest_Check h t hdr part zone orig idx lst d"
| "Check h (CurrentDateTest t part zone) d = CurrentDateTest_Check h t part zone d"
| "Check h (MailboxExistsTest ms) d = MailboxExistsTest_Check h ms d"
| "Check h (TestMailboxIDExists ids) d = TestMailboxIDExists_Check h ids d"
| "Check h (TestSpecialUseExists m attrs) d = TestSpecialUseExists_Check h m attrs d"
| "Check h (TestValidExtList ns) d = TestValidExtList_Check h ns d"
| "Check h (TestValidNotifyMethod us) d = TestValidNotifyMethod_Check h us d"
| "Check h (TestNotifyMethodCapability t uri cap) d = TestNotifyMethodCapability_Check h t uri cap d"
| "Check h (SpamTest t percent) d = SpamTest_Check h t percent d"
| "Check h (VirusTest t) d = VirusTest_Check h t d"
| "Check h (TestMetadata t m a) d = TestMetadata_Check h t m a d"
| "Check h (TestMetadataExists m as) d = TestMetadataExists_Check h m as d"
| "Check h (TestServerMetadata t a) d = TestServerMetadata_Check h t a d"
| "Check h (TestServerMetadataExists as) d = TestServerMetadataExists_Check h as d"
| "Check h (TestIhave caps have) d = (Inr have, d)"
| "Check h (TestDuplicate handle secs lst kind param) d = TestDuplicate_Check h handle secs lst kind param d"
| "Check h (TestFilter p args) d = filterCommon h p args d"
| "Check h (TestExecute p args input dat out) d = executeCommon h p args input dat out d"
| "checkAll h [] d = (Inr True, d)"
| "checkAll h (t # ts) d =
     (case Check h t d of
        (Inl e, d') \<Rightarrow> (Inl e, d')
      | (Inr ok, d') \<Rightarrow> if ok then checkAll h ts d' else (Inr False, d'))"
| "checkAny h [] d = (Inr False, d)"
| "checkAny h (t # ts) d =
     (case Check h t d of
        (Inl e, d') \<Rightarrow> (Inl e, d')
      | (Inr ok, d') \<Rightarrow> if ok then (Inr True, d') else checkAny h ts d')"

end
