(* ===== verification/Actions.thy ===== *)
theory Actions
  imports Tests
begin

text \<open>
  The \<open>Execute\<close> methods of the commands that contain no other commands:
  \<open>interp/action.go\<close>, \<open>interp/variables.go\<close> with the value modifiers,
  \<open>interp/vacation.go\<close>, \<open>interp/editheader.go\<close>, \<open>interp/ihave.go\<close>, \<open>interp/notify.go\<close>,
  \<open>interp/report.go\<close>, \<open>interp/pipe.go\<close>, \<open>interp/filter.go\<close>, \<open>interp/execute.go\<close>,
  \<open>interp/debug.go\<close> and the \<open>global\<close> command of \<open>interp/include.go\<close>.
\<close>

section \<open>Filing, redirecting, keeping\<close>

text \<open>The mailbox that \<open>:mailboxid\<close> and \<open>:specialuse\<close> resolve to, else the named one.\<close>

definition resolveMailbox :: "host \<Rightarrow> runtime \<Rightarrow> bytes \<Rightarrow> bytes \<Rightarrow> bytes \<Rightarrow> (exec_error, bytes) result" where
  "resolveMailbox h d mailbox specialUse mailboxID =
     (case (case MailboxByID h of
              Some byID \<Rightarrow> if mailboxID \<noteq> [] then map_sum id byID (expandVars h d mailboxID) else Inr None
            | None \<Rightarrow> Inr None) of
        Inl e \<Rightarrow> Inl e
      | Inr (Some m) \<Rightarrow> Inr m
      | Inr None \<Rightarrow>
          (case SpecialUseMailbox h of
             None \<Rightarrow> Inr mailbox
           | Some byAttr \<Rightarrow>
               if specialUse = [] then Inr mailbox
               else (case expandVars h d specialUse of
                       Inl e \<Rightarrow> Inl e
                     | Inr a \<Rightarrow> (case byAttr a of Some m \<Rightarrow> Inr m | None \<Rightarrow> Inr mailbox))))"

definition actionFlags :: "host \<Rightarrow> flags \<Rightarrow> (flags \<Rightarrow> unit exec) \<Rightarrow> unit exec" where
  "actionFlags h cflags k d =
     expandingList h (if cflags = None then RFlags d else cflags)
       (\<lambda>fs. k (canonicalFlags fs [] (FlagAliases d))) d"

definition CmdFileInto_Execute ::
  "host \<Rightarrow> bytes \<Rightarrow> flags \<Rightarrow> bool \<Rightarrow> bool \<Rightarrow> bytes \<Rightarrow> bytes \<Rightarrow> unit exec" where
  "CmdFileInto_Execute h mailbox0 cflags copy create specialUse mailboxID =
     expanding h mailbox0 (\<lambda>mailbox1 d.
       case resolveMailbox h d mailbox1 specialUse mailboxID of
         Inl e \<Rightarrow> (Inl e, d)
       | Inr mailbox \<Rightarrow>
           if mailbox \<in> set (Mailboxes d) then (Inr (), d)
           else actionFlags h cflags (\<lambda>flags.
             expanding h specialUse (\<lambda>su. expanding h mailboxID (\<lambda>mid.
               acting h (ActionFileInto mailbox flags copy create su mid) (\<lambda>d.
                 (Inr (), d\<lparr>Mailboxes := Mailboxes d @ [mailbox],
                            ImplicitKeep := ImplicitKeep d \<and> copy\<rparr>))))) d)"

definition CmdRedirect_Execute :: "host \<Rightarrow> bytes \<Rightarrow> bool \<Rightarrow> bool \<Rightarrow> unit exec" where
  "CmdRedirect_Execute h addr0 copy list =
     expanding h addr0 (\<lambda>addr d.
       (let target = (if list then expandListName addr else addr) in
        case RedirectAllowed h d target of
          Inl e \<Rightarrow> (Inl e, d)
        | Inr ok \<Rightarrow>
            if \<not> ok then (Inr (), d)
            else if list then
              acting h (ActionRedirect [] copy target)
                (\<lambda>d. (Inr (), d\<lparr>ImplicitKeep := ImplicitKeep d \<and> copy\<rparr>)) d
            else
              acting h (ActionRedirect addr copy [])
                (\<lambda>d. (Inr (), d\<lparr>RedirectAddr := RedirectAddr d @ [addr],
                               ImplicitKeep := ImplicitKeep d \<and> copy\<rparr>)) d))"

definition CmdKeep_Execute :: "host \<Rightarrow> flags \<Rightarrow> unit exec" where
  "CmdKeep_Execute h cflags =
     actionFlags h cflags (\<lambda>flags. acting h (ActionKeep False flags) (\<lambda>d. (Inr (), d\<lparr>Keep := True\<rparr>)))"

definition CmdDiscard_Execute :: "host \<Rightarrow> unit exec" where
  "CmdDiscard_Execute h =
     acting h ActionDiscard (\<lambda>d. (Inr (), d\<lparr>ImplicitKeep := False, RFlags := Some []\<rparr>))"

definition CmdReject_Execute :: "host \<Rightarrow> bytes \<Rightarrow> unit exec" where
  "CmdReject_Execute h reason0 =
     expanding h reason0 (\<lambda>reason. acting h (ActionReject reason) (\<lambda>d. (Inr (), d\<lparr>ImplicitKeep := False\<rparr>)))"

definition CmdEReject_Execute :: "host \<Rightarrow> bytes \<Rightarrow> unit exec" where
  "CmdEReject_Execute h reason0 =
     expanding h reason0 (\<lambda>reason. acting h (ActionEReject reason) (\<lambda>d. (Inr (), d\<lparr>ImplicitKeep := False\<rparr>)))"

section \<open>Flags\<close>

text \<open>Where a flag command writes: the variable, or the flags of the data.\<close>

definition storeFlags :: "host \<Rightarrow> bytes \<Rightarrow> flags \<Rightarrow> unit exec" where
  "storeFlags h variable flags d =
     (if variable \<noteq> [] then SetVar (uni h) variable (Join (flagList flags) '' '') d
      else (Inr (), d\<lparr>RFlags := flags\<rparr>))"

definition sourceFlags :: "host \<Rightarrow> bytes \<Rightarrow> runtime \<Rightarrow> (exec_error, flags) result" where
  "sourceFlags h variable d =
     (if variable \<noteq> [] then map_sum id (\<lambda>v. Some (Fields v)) (Var h d variable) else Inr (RFlags d))"

definition CmdSetFlag_Execute :: "host \<Rightarrow> bytes \<Rightarrow> flags \<Rightarrow> unit exec" where
  "CmdSetFlag_Execute h variable cflags d =
     (if cflags = None then (Inr (), d)
      else expandingList h cflags (\<lambda>fs. storeFlags h variable (canonicalFlags fs [] (FlagAliases d))) d)"

definition CmdAddFlag_Execute :: "host \<Rightarrow> bytes \<Rightarrow> flags \<Rightarrow> unit exec" where
  "CmdAddFlag_Execute h variable cflags d =
     (if cflags = None then (Inr (), d)
      else expandingList h cflags (\<lambda>fs d.
        case sourceFlags h variable d of
          Inl e \<Rightarrow> (Inl e, d)
        | Inr src \<Rightarrow>
            storeFlags h variable
              (case src of
                 None \<Rightarrow> Some fs
               | Some srcFlags \<Rightarrow> canonicalFlags (srcFlags @ fs) [] (FlagAliases d)) d) d)"

definition CmdRemoveFlag_Execute :: "host \<Rightarrow> bytes \<Rightarrow> flags \<Rightarrow> unit exec" where
  "CmdRemoveFlag_Execute h variable cflags d =
     (if cflags = None then (Inr (), d)
      else expandingList h cflags (\<lambda>fs d.
        case sourceFlags h variable d of
          Inl e \<Rightarrow> (Inl e, d)
        | Inr src \<Rightarrow>
            storeFlags h variable
              (case src of
                 None \<Rightarrow> None
               | Some srcFlags \<Rightarrow> canonicalFlags srcFlags fs (FlagAliases d)) d) d)"

section \<open>Variables\<close>

definition modQuoteWildcard :: "bytes \<Rightarrow> bytes" where
  "modQuoteWildcard s =
     concat (map (\<lambda>r. if r \<in> set (map of_char [BACKSLASH, CHR ''*'', CHR ''?'']) then BACKSLASH # encodeRune r
                      else encodeRune r) (runes s))"

text \<open>The first byte becomes a rune, which is then encoded again.\<close>

definition modUpperFirst :: "bytes \<Rightarrow> bytes" where
  "modUpperFirst s = (case s of [] \<Rightarrow> [] | b # r \<Rightarrow> encodeRune (ord (upperByte b)) @ r)"

definition modLowerFirst :: "bytes \<Rightarrow> bytes" where
  "modLowerFirst s = (case s of [] \<Rightarrow> [] | b # r \<Rightarrow> encodeRune (ord (lowerByte b)) @ r)"

definition isURIUnreserved :: "char \<Rightarrow> bool" where
  "isURIUnreserved c \<longleftrightarrow> is_upper c \<or> is_lower c \<or> is_digit c \<or> c \<in> set ''-._~''"

definition hexDigit :: "nat \<Rightarrow> char" where
  "hexDigit n = (if n < 10 then char_of (48 + n) else char_of (55 + n))"

definition percentEncode :: "bytes \<Rightarrow> bytes" where
  "percentEncode s =
     concat (map (\<lambda>c. if isURIUnreserved c then [c]
                      else [CHR ''%'', hexDigit (ord c div 16), hexDigit (ord c mod 16)]) s)"

fun applyModifier :: "host \<Rightarrow> value_modifier \<Rightarrow> bytes \<Rightarrow> bytes" where
  "applyModifier h ModLength s = Itoa (int (length (runes s)))"
| "applyModifier h ModQuoteWildcard s = modQuoteWildcard s"
| "applyModifier h ModQuoteRegex s = QuoteMeta h s"
| "applyModifier h ModEncodeURL s = percentEncode s"
| "applyModifier h ModUpperFirst s = modUpperFirst s"
| "applyModifier h ModLowerFirst s = modLowerFirst s"
| "applyModifier h ModUpper s = ToUpper (uni h) s"
| "applyModifier h ModLower s = ToLower (uni h) s"

text \<open>The loop over the precedences, highest first: the value and the last precedence used.\<close>

fun applyModifiers :: "host \<Rightarrow> modifiers \<Rightarrow> nat list \<Rightarrow> bytes \<times> nat \<Rightarrow> bytes \<times> nat" where
  "applyModifiers h mods [] r = r"
| "applyModifiers h mods (prec # ps) (s, lastPrec) =
     (case mods prec of
        Some m \<Rightarrow> applyModifiers h mods ps (applyModifier h m s, prec)
      | None \<Rightarrow> applyModifiers h mods ps (s, lastPrec))"

definition buildValueModifier :: "host \<Rightarrow> modifiers \<Rightarrow> int \<Rightarrow> bytes \<Rightarrow> (exec_error, bytes) result" where
  "buildValueModifier h mods maxLen s0 =
     (case applyModifiers h mods [40, 30, 20, 15, 10] (s0, 9999) of (s, lastPrec) \<Rightarrow>
        if lastPrec = 20 \<and> int (length s) > maxLen then
          if maxLen < 0 then Inl (Panic ''slice bounds out of range'')
          else (let until = cutIndex s (nat maxLen);
                    until' = (if until > 0 \<and> s ! (until - 1) = BACKSLASH then until - 1 else until) in
                Inr (take until' s))
        else Inr s)"

definition CmdSet_Execute :: "host \<Rightarrow> bytes \<Rightarrow> bytes \<Rightarrow> modifiers \<Rightarrow> int \<Rightarrow> unit exec" where
  "CmdSet_Execute h name value0 mods maxLen =
     expanding h value0 (\<lambda>v d.
       case buildValueModifier h mods maxLen v of
         Inl e \<Rightarrow> (Inl e, d)
       | Inr v' \<Rightarrow> SetVar (uni h) name v' d)"

definition CmdExtractText_Execute :: "host \<Rightarrow> int \<Rightarrow> bytes \<Rightarrow> modifiers \<Rightarrow> int \<Rightarrow> unit exec" where
  "CmdExtractText_Execute h first var mods maxLen d =
     (let t = decodePartText h (currentMIMEPart d); rs = runes t;
          t' = (if first > 0 \<and> int (length rs) > first then encodeRunes (take (nat first) rs) else t) in
      case buildValueModifier h mods maxLen t' of
        Inl e \<Rightarrow> (Inl e, d)
      | Inr v \<Rightarrow> SetVar (uni h) var v d)"

fun declareGlobals :: "unicode_tables \<Rightarrow> bytes list \<Rightarrow> unit exec" where
  "declareGlobals U [] d = (Inr (), d)"
| "declareGlobals U (n # ns) d =
     (if CHR ''.'' \<in> set n then (Inl ErrGlobalName, d)
      else declareGlobals U ns (d\<lparr>globalVarDecls := insert (ToLower U n) (globalVarDecls d)\<rparr>))"

definition CmdGlobal_Execute :: "host \<Rightarrow> bytes list \<Rightarrow> unit exec" where
  "CmdGlobal_Execute h names = declareGlobals (uni h) names"

section \<open>Vacation\<close>

definition vacationPeriod :: "vacation_cmd \<Rightarrow> bool \<times> int" where
  "vacationPeriod c =
     (if CSecondsGiven c then (True, CSeconds c)
      else if CDaysGiven c then (True, wrap64 (CDays c * 24 * 60 * 60))
      else (False, 0))"

definition vacationInterval :: "vacation_cmd \<Rightarrow> int \<times> int" where
  "vacationInterval c =
     (if CSeconds c > 0 then (0, CSeconds c) else (if CDays c \<le> 0 then 7 else CDays c, 0))"

definition CmdVacation_Execute :: "host \<Rightarrow> vacation_cmd \<Rightarrow> unit exec" where
  "CmdVacation_Execute h c =
     expanding h (CSubject c) (\<lambda>subject. expanding h (CFrom c) (\<lambda>from. expanding h (CReason c) (\<lambda>reason.
     expanding h (CHandle c) (\<lambda>handle. expandingList h (Some (CAddresses c)) (\<lambda>addresses d.
       if EnvelopeFrom h = [] then (Inl ErrNoSender, d)
       else if list_ex (\<lambda>a. EqualFold (uni h) a (EnvelopeFrom h)) addresses then (Inr (), d)
       else expanding h (CFcc c) (\<lambda>fcc. expanding h (CFccSpecialUse c) (\<lambda>fccUse d.
         (Inr (), d\<lparr>VacationResponses := (VacationResponses d)(EnvelopeFrom h \<mapsto>
            \<lparr>VFrom = from, VSubject = (if subject = [] then ''Automated reply'' else subject), VBody = reason,
             VIsMime = CMime c, VHandle = (if handle = [] then ''default'' else handle),
             VDays = fst (vacationInterval c), VSeconds = snd (vacationInterval c),
             VFcc = fcc, VFccFlags = CFccFlags c, VFccCreate = CFccCreate c, VFccSpecialUse = fccUse,
             VAddresses = addresses, VSubjectGiven = (subject \<noteq> []),
             VPeriodGiven = fst (vacationPeriod c), VPeriodSeconds = snd (vacationPeriod c)\<rparr>)\<rparr>))) d)))))"

section \<open>Editing headers\<close>

definition protectedHeaders :: "bytes list" where
  "protectedHeaders = [''received'', ''auto-submitted'']"

definition isValidHeaderName :: "bytes \<Rightarrow> bool" where
  "isValidHeaderName name \<longleftrightarrow>
     name \<noteq> [] \<and> list_all (\<lambda>c. \<not> (ord c < 33 \<or> ord c > 126 \<or> c = CHR '':'')) name"

definition CmdAddHeader_Execute :: "host \<Rightarrow> bytes \<Rightarrow> bytes \<Rightarrow> bool \<Rightarrow> unit exec" where
  "CmdAddHeader_Execute h fieldName0 value0 lst =
     expanding h fieldName0 (\<lambda>fieldName d.
       if \<not> isValidHeaderName fieldName then (Inr (), d)
       else expanding h value0 (\<lambda>v d.
         (Inr (), d\<lparr>HeaderEdits := HeaderEdits d @
            [\<lparr>EAdd = True, EFieldName = fieldName, EValue = v, ELast = lst, EIndex = 0\<rparr>]\<rparr>)) d)"

text \<open>One recorded edit replayed on the values of a field.\<close>

definition applyEdit :: "header_edit \<Rightarrow> bytes list \<Rightarrow> bytes list" where
  "applyEdit e result =
     (if EAdd e then if ELast e then result @ [EValue e] else EValue e # result
      else if EIndex e > 0 then
        (let idx = (if ELast e then int (length result) - EIndex e else EIndex e - 1) in
         if idx \<ge> 0 \<and> idx < int (length result) then take (nat idx) result @ drop (nat idx + 1) result else result)
      else if EValue e \<noteq> [] then remove1 (EValue e) result
      else [])"

definition applyHeaderEditsToValues :: "unicode_tables \<Rightarrow> header_edit list \<Rightarrow> bytes \<Rightarrow> bytes list \<Rightarrow> bytes list" where
  "applyHeaderEditsToValues U edits fieldName values =
     fold (\<lambda>e r. if EqualFold U (EFieldName e) fieldName then applyEdit e r else r) edits values"

definition deleteEdit :: "bytes \<Rightarrow> bytes \<Rightarrow> int \<Rightarrow> bool \<Rightarrow> header_edit" where
  "deleteEdit fieldName v index lst =
     \<lparr>EAdd = False, EFieldName = fieldName, EValue = v, ELast = lst, EIndex = index\<rparr>"

text \<open>The loop over the values; an error of the match skips a value, a panic does not.\<close>

fun deleteMatching :: "host \<Rightarrow> matcher_test \<Rightarrow> bytes \<Rightarrow> bytes list \<Rightarrow> unit exec" where
  "deleteMatching h m fieldName [] d = (Inr (), d)"
| "deleteMatching h m fieldName (v # vs) d =
     (case tryMatch h m (TrimSpace v) d of
        (Inl e, d1) \<Rightarrow> if isPanic e then (Inl e, d1) else deleteMatching h m fieldName vs d1
      | (Inr ok, d1) \<Rightarrow>
          deleteMatching h m fieldName vs
            (if ok then d1\<lparr>HeaderEdits := HeaderEdits d1 @ [deleteEdit fieldName v 0 False]\<rparr> else d1))"

definition CmdDeleteHeader_Execute ::
  "host \<Rightarrow> matcher_test \<Rightarrow> bytes \<Rightarrow> bytes list \<Rightarrow> int \<Rightarrow> bool \<Rightarrow> unit exec" where
  "CmdDeleteHeader_Execute h m fieldName0 patterns index lst =
     expanding h fieldName0 (\<lambda>fieldName d.
       if \<not> isValidHeaderName fieldName then (Inr (), d)
       else if ToLower (uni h) fieldName \<in> set protectedHeaders then (Inr (), d)
       else if patterns = [] then (Inr (), d\<lparr>HeaderEdits := HeaderEdits d @ [deleteEdit fieldName [] index lst]\<rparr>)
       else (case HeaderGet h fieldName of
               Inl e \<Rightarrow> if isPanic e then (Inl e, d) else (Inr (), d)
             | Inr values0 \<Rightarrow>
                 (let values = applyHeaderEditsToValues (uni h) (HeaderEdits d) fieldName values0 in
                  if values = [] then (Inr (), d)
                  else if index > 0 then
                    (case selectIndex index lst values of
                       None \<Rightarrow> (Inr (), d)
                     | Some v \<Rightarrow>
                         (case tryMatch h m (TrimSpace v) d of
                            (Inl e, d1) \<Rightarrow> if isPanic e then (Inl e, d1) else (Inr (), d1)
                          | (Inr ok, d1) \<Rightarrow>
                              if ok then (Inr (), d1\<lparr>HeaderEdits := HeaderEdits d1 @ [deleteEdit fieldName [] index lst]\<rparr>)
                              else (Inr (), d1)))
                  else deleteMatching h m fieldName values d)))"

section \<open>Notifications, reports, logging\<close>

definition CmdNotify_Execute :: "host \<Rightarrow> bytes \<Rightarrow> bytes \<Rightarrow> bytes \<Rightarrow> bytes list \<Rightarrow> bytes \<Rightarrow> unit exec" where
  "CmdNotify_Execute h method0 from0 importance0 options message0 =
     expanding h method0 (\<lambda>method d.
       if method = [] then (Inl ErrNotifyMethod, d)
       else expandingList h (Some options) (\<lambda>ops. expanding h from0 (\<lambda>from. expanding h message0 (\<lambda>msg.
         acting h (ActionNotify method from (if importance0 = [] then ''2'' else importance0) ops msg)
           (\<lambda>d. (Inr (), d))))) d)"

definition isValidFeedbackType :: "bytes \<Rightarrow> bool" where
  "isValidFeedbackType s \<longleftrightarrow>
     s \<noteq> [] \<and> list_all (\<lambda>r. \<not> (r \<le> 0x20 \<or> r = 0x7F) \<and>
       r \<notin> set (map of_char (''()<>@,;:'' @ [BACKSLASH, DQUOTE] @ ''/[]?=''))) (runes s)"

definition CmdReport_Execute :: "host \<Rightarrow> bytes \<Rightarrow> bytes \<Rightarrow> bytes \<Rightarrow> bool \<Rightarrow> unit exec" where
  "CmdReport_Execute h feedbackType0 message0 target0 headersOnly d =
     (if \<not> requiresExt (Script d) YariloReportExtension then (Inl (ErrExtension YariloReportExtension), d)
      else expanding h feedbackType0 (\<lambda>feedbackType d.
        if \<not> isValidFeedbackType feedbackType then (Inl ErrFeedbackType, d)
        else expanding h message0 (\<lambda>msg. expanding h target0 (\<lambda>target.
          acting h (ActionReport feedbackType msg target headersOnly) (\<lambda>d. (Inr (), d)))) d) d)"

definition CmdDebugLog_Execute :: "host \<Rightarrow> bytes \<Rightarrow> unit exec" where
  "CmdDebugLog_Execute h message d =
     (if \<not> DebugLog (opts (Script d)) then (Inr (), d)
      else expanding h message (\<lambda>msg d. (Inr (), d\<lparr>DebugLogged := DebugLogged d @ [msg]\<rparr>)) d)"

section \<open>External programs\<close>

text \<open>The arguments, each expanded and checked in turn; \<open>Inr None\<close> when one is refused.\<close>

fun pipeArgs :: "host \<Rightarrow> runtime \<Rightarrow> bytes list \<Rightarrow> (exec_error, bytes list option) result" where
  "pipeArgs h d [] = Inr (Some [])"
| "pipeArgs h d (a # as) =
     (case expandVars h d a of
        Inl e \<Rightarrow> Inl e
      | Inr v \<Rightarrow>
          if \<not> isValidPipeArg v then Inr None
          else (case pipeArgs h d as of
                  Inl e \<Rightarrow> Inl e
                | Inr None \<Rightarrow> Inr None
                | Inr (Some vs) \<Rightarrow> Inr (Some (v # vs))))"

definition CmdPipe_Execute :: "host \<Rightarrow> bytes \<Rightarrow> bytes list \<Rightarrow> bool \<Rightarrow> bool \<Rightarrow> unit exec" where
  "CmdPipe_Execute h programName0 args0 copy try d =
     (if \<not> requiresExt (Script d) YariloPipeExtension then (Inl (ErrExtension YariloPipeExtension), d)
      else expanding h programName0 (\<lambda>programName d.
        if \<not> isValidProgramName programName then
          if try then (Inr (), d) else (Inl (ErrProgramName programName), d)
        else (case pipeArgs h d args0 of
          Inl e \<Rightarrow> (Inl e, d)
        | Inr None \<Rightarrow> if try then (Inr (), d) else (Inl ErrProgramArg, d)
        | Inr (Some args) \<Rightarrow>
            if programName \<in> PipedPrograms d then
              if try then (Inr (), d) else (Inl (ErrDuplicatePipe programName), d)
            else
              (case OnAction h (ActionPipe programName args copy try)
                      (d\<lparr>PipedPrograms := insert programName (PipedPrograms d)\<rparr>) of
                 (Inl e, d1) \<Rightarrow>
                   if try \<and> \<not> isPanic e then (Inr (), d1\<lparr>PipedPrograms := PipedPrograms d1 - {programName}\<rparr>)
                   else (Inl e, d1)
               | (Inr _, d1) \<Rightarrow>
                   (Inr (), if \<not> copy \<and> \<not> try then d1\<lparr>ImplicitKeep := False\<rparr> else d1)))) d)"

definition CmdFilter_Execute :: "host \<Rightarrow> bytes \<Rightarrow> bytes list \<Rightarrow> unit exec" where
  "CmdFilter_Execute h programName args d =
     (case filterCommon h programName args d of (Inl e, d') \<Rightarrow> (Inl e, d') | (Inr _, d') \<Rightarrow> (Inr (), d'))"

definition CmdExecute_Execute ::
  "host \<Rightarrow> bytes \<Rightarrow> bytes list \<Rightarrow> execute_input \<Rightarrow> bytes \<Rightarrow> bytes \<Rightarrow> unit exec" where
  "CmdExecute_Execute h programName args input inputData outputVar d =
     (case executeCommon h programName args input inputData outputVar d of
        (Inl e, d') \<Rightarrow> (Inl e, d')
      | (Inr ok, d') \<Rightarrow> if ok then (Inr (), d') else (Inl (ErrProgramFailed programName), d'))"

definition CmdError_Execute :: "host \<Rightarrow> bytes \<Rightarrow> unit exec" where
  "CmdError_Execute h message = expanding h message (\<lambda>msg d. (Inl (ErrSieveError msg), d))"

end
