(* ===== verification/Loader.thy ===== *)
theory Loader
  imports Load_Tests Actions
begin

text \<open>
  The loaders of the commands and the recursion over tests and blocks: \<open>interp/load.go\<close>,
  \<open>load_action.go\<close>, \<open>load_control.go\<close>, \<open>load_variables.go\<close>, \<open>load_include.go\<close>,
  \<open>load_vacation.go\<close>, \<open>load_editheader.go\<close>, \<open>load_notify.go\<close>, \<open>load_ihave.go\<close>, and the loaders
  beside the commands of \<open>debug.go\<close>, \<open>pipe.go\<close>, \<open>filter.go\<close>, \<open>execute.go\<close>, \<open>report.go\<close> and
  \<open>mime.go\<close>.

  The commands \<open>replace\<close> and \<open>enclose\<close> are not modelled; here they are unsupported, and so are the
  commands and tests of the Dovecot test suite, which the code loads only in its own tests.
\<close>

section \<open>Actions\<close>

definition flagsSlot :: "slots \<Rightarrow> flags" where
  "flagsSlot a = (case sslot a ''flags'' of None \<Rightarrow> None | Some v \<Rightarrow> canonicalFlags v [] Map.empty)"

definition loadFileInto :: "host \<Rightarrow> arg list \<Rightarrow> test list \<Rightarrow> cmd list option \<Rightarrow> icmd load" where
  "loadFileInto h args ts block =
     bindL (need ''fileinto'') (\<lambda>_.
     LoadLeaf h (emptySpec\<lparr>
        Tags := [''flags'' \<mapsto> listTag ''flags'', ''copy'' \<mapsto> flagTag ''copy'', ''create'' \<mapsto> flagTag ''create'',
                 ''specialuse'' \<mapsto> oneTag ''specialuse'', ''mailboxid'' \<mapsto> oneTag ''mailboxid''],
        Pos := [strPos ''mailbox'' 1 1]\<rparr>) args ts block (\<lambda>a.
     bindL (needOnly ''imap4flags'' (flagsSlot a \<noteq> None)) (\<lambda>_.
     bindL (needIf (flag a ''copy'') ''copy'') (\<lambda>_.
     bindL (needIf (flag a ''create'') ''mailbox'') (\<lambda>_.
     bindL (needIf (str a ''specialuse'' \<noteq> []) ''special-use'') (\<lambda>_.
     bindL (needIf (str a ''mailboxid'' \<noteq> []) ''mailboxid'') (\<lambda>_.
     returnL (CmdFileInto (str a ''mailbox'') (flagsSlot a) (flag a ''copy'') (flag a ''create'')
       (str a ''specialuse'') (str a ''mailboxid'')))))))))"

definition loadRedirect :: "host \<Rightarrow> arg list \<Rightarrow> test list \<Rightarrow> cmd list option \<Rightarrow> icmd load" where
  "loadRedirect h args ts block =
     LoadLeaf h (emptySpec\<lparr>Tags := [''copy'' \<mapsto> flagTag ''copy'', ''list'' \<mapsto> flagTag ''list''],
        Pos := [strPos ''addr'' 1 1]\<rparr>) args ts block (\<lambda>a.
     bindL (needIf (flag a ''copy'') ''copy'') (\<lambda>_.
     bindL (needIf (flag a ''list'') ''extlists'') (\<lambda>_.
     returnL (CmdRedirect (str a ''addr'') (flag a ''copy'') (flag a ''list'')))))"

definition loadKeep :: "host \<Rightarrow> arg list \<Rightarrow> test list \<Rightarrow> cmd list option \<Rightarrow> icmd load" where
  "loadKeep h args ts block =
     LoadLeaf h (emptySpec\<lparr>Tags := [''flags'' \<mapsto> listTag ''flags'']\<rparr>) args ts block (\<lambda>a.
     bindL (needOnly ''imap4flags'' (flagsSlot a \<noteq> None)) (\<lambda>_. returnL (CmdKeep (flagsSlot a))))"

definition loadDiscard :: "host \<Rightarrow> arg list \<Rightarrow> test list \<Rightarrow> cmd list option \<Rightarrow> icmd load" where
  "loadDiscard h args ts block = LoadLeaf h emptySpec args ts block (\<lambda>a. returnL CmdDiscard)"

definition loadReject :: "host \<Rightarrow> arg list \<Rightarrow> test list \<Rightarrow> cmd list option \<Rightarrow> icmd load" where
  "loadReject h args ts block =
     bindL (need ''reject'') (\<lambda>_.
     LoadLeaf h (emptySpec\<lparr>Pos := [strPos ''reason'' 1 1]\<rparr>) args ts block (\<lambda>a. returnL (CmdReject (str a ''reason''))))"

definition loadEReject :: "host \<Rightarrow> arg list \<Rightarrow> test list \<Rightarrow> cmd list option \<Rightarrow> icmd load" where
  "loadEReject h args ts block =
     bindL (need ''ereject'') (\<lambda>_.
     LoadLeaf h (emptySpec\<lparr>Pos := [strPos ''reason'' 1 1]\<rparr>) args ts block (\<lambda>a. returnL (CmdEReject (str a ''reason''))))"

definition loadFlagCmd ::
  "host \<Rightarrow> arg list \<Rightarrow> test list \<Rightarrow> cmd list option \<Rightarrow> (bytes \<Rightarrow> flags \<Rightarrow> icmd) \<Rightarrow> icmd load" where
  "loadFlagCmd h args ts block mk =
     LoadLeaf h (emptySpec\<lparr>Pos := [strPos ''arg1'' 0 0, optPos ''arg2'' 0 0]\<rparr>) args ts block (\<lambda>a.
     if strs a ''arg2'' = [] then
       bindL (guardL (strs a ''arg1'' \<noteq> []) (SpecError ''missing required flags'')) (\<lambda>_.
       returnL (mk [] (canonicalFlags (strs a ''arg1'') [] Map.empty)))
     else
       bindL (guardL (length (strs a ''arg1'') = 1) (SpecError ''expected only one string as a variable name'')) (\<lambda>_.
       returnL (mk (str a ''arg1'') (canonicalFlags (strs a ''arg2'') [] Map.empty))))"

definition loadSetFlag :: "host \<Rightarrow> arg list \<Rightarrow> test list \<Rightarrow> cmd list option \<Rightarrow> icmd load" where
  "loadSetFlag h args ts block = bindL (need ''imap4flags'') (\<lambda>_. loadFlagCmd h args ts block CmdSetFlag)"

definition loadAddFlag :: "host \<Rightarrow> arg list \<Rightarrow> test list \<Rightarrow> cmd list option \<Rightarrow> icmd load" where
  "loadAddFlag h args ts block = bindL (need ''imap4flags'') (\<lambda>_. loadFlagCmd h args ts block CmdAddFlag)"

definition loadRemoveFlag :: "host \<Rightarrow> arg list \<Rightarrow> test list \<Rightarrow> cmd list option \<Rightarrow> icmd load" where
  "loadRemoveFlag h args ts block = bindL (need ''imap4flags'') (\<lambda>_. loadFlagCmd h args ts block CmdRemoveFlag)"

section \<open>Variables and include\<close>

definition modifierTag :: "nat \<Rightarrow> value_modifier \<Rightarrow> spec_tag" where
  "modifierTag prec m =
     boolTag (\<lambda>a. a\<lparr>conflicting := (conflicting a \<or> mods a prec \<noteq> None), mods := (mods a)(prec \<mapsto> m)\<rparr>)"

definition valueModifierTags :: "bytes \<rightharpoonup> spec_tag" where
  "valueModifierTags =
     [''length'' \<mapsto> modifierTag 10 ModLength, ''quotewildcard'' \<mapsto> modifierTag 20 ModQuoteWildcard,
      ''quoteregex'' \<mapsto> modifierTag 20 ModQuoteRegex, ''encodeurl'' \<mapsto> modifierTag 15 ModEncodeURL,
      ''upperfirst'' \<mapsto> modifierTag 30 ModUpperFirst, ''lowerfirst'' \<mapsto> modifierTag 30 ModLowerFirst,
      ''upper'' \<mapsto> modifierTag 40 ModUpper, ''lower'' \<mapsto> modifierTag 40 ModLower]"

definition settableL :: "host \<Rightarrow> bytes \<Rightarrow> unit load" where
  "settableL h name s =
     (case IsVarUsable (uni h) s name of ((settable, gettable), s') \<Rightarrow>
        if settable then (Inr (), s') else (Inl CannotSetVariable, s'))"

definition maxVariableLenL :: "int load" where
  "maxVariableLenL s = (Inr (MaxVariableLen (opts s)), s)"

definition loadSet :: "host \<Rightarrow> arg list \<Rightarrow> test list \<Rightarrow> cmd list option \<Rightarrow> icmd load" where
  "loadSet h args ts block =
     bindL (need ''variables'') (\<lambda>_.
     LoadLeaf h (emptySpec\<lparr>Tags := valueModifierTags, Pos := [strPos ''name'' 1 1, strPos ''value'' 1 1]\<rparr>)
       args ts block (\<lambda>a.
     bindL (guardL (\<not> conflicting a) ConflictingModifiers) (\<lambda>_.
     bindL (needIf (mods a 15 \<noteq> None) ''enotify'') (\<lambda>_.
     bindL (settableL h (ToLower (uni h) (str a ''name''))) (\<lambda>_.
     bindL maxVariableLenL (\<lambda>mx.
     returnL (CmdSet (ToLower (uni h) (str a ''name'')) (str a ''value'') (mods a) mx)))))))"

definition loadExtractText :: "host \<Rightarrow> arg list \<Rightarrow> test list \<Rightarrow> cmd list option \<Rightarrow> icmd load" where
  "loadExtractText h args ts block =
     bindL (need ''extracttext'') (\<lambda>_.
     bindL (need ''variables'') (\<lambda>_.
     LoadLeaf h (emptySpec\<lparr>Tags := valueModifierTags(''first'' \<mapsto> numTag (setNum ''first'')),
        Pos := [strPos ''var'' 1 1]\<rparr>) args ts block (\<lambda>a.
     bindL (guardL (\<not> conflicting a) ConflictingModifiers) (\<lambda>_.
     bindL (needIf (mods a 15 \<noteq> None) ''enotify'') (\<lambda>_.
     bindL (settableL h (ToLower (uni h) (str a ''var''))) (\<lambda>_.
     bindL maxVariableLenL (\<lambda>mx.
     returnL (CmdExtractText (num a ''first'') (ToLower (uni h) (str a ''var'')) (mods a) mx))))))))"

definition splitPath :: "bytes \<Rightarrow> bytes list" where
  "splitPath s = foldr (\<lambda>r parts.
     if r = of_char CHR ''/'' \<or> r = of_char BACKSLASH then [] # parts
     else (case parts of [] \<Rightarrow> [encodeRune r] | p # ps \<Rightarrow> (encodeRune r @ p) # ps)) (runes s) [[]]"

definition isValidIncludeScriptName :: "bytes \<Rightarrow> bool" where
  "isValidIncludeScriptName name \<longleftrightarrow>
     name \<noteq> [] \<and>
     list_all (\<lambda>r. r \<noteq> of_char CHR ''/'' \<and> r \<noteq> of_char BACKSLASH \<and> r \<noteq> 0) (runes name) \<and>
     list_all (\<lambda>part. part \<noteq> ''.'' \<and> part \<noteq> ''..'') (splitPath name)"

definition locationTag :: "bytes \<Rightarrow> spec_tag" where
  "locationTag k = boolTag (setStr ''location'' [k])"

definition loadInclude :: "host \<Rightarrow> arg list \<Rightarrow> test list \<Rightarrow> cmd list option \<Rightarrow> icmd load" where
  "loadInclude h args ts block =
     bindL (need ''include'') (\<lambda>_.
     LoadLeaf h (emptySpec\<lparr>
        Tags := [''personal'' \<mapsto> locationTag ''personal'', ''global'' \<mapsto> locationTag ''global'',
                 ''once'' \<mapsto> flagTag ''once'', ''optional'' \<mapsto> flagTag ''optional''],
        Pos := [strPos ''name'' 1 1]\<rparr>) args ts block (\<lambda>a.
     bindL (guardL (isValidIncludeScriptName (str a ''name'')) InvalidName) (\<lambda>_.
     returnL (CmdInclude (if sslot a ''location'' = None then ''personal'' else str a ''location'')
       (flag a ''once'') (flag a ''optional'') (str a ''name'')))))"

definition loadReturn :: "host \<Rightarrow> arg list \<Rightarrow> test list \<Rightarrow> cmd list option \<Rightarrow> icmd load" where
  "loadReturn h args ts block =
     bindL (need ''include'') (\<lambda>_. LoadLeaf h emptySpec args ts block (\<lambda>a. returnL CmdReturn))"

definition loadGlobal :: "host \<Rightarrow> arg list \<Rightarrow> test list \<Rightarrow> cmd list option \<Rightarrow> icmd load" where
  "loadGlobal h args ts block =
     bindL (need ''include'') (\<lambda>_.
     bindL (need ''variables'') (\<lambda>_.
     LoadLeaf h (emptySpec\<lparr>Pos := [strPos ''names'' 1 0]\<rparr>) args ts block (\<lambda>a.
     bindL (guardL (list_all IsValidIdentifier (strs a ''names'')) InvalidName) (\<lambda>_.
     returnL (CmdGlobal (strs a ''names''))))))"

section \<open>Vacation, headers, notifications\<close>

definition vacationSpec :: spec where
  "vacationSpec = emptySpec\<lparr>
     Tags := [''days'' \<mapsto> numTag (setNum ''days''), ''seconds'' \<mapsto> numTag (setNum ''seconds''),
              ''subject'' \<mapsto> oneTag ''subject'', ''from'' \<mapsto> oneTag ''from'', ''addresses'' \<mapsto> listTag ''addresses'',
              ''mime'' \<mapsto> flagTag ''mime'', ''handle'' \<mapsto> oneTag ''handle'', ''fcc'' \<mapsto> oneTag ''fcc'',
              ''flags'' \<mapsto> listTag ''flags'', ''create'' \<mapsto> flagTag ''create'', ''specialuse'' \<mapsto> oneTag ''specialuse''],
     Pos := [strPos ''reason'' 1 1]\<rparr>"

definition vacationOf :: "slots \<Rightarrow> vacation_cmd" where
  "vacationOf a = \<lparr>CDays = num a ''days'', CSubject = str a ''subject'', CFrom = str a ''from'',
     CAddresses = strs a ''addresses'', CMime = flag a ''mime'', CHandle = str a ''handle'',
     CReason = str a ''reason'', CSeconds = num a ''seconds'', CFcc = str a ''fcc'', CFccFlags = flagsSlot a,
     CFccCreate = flag a ''create'', CFccSpecialUse = str a ''specialuse'',
     CDaysGiven = (nslot a ''days'' \<noteq> None), CSecondsGiven = (nslot a ''seconds'' \<noteq> None)\<rparr>"

definition loadVacation :: "host \<Rightarrow> arg list \<Rightarrow> test list \<Rightarrow> cmd list option \<Rightarrow> icmd load" where
  "loadVacation h args ts block =
     bindL (RequiresExtensionL ''vacation'') (\<lambda>r.
     bindL (if r then returnL () else bindL (RequiresExtensionL ''vacation-seconds'')
              (\<lambda>r2. guardL r2 (MissingRequire ''vacation''))) (\<lambda>_.
     LoadLeaf h vacationSpec args ts block (\<lambda>a.
     (let c = vacationOf a in
     bindL (guardL (\<not> (CDaysGiven c \<and> CSecondsGiven c)) (SpecError '':days and :seconds are mutually exclusive'')) (\<lambda>_.
     bindL (needIf (CSecondsGiven c) ''vacation-seconds'') (\<lambda>_.
     bindL (needIf (CFcc c \<noteq> []) ''fcc'') (\<lambda>_.
     bindL (needIf (CFccFlags c \<noteq> None) ''imap4flags'') (\<lambda>_.
     bindL (needIf (CFccCreate c) ''mailbox'') (\<lambda>_.
     bindL (needIf (CFccSpecialUse c \<noteq> []) ''special-use'') (\<lambda>_.
     returnL (CmdVacation c)))))))))))"

definition loadAddHeader :: "host \<Rightarrow> arg list \<Rightarrow> test list \<Rightarrow> cmd list option \<Rightarrow> icmd load" where
  "loadAddHeader h args ts block =
     bindL (need ''editheader'') (\<lambda>_.
     LoadLeaf h (emptySpec\<lparr>Tags := [''last'' \<mapsto> flagTag ''last''], Pos := [strPos ''field'' 1 1, strPos ''value'' 1 1]\<rparr>)
       args ts block (\<lambda>a. returnL (CmdAddHeader (str a ''field'') (str a ''value'') (flag a ''last''))))"

definition loadDeleteHeader :: "host \<Rightarrow> arg list \<Rightarrow> test list \<Rightarrow> cmd list option \<Rightarrow> icmd load" where
  "loadDeleteHeader h args ts block =
     bindL (need ''editheader'') (\<lambda>_.
     LoadLeaf h (addSpecTags (emptySpec\<lparr>
        Tags := [''index'' \<mapsto> numTag (setNum ''index''), ''last'' \<mapsto> flagTag ''last''],
        Pos := [strPos ''field'' 1 1, optPos ''patterns'' 1 0]\<rparr>)) args ts block (\<lambda>a.
     bindL (guardL (\<not> (flag a ''last'' \<and> num a ''index'' = 0)) (SpecError ''deleteheader: :last requires :index'')) (\<lambda>_.
     bindL (if strs a ''patterns'' \<noteq> [] then setKeyL h a (strs a ''patterns'') else returnL (mtest a)) (\<lambda>m.
     returnL (CmdDeleteHeader m (str a ''field'') (strs a ''patterns'') (num a ''index'') (flag a ''last''))))))"

definition loadNotify :: "host \<Rightarrow> arg list \<Rightarrow> test list \<Rightarrow> cmd list option \<Rightarrow> icmd load" where
  "loadNotify h args ts block =
     bindL (need ''enotify'') (\<lambda>_.
     LoadLeaf h (emptySpec\<lparr>
        Tags := [''from'' \<mapsto> oneTag ''from'', ''importance'' \<mapsto> constTag (setStr ''importance'') 1 1,
                 ''options'' \<mapsto> listTag ''options'', ''message'' \<mapsto> oneTag ''message''],
        Pos := [strPos ''method'' 1 1]\<rparr>) args ts block (\<lambda>a.
     bindL (guardL (str a ''importance'' \<in> {[], ''1'', ''2'', ''3''}) (SpecError ''notify: :importance'')) (\<lambda>_.
     returnL (CmdNotify (str a ''method'') (str a ''from'') (str a ''importance'') (strs a ''options'') (str a ''message'')))))"

definition loadError :: "host \<Rightarrow> arg list \<Rightarrow> test list \<Rightarrow> cmd list option \<Rightarrow> icmd load" where
  "loadError h args ts block =
     bindL (need ''ihave'') (\<lambda>_.
     LoadLeaf h (emptySpec\<lparr>Pos := [strPos ''message'' 1 1]\<rparr>) args ts block (\<lambda>a. returnL (CmdError (str a ''message''))))"

section \<open>Vendor extensions\<close>

definition loadDebugLog :: "host \<Rightarrow> arg list \<Rightarrow> test list \<Rightarrow> cmd list option \<Rightarrow> icmd load" where
  "loadDebugLog h args ts block =
     LoadLeaf h (emptySpec\<lparr>Pos := [strPos ''message'' 1 1]\<rparr>) args ts block (\<lambda>a s.
     (case usedVarsAreValid (uni h) s (str a ''message'') of (ok, s') \<Rightarrow>
        if ok then (Inr (CmdDebugLog (str a ''message'')), s') else (Inl (SpecError ''invalid variable used''), s')))"

definition loadPipe :: "host \<Rightarrow> arg list \<Rightarrow> test list \<Rightarrow> cmd list option \<Rightarrow> icmd load" where
  "loadPipe h args ts block =
     bindL (need YariloPipeExtension) (\<lambda>_.
     LoadLeaf h (emptySpec\<lparr>Tags := [''copy'' \<mapsto> flagTag ''copy'', ''try'' \<mapsto> flagTag ''try''], Pos := programPos\<rparr>)
       args ts block (\<lambda>a.
     bindL (programChecks h a) (\<lambda>_.
     bindL (needIf (flag a ''copy'') ''copy'') (\<lambda>_.
     returnL (CmdPipe (str a ''program'') (strs a ''args'') (flag a ''copy'') (flag a ''try''))))))"

definition loadFilterCmd :: "host \<Rightarrow> arg list \<Rightarrow> test list \<Rightarrow> cmd list option \<Rightarrow> icmd load" where
  "loadFilterCmd h args ts block =
     bindL (need YariloFilterExtension) (\<lambda>_.
     loadFilterCommon h args ts block (\<lambda>a. returnL (CmdFilter (str a ''program'') (strs a ''args''))))"

definition loadExecuteCmd :: "host \<Rightarrow> arg list \<Rightarrow> test list \<Rightarrow> cmd list option \<Rightarrow> icmd load" where
  "loadExecuteCmd h args ts block =
     bindL (need YariloExecuteExtension) (\<lambda>_.
     loadExecuteCommon h args ts block (\<lambda>a.
     returnL (CmdExecute (str a ''program'') (strs a ''args'') (executeInputOf a) (str a ''data'') (str a ''output''))))"

definition loadReport :: "host \<Rightarrow> arg list \<Rightarrow> test list \<Rightarrow> cmd list option \<Rightarrow> icmd load" where
  "loadReport h args ts block =
     bindL (need YariloReportExtension) (\<lambda>_.
     LoadLeaf h (emptySpec\<lparr>Tags := [''headers_only'' \<mapsto> flagTag ''headers_only''],
        Pos := [strPos ''feedback'' 1 1, strPos ''message'' 1 1, strPos ''target'' 1 1]\<rparr>) args ts block (\<lambda>a.
     returnL (CmdReport (str a ''feedback'') (str a ''message'') (str a ''target'') (flag a ''headers_only''))))"

definition loadBreak :: "host \<Rightarrow> arg list \<Rightarrow> test list \<Rightarrow> cmd list option \<Rightarrow> icmd load" where
  "loadBreak h args ts block =
     LoadLeaf h (emptySpec\<lparr>Tags := [''name'' \<mapsto> listTag ''name'']\<rparr>) args ts block (\<lambda>a. returnL (CmdBreak (str a ''name'')))"

section \<open>Control\<close>

definition DovecotTestExtension :: bytes where
  "DovecotTestExtension = ''vnd.dovecot.testsuite''"

definition addExtensions :: "bytes set \<Rightarrow> script \<Rightarrow> script" where
  "addExtensions es s = s\<lparr>extensions := extensions s \<union> es\<rparr>"

fun requireEach :: "bytes list \<Rightarrow> unit load" where
  "requireEach [] s = (Inr (), s)"
| "requireEach (ext # exts) s =
     (if ext = DovecotTestExtension then
        if \<not> Testing (opts s) then (Inl UnsupportedExtension, s)
        else requireEach exts (addExtensions {ext} s)
      else if ext \<notin> set supportedRequires then (Inl UnsupportedExtension, s)
      else requireEach exts (addExtensions
             (insert ext (if ext = ''imapflags'' then {''imap4flags''}
                          else if ext = ''vacation-seconds'' then {''vacation''} else {})) s))"

definition loadRequire :: "host \<Rightarrow> arg list \<Rightarrow> test list \<Rightarrow> cmd list option \<Rightarrow> unit load" where
  "loadRequire h args ts block =
     LoadLeaf h (emptySpec\<lparr>Pos := [strPos ''exts'' 1 0]\<rparr>) args ts block (\<lambda>a. requireEach (strs a ''exts''))"

definition loadStop :: "host \<Rightarrow> arg list \<Rightarrow> test list \<Rightarrow> cmd list option \<Rightarrow> icmd load" where
  "loadStop h args ts block = LoadLeaf h emptySpec args ts block (\<lambda>a. returnL CmdStop)"

definition loadLeafCmd :: "host \<Rightarrow> bytes \<Rightarrow> arg list \<Rightarrow> test list \<Rightarrow> cmd list option \<Rightarrow> icmd load" where
  "loadLeafCmd h name args ts block =
     (if name = ''stop'' then loadStop h args ts block
      else if name = ''break'' then loadBreak h args ts block
      else if name = ''extracttext'' then loadExtractText h args ts block
      else if name = ''fileinto'' then loadFileInto h args ts block
      else if name = ''redirect'' then loadRedirect h args ts block
      else if name = ''keep'' then loadKeep h args ts block
      else if name = ''discard'' then loadDiscard h args ts block
      else if name = ''setflag'' then loadSetFlag h args ts block
      else if name = ''addflag'' then loadAddFlag h args ts block
      else if name = ''removeflag'' then loadRemoveFlag h args ts block
      else if name = ''set'' then loadSet h args ts block
      else if name = ''reject'' then loadReject h args ts block
      else if name = ''ereject'' then loadEReject h args ts block
      else if name = ''vacation'' then loadVacation h args ts block
      else if name = ''addheader'' then loadAddHeader h args ts block
      else if name = ''deleteheader'' then loadDeleteHeader h args ts block
      else if name = ''error'' then loadError h args ts block
      else if name = ''include'' then loadInclude h args ts block
      else if name = ''return'' then loadReturn h args ts block
      else if name = ''global'' then loadGlobal h args ts block
      else if name = ''notify'' then loadNotify h args ts block
      else if name = ''debug_log'' then loadDebugLog h args ts block
      else if name = ''pipe'' then loadPipe h args ts block
      else if name = ''filter'' then loadFilterCmd h args ts block
      else if name = ''execute'' then loadExecuteCmd h args ts block
      else if name = ''report'' then loadReport h args ts block
      else if name = ''test_config_reload'' then returnL CmdNoop
      else failL (UnsupportedCommand name))"

section \<open>Tests and blocks\<close>

definition listTests :: spec where
  "listTests = emptySpec\<lparr>AddTest := Some (\<lambda>t a. a\<lparr>tslot := tslot a @ [t]\<rparr>), MultipleTests := True\<rparr>"

definition oneTest :: spec where
  "oneTest = emptySpec\<lparr>AddTest := Some (\<lambda>t a. a\<lparr>tslot := [t]\<rparr>)\<rparr>"

definition withBlock :: "spec \<Rightarrow> spec" where
  "withBlock sp = sp\<lparr>AddBlock := Some (\<lambda>cs a. a\<lparr>cslot := cs\<rparr>)\<rparr>"

definition loadNested :: "host \<Rightarrow> spec \<Rightarrow> arg list \<Rightarrow> test list \<Rightarrow> itest list load \<Rightarrow> (slots \<Rightarrow> itest) \<Rightarrow> itest load" where
  "loadNested h sp args ts loadTests mk =
     bindL (LoadSpec h sp args ts loadTests None (returnL []) noSlots) (\<lambda>a. returnL (mk a))"

fun LoadTest :: "host \<Rightarrow> test \<Rightarrow> itest load" and LoadTests :: "host \<Rightarrow> test list \<Rightarrow> itest list load" where
  "LoadTest h (Test p name0 args ts) =
     (let name = ToLower (uni h) name0 in
      if name = ''allof'' then loadNested h listTests args ts (LoadTests h ts) (\<lambda>a. AllOfTest (tslot a))
      else if name = ''anyof'' then loadNested h listTests args ts (LoadTests h ts) (\<lambda>a. AnyOfTest (tslot a))
      else if name = ''not'' then loadNested h oneTest args ts (LoadTests h ts) (\<lambda>a. NotTest (hd (tslot a)))
      else loadLeafTest h name args ts)"
| "LoadTests h [] = returnL []"
| "LoadTests h (t # ts) = bindL (LoadTest h t) (\<lambda>x. bindL (LoadTests h ts) (\<lambda>xs. returnL (x # xs)))"

text \<open>Loading under a true \<open>ihave\<close>: its capabilities are guarded meanwhile, also when loading fails.\<close>

definition countCaps :: "int \<Rightarrow> bytes list \<Rightarrow> script \<Rightarrow> script" where
  "countCaps k caps s = s\<lparr>guarded := fold (\<lambda>c g. g(c := g c + k)) caps (guarded s)\<rparr>"

definition withGuarded :: "bytes list \<Rightarrow> 'a load \<Rightarrow> 'a load" where
  "withGuarded caps m s = (case m (countCaps 1 caps s) of (r, s') \<Rightarrow> (r, countCaps (- 1) caps s'))"

definition loadCondBlock ::
  "host \<Rightarrow> arg list \<Rightarrow> test list \<Rightarrow> itest list load \<Rightarrow> cmd list option \<Rightarrow> icmd list load \<Rightarrow> (itest \<times> icmd list) load" where
  "loadCondBlock h args ts loadTests block loadBlock =
     (let whole = bindL (LoadSpec h (withBlock oneTest) args ts loadTests block loadBlock noSlots)
                    (\<lambda>a. returnL (hd (tslot a), cslot a)) in
      if length ts = 1 \<and> EqualFold (uni h) (test_id (hd ts)) ''ihave'' then
        bindL loadTests (\<lambda>its.
          case its of
            [TestIhave caps have] \<Rightarrow>
              if \<not> have then returnL (TestIhave caps have, []) else withGuarded caps whole
          | _ \<Rightarrow> failL (LoadPanic ''interface conversion''))
      else whole)"

definition loadElse :: "host \<Rightarrow> arg list \<Rightarrow> test list \<Rightarrow> cmd list option \<Rightarrow> icmd list load \<Rightarrow> icmd load" where
  "loadElse h args ts block loadBlock =
     bindL (LoadSpec h (withBlock emptySpec) args ts (returnL []) block loadBlock noSlots) (\<lambda>a. returnL (CmdElse (cslot a)))"

definition loadForEveryPart :: "host \<Rightarrow> arg list \<Rightarrow> test list \<Rightarrow> cmd list option \<Rightarrow> icmd list load \<Rightarrow> icmd load" where
  "loadForEveryPart h args ts block loadBlock =
     bindL (LoadSpec h (withBlock (emptySpec\<lparr>Tags := [''name'' \<mapsto> listTag ''name'']\<rparr>)) args ts (returnL []) block loadBlock
       noSlots) (\<lambda>a. returnL (CmdForEveryPart (str a ''name'') (cslot a)))"

fun LoadCmd :: "host \<Rightarrow> cmd \<Rightarrow> icmd option load" and LoadBlock :: "host \<Rightarrow> cmd list \<Rightarrow> icmd list load" where
  "LoadCmd h (Cmd p name0 args ts block) =
     (let name = ToLower (uni h) name0;
          loadBlock = (case block of None \<Rightarrow> returnL [] | Some b \<Rightarrow> LoadBlock h b) in
      if name = ''require'' then bindL (loadRequire h args ts block) (\<lambda>_. returnL None)
      else if name = ''if'' then
        bindL (loadCondBlock h args ts (LoadTests h ts) block loadBlock) (\<lambda>(t, b). returnL (Some (CmdIf t b)))
      else if name = ''elsif'' then
        bindL (loadCondBlock h args ts (LoadTests h ts) block loadBlock) (\<lambda>(t, b). returnL (Some (CmdElsif t b)))
      else if name = ''else'' then bindL (loadElse h args ts block loadBlock) (\<lambda>c. returnL (Some c))
      else if name = ''foreverypart'' then bindL (loadForEveryPart h args ts block loadBlock) (\<lambda>c. returnL (Some c))
      else bindL (loadLeafCmd h name args ts block) (\<lambda>c. returnL (Some c)))"
| "LoadBlock h [] = returnL []"
| "LoadBlock h (c # cs) =
     bindL (LoadCmd h c) (\<lambda>r. bindL (LoadBlock h cs) (\<lambda>rest. returnL (case r of None \<Rightarrow> rest | Some x \<Rightarrow> x # rest)))"

definition newScript :: "interp_options \<Rightarrow> script" where
  "newScript ops = \<lparr>extensions = {}, guarded = (\<lambda>_. 0), guardedUsed = {}, opts = ops\<rparr>"

definition LoadScript :: "host \<Rightarrow> cmd list \<Rightarrow> interp_options \<Rightarrow> (load_error, script \<times> icmd list) result" where
  "LoadScript h cmds ops =
     (case LoadBlock h cmds (newScript ops) of
        (Inl e, _) \<Rightarrow> Inl e
      | (Inr cs, s) \<Rightarrow> Inr (s, cs))"

end
