(* ===== verification/Loader_Laws.thy ===== *)
theory Loader_Laws
  imports Loader
begin

text \<open>
  What loading a script establishes.  A loading action changes the script only by recording the
  use of a guarded extension, by \<open>require\<close>, and by the counters of an \<open>ihave\<close> block; the locale
  \<open>load_relation\<close> lifts any relation on scripts that these three steps respect to the whole
  loader.  It is interpreted three times: the counters are balanced, the extensions grow, the
  extensions are supported.  The second part is a small logic for results: which extensions a
  loaded command relies on.
\<close>

named_theorems load_keeps \<open>actions that respect a relation on scripts\<close>
named_theorems load_gives \<open>what a successful action returns\<close>

section \<open>Actions that respect a relation\<close>

definition keeps :: "(script \<Rightarrow> script \<Rightarrow> bool) \<Rightarrow> 'a load \<Rightarrow> bool" where
  "keeps R m \<longleftrightarrow> (\<forall>s. R s (snd (m s)))"

definition requiredBy :: "bytes \<Rightarrow> bytes set" where
  "requiredBy ext = insert ext (if ext = ''imapflags'' then {''imap4flags''}
     else if ext = ''vacation-seconds'' then {''vacation''} else {})"

text \<open>The answer of \<open>ihave\<close> is right for the script at the time it is loaded.\<close>

fun ihaveHolds :: "itest \<Rightarrow> script \<Rightarrow> bool" where
  "ihaveHolds (TestIhave caps have) s = (have = list_all (available s) caps)"
| "ihaveHolds _ s = True"

definition gives :: "'a load \<Rightarrow> ('a \<Rightarrow> script \<Rightarrow> bool) \<Rightarrow> bool" where
  "gives m Q \<longleftrightarrow> (\<forall>s x s'. m s = (Inr x, s') \<longrightarrow> Q x s')"

lemma gives_last: "(\<And>x. gives (f x) Q) \<Longrightarrow> gives (bindL m f) Q"
  by (auto simp: gives_def bindL_def split: prod.splits sum.splits)

lemma gives_LoadLeaf: "(\<And>a. gives (k a) Q) \<Longrightarrow> gives (LoadLeaf h sp args ts block k) Q"
  unfolding LoadLeaf_def by (rule gives_last)

lemma gives_returnL: "(\<And>s. Q x s) \<Longrightarrow> gives (returnL x) Q"
  by (simp add: gives_def returnL_def)

lemma gives_failL: "gives (failL e) Q"
  by (simp add: gives_def failL_def)

lemma gives_if: "(b \<Longrightarrow> gives m Q) \<Longrightarrow> (\<not> b \<Longrightarrow> gives m' Q) \<Longrightarrow> gives (if b then m else m') Q"
  by simp

lemma ihave_loadLeafTest: "gives (loadLeafTest h name args ts) ihaveHolds"
  unfolding loadLeafTest_def loadAddressTest_def loadEnvelopeTest_def loadExistsTest_def loadFalseTest_def
    loadTrueTest_def loadHeaderTest_def loadSizeTest_def loadStringTest_def loadHasFlagTest_def
    loadEnvironmentTest_def loadBodyTest_def loadDateTest_def loadCurrentDateTest_def loadMailboxExistsTest_def
    loadDuplicateTest_def loadSpecialUseExists_def loadMailboxIDExists_def loadValidExtList_def
    loadValidNotifyMethod_def loadNotifyMethodCapability_def loadSpamTest_def loadVirusTest_def
    loadMetadataTest_def loadMetadataExistsTest_def loadServerMetadataTest_def loadServerMetadataExistsTest_def
    loadFilterTest_def loadFilterCommon_def loadExecuteTest_def loadExecuteCommon_def Let_def
  apply (intro gives_if gives_last gives_LoadLeaf gives_returnL gives_failL)
  apply (simp_all add: loadIhaveTest_def)
  by (auto simp: gives_def bindL_def LoadLeaf_def split: prod.splits sum.splits)

lemma ihave_LoadTest: "gives (LoadTest h t) ihaveHolds"
  by (cases t) (auto simp: Let_def loadNested_def ihave_loadLeafTest intro!: gives_last gives_returnL)

lemma ihave_LoadTests:
  assumes "LoadTests h ts s = (Inr [TestIhave caps True], s')"
  shows "list_all (available s') caps"
proof -
  obtain t ts' where ts: "ts = t # ts'" using assms by (cases ts) (auto simp: returnL_def)
  have "ts' = []" using assms unfolding ts by (cases ts') (auto simp: bindL_def returnL_def split: prod.splits sum.splits)
  then have "LoadTest h t s = (Inr (TestIhave caps True), s')"
    using assms unfolding ts by (auto simp: bindL_def returnL_def split: prod.splits sum.splits)
  then show ?thesis using ihave_LoadTest [of h t] by (auto simp: gives_def dest!: spec)
qed

locale load_relation =
  fixes R :: "script \<Rightarrow> script \<Rightarrow> bool"
  assumes R_refl: "R s s"
    and R_trans: "R s s' \<Longrightarrow> R s' s'' \<Longrightarrow> R s s''"
    and R_use: "R s (snd (RequiresExtension s ext))"
    and R_require: "ext \<in> set supportedRequires \<or> ext = DovecotTestExtension \<and> Testing (opts s) \<Longrightarrow>
      R s (addExtensions (requiredBy ext) s)"
    and R_guarded: "list_all (available s) caps \<Longrightarrow> R (countCaps 1 caps s) s' \<Longrightarrow> R s (countCaps (- 1) caps s')"
begin

lemma keeps_returnL [load_keeps]: "keeps R (returnL x)"
  by (simp add: keeps_def returnL_def R_refl)

lemma keeps_failL [load_keeps]: "keeps R (failL e)"
  by (simp add: keeps_def failL_def R_refl)

lemma keeps_bindL [load_keeps]: "keeps R m \<Longrightarrow> (\<And>x. keeps R (f x)) \<Longrightarrow> keeps R (bindL m f)"
  unfolding keeps_def bindL_def by (auto split: prod.split sum.split) (metis R_trans snd_conv)+

lemma keeps_if [load_keeps]: "keeps R m \<Longrightarrow> keeps R m' \<Longrightarrow> keeps R (if b then m else m')"
  by simp

lemma keeps_option [load_keeps]: "keeps R m \<Longrightarrow> (\<And>x. keeps R (f x)) \<Longrightarrow> keeps R (case o1 of None \<Rightarrow> m | Some x \<Rightarrow> f x)"
  by (cases o1) auto

lemma keeps_pair [load_keeps]: "(\<And>x y. keeps R (f x y)) \<Longrightarrow> keeps R (case p of (x, y) \<Rightarrow> f x y)"
  by (cases p) auto

lemma R_use': "RequiresExtension s ext = (r, s') \<Longrightarrow> R s s'"
  using R_use [of s ext] by simp

lemma keeps_needs [load_keeps]:
  "keeps R (needIf b ext)" "keeps R (needOnly ext b)" "keeps R (need ext)" "keeps R (guardL b e)"
  "keeps R (RequiresExtensionL ext)"
  by (auto simp: keeps_def needIf_def needOnly_def need_def guardL_def RequiresExtensionL_def R_refl
      split: prod.splits dest: R_use')

lemma R_usedVars: "usedVars U s x = (vs, s') \<Longrightarrow> R s s'"
  by (auto simp: usedVars_def split: prod.splits dest: R_use')

lemma R_IsVarUsable: "IsVarUsable U s v = (r, s') \<Longrightarrow> R s s'"
  by (auto simp: IsVarUsable_def R_refl split: prod.splits if_splits dest: R_use')

lemma R_varsAreValid: "varsAreValid U s vs = (r, s') \<Longrightarrow> R s s'"
  by (induction vs arbitrary: s) (auto simp: R_refl split: if_splits prod.splits dest: R_IsVarUsable intro: R_trans)

lemma R_usedVarsAreValid: "usedVarsAreValid U s x = (r, s') \<Longrightarrow> R s s'"
  by (auto simp: usedVarsAreValid_def split: prod.splits dest: R_usedVars R_varsAreValid intro: R_trans)

lemma R_compileKeys: "compileKeys h c s ks = (r, s') \<Longrightarrow> R s s'"
  by (induction ks arbitrary: s r)
    (auto simp: R_refl split: if_splits prod.splits option.splits sum.splits dest!: R_usedVars intro: R_trans)

lemma R_setCompiled: "setCompiled h s t = (r, s') \<Longrightarrow> R s s'"
  by (auto simp: setCompiled_def Let_def R_refl split: if_splits prod.splits sum.splits
      dest!: R_use' R_compileKeys intro: R_trans)

lemma R_checkRelational: "checkRelational s t = (r, s') \<Longrightarrow> R s s'"
  by (auto simp: checkRelational_def R_refl split: if_splits prod.splits dest!: R_use')

lemma keeps_setKeyL [load_keeps]: "keeps R (setKeyL h a ks)"
  by (auto simp: keeps_def setKeyL_def setKey_def Let_def R_refl split: prod.splits sum.splits
      dest!: R_use' R_checkRelational R_setCompiled intro: R_trans)

lemma keeps_programArgs [load_keeps]: "keeps R (programArgs h as)"
proof -
  have "R s (snd (programArgs h as s))" for s
    by (induction as arbitrary: s) (auto simp: R_refl split: prod.splits dest: R_usedVarsAreValid intro: R_trans)
  then show ?thesis by (simp add: keeps_def)
qed

lemma keeps_programChecks [load_keeps]: "keeps R (programChecks h a)"
  unfolding programChecks_def by (intro load_keeps)

lemma keeps_settableL [load_keeps]: "keeps R (settableL h name)"
  by (auto simp: keeps_def settableL_def split: prod.splits dest: R_IsVarUsable)

lemma keeps_maxVariableLenL [load_keeps]: "keeps R maxVariableLenL"
  by (simp add: keeps_def maxVariableLenL_def R_refl)

lemma keeps_validVars [load_keeps]:
  "keeps R (\<lambda>s. case usedVarsAreValid U s x of (ok, s') \<Rightarrow> if ok then (Inr y, s') else (Inl e, s'))"
  by (auto simp: keeps_def split: prod.splits dest: R_usedVarsAreValid)

lemma keeps_decodeL [load_keeps]: "keeps R (decodeL vs)"
  unfolding decodeL_def by (intro load_keeps)

lemma keeps_arguments [load_keeps]:
  "keeps R (tagStrings t vs a)" "keeps R (posStrings p vs a)" "keeps R (tagNumber t n a)" "keeps R (posNumber p n a)"
  unfolding tagStrings_def posStrings_def tagNumber_def posNumber_def by (intro load_keeps)+

lemma keeps_loadArgs [load_keeps]: "keeps R (loadArgs h sp lastTag n args a)"
proof (induction h sp lastTag n args a rule: loadArgs.induct)
  case (2 h sp lastTag n v p as a)
  show ?case by (cases lastTag) (auto intro!: load_keeps 2)
next
  case (3 h sp lastTag n vs p as a)
  show ?case by (cases lastTag) (auto intro!: load_keeps 3)
next
  case (4 h sp lastTag n v p as a)
  show ?case by (cases lastTag) (auto intro!: load_keeps 4)
next
  case (5 h sp lastTag n v p as a)
  show ?case
  proof (cases "Tags sp (ToLower (uni h) v)")
    case (Some tag)
    with 5 show ?thesis by (cases lastTag; cases "TMatchBool tag") (auto intro!: load_keeps)
  qed (cases lastTag; auto intro!: load_keeps)
qed (auto intro!: load_keeps)

lemma keeps_LoadSpec:
  assumes "keeps R loadTests" "keeps R loadBlock"
  shows "keeps R (LoadSpec h sp args ts loadTests block loadBlock a)"
  unfolding LoadSpec_def by (intro load_keeps assms)

lemma keeps_LoadLeaf [load_keeps]: "(\<And>a. keeps R (k a)) \<Longrightarrow> keeps R (LoadLeaf h sp args ts block k)"
  unfolding LoadLeaf_def by (intro load_keeps keeps_LoadSpec)

lemma keeps_state [load_keeps]: "keeps R (\<lambda>s. (f s, s))"
  by (simp add: keeps_def R_refl)

lemma keeps_loadLeafTest [load_keeps]: "keeps R (loadLeafTest h name args ts)"
  unfolding loadLeafTest_def loadAddressTest_def loadEnvelopeTest_def loadExistsTest_def loadFalseTest_def
    loadTrueTest_def loadHeaderTest_def loadSizeTest_def loadStringTest_def loadHasFlagTest_def
    loadEnvironmentTest_def loadBodyTest_def loadDateTest_def loadCurrentDateTest_def loadMailboxExistsTest_def
    loadDuplicateTest_def loadSpecialUseExists_def loadMailboxIDExists_def loadValidExtList_def
    loadValidNotifyMethod_def loadNotifyMethodCapability_def loadSpamTest_def loadVirusTest_def
    loadMetadataTest_def loadMetadataExistsTest_def loadServerMetadataTest_def loadServerMetadataExistsTest_def
    loadFilterTest_def loadFilterCommon_def loadExecuteTest_def loadExecuteCommon_def loadIhaveTest_def
    validateMimeTags_def Let_def
  by (intro load_keeps)

lemma keeps_loadLeafCmd [load_keeps]: "keeps R (loadLeafCmd h name args ts block)"
  unfolding loadLeafCmd_def loadStop_def loadBreak_def loadExtractText_def loadFileInto_def loadRedirect_def
    loadKeep_def loadDiscard_def loadSetFlag_def loadAddFlag_def loadRemoveFlag_def loadFlagCmd_def loadSet_def
    loadReject_def loadEReject_def loadVacation_def loadAddHeader_def loadDeleteHeader_def loadError_def
    loadInclude_def loadReturn_def loadGlobal_def loadNotify_def loadDebugLog_def loadPipe_def loadFilterCmd_def
    loadFilterCommon_def loadExecuteCmd_def loadExecuteCommon_def loadReport_def Let_def
  by (intro load_keeps)

lemma keeps_requireEach [load_keeps]: "keeps R (requireEach exts)"
proof -
  have "R s (snd (requireEach exts s))" for s
  proof (induction exts arbitrary: s)
    case (Cons ext exts)
    have "addExtensions {DovecotTestExtension} s = addExtensions (requiredBy DovecotTestExtension) s"
      by (simp add: requiredBy_def DovecotTestExtension_def)
    then show ?case
      using Cons R_require [of ext s] by (auto simp: R_refl requiredBy_def [symmetric] intro: R_trans)
  qed (simp add: R_refl)
  then show ?thesis by (simp add: keeps_def)
qed

lemma keeps_LoadTest: "keeps R (LoadTest h t)" and keeps_LoadTests [load_keeps]: "keeps R (LoadTests h ts)"
  by (induction h t and h ts rule: LoadTest_LoadTests.induct)
    (auto simp: Let_def loadNested_def intro!: load_keeps keeps_LoadSpec)

lemma keeps_loadCondBlock:
  assumes "keeps R loadBlock"
  shows "keeps R (loadCondBlock h args ts (LoadTests h ts) block loadBlock)"
proof -
  let ?whole = "bindL (LoadSpec h (withBlock oneTest) args ts (LoadTests h ts) block loadBlock noSlots)
    (\<lambda>a. returnL (hd (tslot a), cslot a))"
  let ?k = "\<lambda>its. case its of [TestIhave caps have] \<Rightarrow>
      if \<not> have then returnL (TestIhave caps have, []) else withGuarded caps ?whole
    | _ \<Rightarrow> failL (LoadPanic ''interface conversion'')"
  have whole: "keeps R ?whole" by (intro load_keeps keeps_LoadSpec assms)
  have "R s (snd (bindL (LoadTests h ts) ?k s))" for s
  proof (cases "LoadTests h ts s")
    case (Pair r s1)
    have R1: "R s s1" using keeps_LoadTests [of h ts] Pair by (auto simp: keeps_def dest!: spec [of _ s])
    show ?thesis
    proof (cases r)
      case (Inr its)
      have "R s1 (snd (?k its s1))"
      proof (cases "\<exists>caps. its = [TestIhave caps True]")
        case True
        then obtain caps where its: "its = [TestIhave caps True]" by blast
        have av: "list_all (available s1) caps" using ihave_LoadTests Pair Inr its by blast
        have "R (countCaps 1 caps s1) (snd (?whole (countCaps 1 caps s1)))" using whole by (simp add: keeps_def)
        then show ?thesis using R_guarded [OF av] by (auto simp: its withGuarded_def split: prod.split)
      next
        case False
        then show ?thesis by (auto simp: failL_def returnL_def R_refl split: list.split itest.split)
      qed
      then show ?thesis using Pair Inr R_trans [OF R1] by (simp add: bindL_def)
    qed (use Pair R1 in \<open>simp add: bindL_def\<close>)
  qed
  then show ?thesis using whole by (simp add: loadCondBlock_def Let_def keeps_def)
qed

lemma keeps_LoadCmd: "keeps R (LoadCmd h c)" and keeps_LoadBlock: "keeps R (LoadBlock h cs)"
proof (induction h c and h cs rule: LoadCmd_LoadBlock.induct)
  case (1 h p name0 args ts block)
  have b: "keeps R (case block of None \<Rightarrow> returnL [] | Some b \<Rightarrow> LoadBlock h b)"
    using 1 by (cases block) (auto intro: load_keeps)
  show ?case
    by (auto simp: Let_def loadRequire_def loadElse_def loadForEveryPart_def
        intro!: load_keeps keeps_LoadSpec keeps_loadCondBlock b)
qed (auto intro!: load_keeps)

end

section \<open>The script that loading leaves\<close>

definition balanced :: "script \<Rightarrow> script \<Rightarrow> bool" where
  "balanced s s' \<longleftrightarrow> guarded s' = guarded s \<and> opts s' = opts s"

definition grows :: "script \<Rightarrow> script \<Rightarrow> bool" where
  "grows s s' \<longleftrightarrow> Extensions s \<subseteq> Extensions s'"

text \<open>
  Every extension is supported, the test suite's apart; what an enclosing or a past \<open>ihave\<close>
  block opened is available to the script.
\<close>

definition scriptOk :: "script \<Rightarrow> bool" where
  "scriptOk s \<longleftrightarrow>
     extensions s \<subseteq> set supportedRequires \<union> (if Testing (opts s) then {DovecotTestExtension} else {}) \<and>
     (\<forall>c. guarded s c > 0 \<longrightarrow> available s c) \<and> (\<forall>c \<in> guardedUsed s. available s c)"

lemma countCaps_simps [simp]:
  "extensions (countCaps k caps s) = extensions s" "guardedUsed (countCaps k caps s) = guardedUsed s"
  "opts (countCaps k caps s) = opts s" "Extensions (countCaps k caps s) = Extensions s"
  "available (countCaps k caps s) = available s"
  by (simp_all add: countCaps_def Extensions_def available_def fun_eq_iff)

lemma guarded_countCaps: "guarded (countCaps k caps s) c = guarded s c + k * int (count_list caps c)"
proof -
  have "fold (\<lambda>c g. g(c := g c + k)) caps g c = g c + k * int (count_list caps c)" for g :: "bytes \<Rightarrow> int"
    by (induction caps arbitrary: g) (auto simp: distrib_left)
  then show ?thesis by (simp add: countCaps_def)
qed

lemma RequiresExtension_simps [simp]:
  "extensions (snd (RequiresExtension s e)) = extensions s" "guarded (snd (RequiresExtension s e)) = guarded s"
  "opts (snd (RequiresExtension s e)) = opts s"
  by (simp_all add: RequiresExtension_def)

lemma addExtensions_simps [simp]:
  "extensions (addExtensions es s) = extensions s \<union> es" "guarded (addExtensions es s) = guarded s"
  "guardedUsed (addExtensions es s) = guardedUsed s" "opts (addExtensions es s) = opts s"
  by (simp_all add: addExtensions_def)

lemma available_opts: "opts s' = opts s \<Longrightarrow> available s' = available s"
  by (simp add: available_def fun_eq_iff)

interpretation bal: load_relation balanced
proof
  fix s s' caps
  assume "balanced (countCaps 1 caps s) s'"
  then show "balanced s (countCaps (- 1) caps s')"
    by (auto simp: balanced_def guarded_countCaps fun_eq_iff)
qed (auto simp: balanced_def)

interpretation grow: load_relation grows
proof
  fix s s' s''
  assume "grows s s'" "grows s' s''"
  then show "grows s s''" by (auto simp: grows_def)
qed (auto simp: grows_def Extensions_def RequiresExtension_def)

lemma requiredBy_supported: "ext \<in> set supportedRequires \<Longrightarrow> requiredBy ext \<subseteq> set supportedRequires"
  by (auto simp: requiredBy_def supportedRequires_def)

interpretation ok: load_relation "\<lambda>s s'. scriptOk s \<longrightarrow> scriptOk s'"
proof
  fix s ext
  show "scriptOk s \<longrightarrow> scriptOk (snd (RequiresExtension s ext))"
    by (auto simp: scriptOk_def RequiresExtension_def available_def)
  show "scriptOk s \<longrightarrow> scriptOk (addExtensions (requiredBy ext) s)"
    if "ext \<in> set supportedRequires \<or> ext = DovecotTestExtension \<and> Testing (opts s)"
    using that requiredBy_supported [of ext] available_opts [of "addExtensions (requiredBy ext) s" s]
    by (auto simp: scriptOk_def requiredBy_def DovecotTestExtension_def split: if_splits)
next
  fix s s' caps
  assume av: "list_all (available s) caps" and step: "scriptOk (countCaps 1 caps s) \<longrightarrow> scriptOk s'"
  have "scriptOk (countCaps 1 caps s)" if "scriptOk s"
    using that av by (auto simp: scriptOk_def guarded_countCaps list_all_iff split: if_splits)
  moreover have "scriptOk (countCaps (- 1) caps s')" if "scriptOk s'"
    using that by (auto simp: scriptOk_def guarded_countCaps split: if_splits)
  ultimately show "scriptOk s \<longrightarrow> scriptOk (countCaps (- 1) caps s')" using step by blast
qed auto

lemma scriptOk_new: "scriptOk (newScript ops)"
  by (simp add: scriptOk_def newScript_def)

lemma LoadScript_state:
  assumes "LoadScript h cmds ops = Inr (s, cs)"
  shows "LoadBlock h cmds (newScript ops) = (Inr cs, s)"
  using assms by (auto simp: LoadScript_def split: prod.splits sum.splits)

lemma LoadScript_rel:
  assumes "LoadScript h cmds ops = Inr (s, cs)"
  shows "guarded s = (\<lambda>_. 0)" "opts s = ops" "scriptOk s"
  using bal.keeps_LoadBlock [of h cmds] ok.keeps_LoadBlock [of h cmds] LoadScript_state [OF assms] scriptOk_new [of ops]
  by (auto simp: keeps_def balanced_def newScript_def dest!: spec [of _ "newScript ops"])

end
