(* ===== verification/Loader_Gates.thy ===== *)
theory Loader_Gates
  imports Loader_Laws Runtime_Laws
begin

text \<open>
  Loading checks the extensions a script relies on: the predicates \<open>testGated\<close> and \<open>cmdGated\<close>
  say which extension each loaded test and command needs, and a small logic over loading actions
  shows that every command that \<open>LoadScript\<close> returns has its extensions among those of the
  script.
\<close>

section \<open>Gated commands\<close>

text \<open>
  The extensions that the RFCs ask of a loaded test or command are in the set \<open>E\<close>, apart from
  those of the constructs whose names are in \<open>W\<close>.  With \<open>W\<close> empty this is the whole
  requirement.
\<close>

definition matcherGated :: "bytes set \<Rightarrow> matcher_test \<Rightarrow> bytes set \<Rightarrow> bool" where
  "matcherGated W m E \<longleftrightarrow>
     (MMatch m = MatchRegex \<longrightarrow> ''regex'' \<in> E) \<and>
     (MMatch m = MatchValue \<or> MMatch m = MatchCount \<longrightarrow> ''relational'' \<in> E) \<and>
     (MMatch m = MatchList \<longrightarrow> ''extlists'' \<in> E) \<and>
     (''comparator'' \<in> W \<or> MMatch m = MatchCount \<or> Comparator m \<in> {[], ComparatorOctet, ComparatorASCIICaseMap} \<or>
      ''comparator-'' @ Comparator m \<in> E)"

definition partGated :: "address_part \<Rightarrow> bytes set \<Rightarrow> bool" where
  "partGated p E \<longleftrightarrow> (p = User \<or> p = Detail \<longrightarrow> ''subaddress'' \<in> E)"

fun testGated :: "bytes set \<Rightarrow> itest \<Rightarrow> bytes set \<Rightarrow> bool" where
  "testGated W (AddressTest m p hs) E = (matcherGated W m E \<and> partGated p E)"
| "testGated W (AllOfTest ts) E = list_all (\<lambda>t. testGated W t E) ts"
| "testGated W (AnyOfTest ts) E = list_all (\<lambda>t. testGated W t E) ts"
| "testGated W (NotTest t) E = testGated W t E"
| "testGated W TrueTest E = True"
| "testGated W FalseTest E = True"
| "testGated W (EnvelopeTest m p fs) E = (''envelope'' \<in> E \<and> matcherGated W m E \<and> partGated p E)"
| "testGated W (ExistsTest fs mime any) E = (mime \<or> any \<longrightarrow> ''mime'' \<in> E)"
| "testGated W (HeaderTest m hs mime any mode ps) E =
     (matcherGated W m E \<and> (mime \<or> any \<or> mode \<noteq> [] \<or> ps \<noteq> [] \<longrightarrow> ''mime'' \<in> E))"
| "testGated W (SizeTest n ov un) E = True"
| "testGated W (EnvironmentTest m ns) E = (''environment'' \<in> E \<and> matcherGated W m E)"
| "testGated W (HasFlagTest m vs) E = ((''hasflag'' \<in> W \<or> ''imap4flags'' \<in> E) \<and> matcherGated W m E)"
| "testGated W (BodyTest m tr cts) E = (''body'' \<in> E \<and> matcherGated W m E)"
| "testGated W (TestString m src) E = (''variables'' \<in> E \<and> matcherGated W m E)"
| "testGated W (DateTest m hdr part zone orig idx lst) E =
     (''date'' \<in> E \<and> matcherGated W m E \<and> (idx > 0 \<longrightarrow> ''index'' \<in> E))"
| "testGated W (CurrentDateTest m part zone) E = (''date'' \<in> E \<and> matcherGated W m E)"
| "testGated W (MailboxExistsTest ms) E = (''mailbox'' \<in> E)"
| "testGated W (TestMailboxIDExists ids) E = (''mailboxid'' \<in> E)"
| "testGated W (TestSpecialUseExists mb attrs) E = (''special-use'' \<in> E)"
| "testGated W (TestValidExtList ns) E = (''extlists'' \<in> E)"
| "testGated W (TestValidNotifyMethod us) E = (''enotify'' \<in> E)"
| "testGated W (TestNotifyMethodCapability m u c) E = (''enotify'' \<in> E \<and> matcherGated W m E)"
| "testGated W (SpamTest m percent) E =
     ((''spamtest'' \<in> E \<or> ''spamtestplus'' \<in> E) \<and> (percent \<longrightarrow> ''spamtestplus'' \<in> E) \<and> matcherGated W m E)"
| "testGated W (VirusTest m) E = (''virustest'' \<in> E \<and> matcherGated W m E)"
| "testGated W (TestMetadata m mb an) E = (''mboxmetadata'' \<in> E \<and> matcherGated W m E)"
| "testGated W (TestMetadataExists mb ans) E = (''mboxmetadata'' \<in> E)"
| "testGated W (TestServerMetadata m an) E = (''servermetadata'' \<in> E \<and> matcherGated W m E)"
| "testGated W (TestServerMetadataExists ans) E = (''servermetadata'' \<in> E)"
| "testGated W (TestIhave caps have) E = (''ihave'' \<in> E)"
| "testGated W (TestDuplicate hdl secs lst k p) E = (''duplicate'' \<in> E)"
| "testGated W (TestFilter p args) E = (YariloFilterExtension \<in> E)"
| "testGated W (TestExecute p args inp dat out) E = (YariloExecuteExtension \<in> E \<and> (out \<noteq> [] \<longrightarrow> ''variables'' \<in> E))"

definition modsGated :: "bytes set \<Rightarrow> modifiers \<Rightarrow> bytes set \<Rightarrow> bool" where
  "modsGated W ms E \<longleftrightarrow> (ms 15 \<noteq> None \<longrightarrow> ''enotify'' \<in> E) \<and>
     (ms 20 \<noteq> None \<longrightarrow> ''quoteregex'' \<in> W \<or> ''regex'' \<in> E)"

definition vacationGated :: "vacation_cmd \<Rightarrow> bytes set \<Rightarrow> bool" where
  "vacationGated c E \<longleftrightarrow>
     (''vacation'' \<in> E \<or> ''vacation-seconds'' \<in> E) \<and> (CSecondsGiven c \<longrightarrow> ''vacation-seconds'' \<in> E) \<and>
     (CFcc c \<noteq> [] \<longrightarrow> ''fcc'' \<in> E) \<and> (CFccFlags c \<noteq> None \<longrightarrow> ''imap4flags'' \<in> E) \<and>
     (CFccCreate c \<longrightarrow> ''mailbox'' \<in> E) \<and> (CFccSpecialUse c \<noteq> [] \<longrightarrow> ''special-use'' \<in> E)"

fun cmdGated :: "bytes set \<Rightarrow> icmd \<Rightarrow> bytes set \<Rightarrow> bool" where
  "cmdGated W CmdStop E = True"
| "cmdGated W (CmdFileInto mb fl copy create su mid) E =
     (''fileinto'' \<in> E \<and> (fl \<noteq> None \<longrightarrow> ''imap4flags'' \<in> E) \<and> (copy \<longrightarrow> ''copy'' \<in> E) \<and>
      (create \<longrightarrow> ''mailbox'' \<in> E) \<and> (su \<noteq> [] \<longrightarrow> ''special-use'' \<in> E) \<and> (mid \<noteq> [] \<longrightarrow> ''mailboxid'' \<in> E))"
| "cmdGated W (CmdRedirect addr copy lst) E = ((copy \<longrightarrow> ''copy'' \<in> E) \<and> (lst \<longrightarrow> ''extlists'' \<in> E))"
| "cmdGated W (CmdKeep fl) E = (fl \<noteq> None \<longrightarrow> ''imap4flags'' \<in> E)"
| "cmdGated W CmdDiscard E = True"
| "cmdGated W (CmdSetFlag v fl) E = (''imap4flags'' \<in> E)"
| "cmdGated W (CmdAddFlag v fl) E = (''imap4flags'' \<in> E)"
| "cmdGated W (CmdRemoveFlag v fl) E = (''imap4flags'' \<in> E)"
| "cmdGated W (CmdReject r) E = (''reject'' \<in> E)"
| "cmdGated W (CmdEReject r) E = (''ereject'' \<in> E)"
| "cmdGated W (CmdIf t b) E = (testGated W t E \<and> list_all (\<lambda>c. cmdGated W c E) b)"
| "cmdGated W (CmdElsif t b) E = (testGated W t E \<and> list_all (\<lambda>c. cmdGated W c E) b)"
| "cmdGated W (CmdElse b) E = list_all (\<lambda>c. cmdGated W c E) b"
| "cmdGated W (CmdSet n v ms mx) E = (''variables'' \<in> E \<and> modsGated W ms E)"
| "cmdGated W (CmdVacation c) E = vacationGated c E"
| "cmdGated W (CmdAddHeader f v lst) E = (''editheader'' \<in> E)"
| "cmdGated W (CmdDeleteHeader m f ps idx lst) E = (''editheader'' \<in> E \<and> (ps \<noteq> [] \<longrightarrow> matcherGated W m E))"
| "cmdGated W (CmdError msg) E = (''ihave'' \<in> E)"
| "cmdGated W (CmdInclude loc onc opt n) E = (''include'' \<in> E)"
| "cmdGated W CmdReturn E = (''include'' \<in> E)"
| "cmdGated W (CmdGlobal ns) E = (''include'' \<in> E \<and> ''variables'' \<in> E)"
| "cmdGated W (CmdNotify m f i ops msg) E = (''enotify'' \<in> E)"
| "cmdGated W (CmdDebugLog msg) E = (''debug_log'' \<in> W \<or> YariloDebugExtension \<in> E)"
| "cmdGated W (CmdPipe p args copy try) E = (YariloPipeExtension \<in> E \<and> (copy \<longrightarrow> ''copy'' \<in> E))"
| "cmdGated W (CmdFilter p args) E = (YariloFilterExtension \<in> E)"
| "cmdGated W (CmdExecute p args inp dat out) E = (YariloExecuteExtension \<in> E \<and> (out \<noteq> [] \<longrightarrow> ''variables'' \<in> E))"
| "cmdGated W (CmdReport f m t ho) E = (YariloReportExtension \<in> E)"
| "cmdGated W (CmdForEveryPart n b) E =
     ((''foreverypart'' \<in> W \<or> ''foreverypart'' \<in> E) \<and> list_all (\<lambda>c. cmdGated W c E) b)"
| "cmdGated W (CmdBreak n) E = (''break'' \<in> W \<or> ''foreverypart'' \<in> E)"
| "cmdGated W (CmdExtractText n v ms mx) E = (''extracttext'' \<in> E \<and> ''variables'' \<in> E \<and> modsGated W ms E)"
| "cmdGated W CmdNoop E = True"

lemma gated_mono:
  assumes "E \<subseteq> E'"
  shows "matcherGated W m E \<Longrightarrow> matcherGated W m E'" "partGated p E \<Longrightarrow> partGated p E'"
    "modsGated W ms E \<Longrightarrow> modsGated W ms E'" "vacationGated c E \<Longrightarrow> vacationGated c E'"
  using assms unfolding matcherGated_def partGated_def modsGated_def vacationGated_def by blast+

lemma testGated_mono: "testGated W t E \<Longrightarrow> E \<subseteq> E' \<Longrightarrow> testGated W t E'"
proof (induction t)
  case (AllOfTest ts)
  then show ?case by (simp add: list_all_iff)
next
  case (AnyOfTest ts)
  then show ?case by (simp add: list_all_iff)
qed (auto dest: gated_mono)

lemma cmdGated_mono: "cmdGated W c E \<Longrightarrow> E \<subseteq> E' \<Longrightarrow> cmdGated W c E'"
proof (induction c)
  case (CmdIf t b)
  then show ?case by (auto simp: list_all_iff intro: testGated_mono)
next
  case (CmdElsif t b)
  then show ?case by (auto simp: list_all_iff intro: testGated_mono)
next
  case (CmdElse b)
  then show ?case by (simp add: list_all_iff)
next
  case (CmdForEveryPart n b)
  then show ?case by (auto simp: list_all_iff)
qed (unfold cmdGated.simps, (blast dest: gated_mono)+)

text \<open>
  The constructs whose loaders check no extension: the test \<open>hasflag\<close> (RFC 5232), the loop
  \<open>foreverypart\<close> and its \<open>break\<close> (RFC 5703), \<open>debug_log\<close>, the argument of \<open>:comparator\<close>
  (RFC 5228, 2.7.3) and the modifier \<open>:quoteregex\<close>.
\<close>

definition waived :: "bytes set" where
  "waived = {''hasflag'', ''foreverypart'', ''break'', ''debug_log'', ''comparator'', ''quoteregex''}"

lemma waived_constructs [simp]:
  "''hasflag'' \<in> waived" "''foreverypart'' \<in> waived" "''break'' \<in> waived" "''debug_log'' \<in> waived"
  "''comparator'' \<in> waived" "''quoteregex'' \<in> waived"
  by (simp_all add: waived_def)

section \<open>Results of loading actions\<close>

definition ensures :: "'a load \<Rightarrow> ('a \<Rightarrow> bytes set \<Rightarrow> bool) \<Rightarrow> bool" where
  "ensures m Q \<longleftrightarrow> gives m (\<lambda>x s. Q x (Extensions s))"

lemma ensures_bindL:
  assumes "ensures m Q1" "\<And>x E E'. Q1 x E \<Longrightarrow> E \<subseteq> E' \<Longrightarrow> Q1 x E'" "\<And>x. keeps grows (f x)"
    and "\<And>x. ensures (f x) (\<lambda>y E. Q1 x E \<longrightarrow> Q y E)"
  shows "ensures (bindL m f) Q"
  unfolding ensures_def gives_def
proof (intro allI impI)
  fix s y s'
  assume "bindL m f s = (Inr y, s')"
  then obtain x s1 where m: "m s = (Inr x, s1)" and f: "f x s1 = (Inr y, s')"
    by (auto simp: bindL_def split: prod.splits sum.splits)
  have "Q1 x (Extensions s1)" using assms(1) m by (simp add: ensures_def gives_def)
  moreover have "Extensions s1 \<subseteq> Extensions s'" using assms(3) [of x] f by (auto simp: keeps_def grows_def dest!: spec [of _ s1])
  ultimately show "Q y (Extensions s')" using assms(2,4) f unfolding ensures_def gives_def by blast
qed

lemma ensures_last: "(\<And>x. ensures (f x) Q) \<Longrightarrow> ensures (bindL m f) Q"
  unfolding ensures_def by (rule gives_last)

lemma ensures_returnL [load_gives]: "(\<And>E. Q x E) \<Longrightarrow> ensures (returnL x) Q"
  unfolding ensures_def by (rule gives_returnL)

lemma ensures_failL [load_gives]: "ensures (failL e) Q"
  unfolding ensures_def by (rule gives_failL)

lemma ensures_if [load_gives]: "(b \<Longrightarrow> ensures m Q) \<Longrightarrow> (\<not> b \<Longrightarrow> ensures m' Q) \<Longrightarrow> ensures (if b then m else m') Q"
  by simp

lemma requires_extension: "RequiresExtension s ext = (True, s') \<Longrightarrow> ext \<in> Extensions s'"
  by (auto simp: RequiresExtension_def Extensions_def split: if_splits)

lemma ensures_needs:
  "ensures (needIf b ext) (\<lambda>x E. b \<longrightarrow> ext \<in> E)" "ensures (needOnly ext b) (\<lambda>x E. b \<longrightarrow> ext \<in> E)"
  "ensures (need ext) (\<lambda>x E. ext \<in> E)" "ensures (RequiresExtensionL ext) (\<lambda>r E. r \<longrightarrow> ext \<in> E)"
  "ensures (guardL b e) (\<lambda>x E. b)"
  by (auto simp: ensures_def gives_def needIf_def needOnly_def need_def RequiresExtensionL_def guardL_def
      split: prod.splits if_splits dest: requires_extension)

lemma setCompiled_gated:
  assumes "setCompiled h s t = (Inr t', s')"
  shows "MMatch t' = MMatch t" "MMatch t = MatchRegex \<Longrightarrow> ''regex'' \<in> Extensions s'"
proof -
  have ext: "Extensions s1 \<subseteq> Extensions s2" if "compileKeys h c s1 ks = (r, s2)" for s1 s2 c ks r
    using grow.R_compileKeys [OF that] by (simp add: grows_def)
  show "MMatch t' = MMatch t"
    using assms by (auto simp: setCompiled_def Let_def split: prod.splits sum.splits if_splits)
  show "''regex'' \<in> Extensions s'" if "MMatch t = MatchRegex"
    using assms that
    by (auto simp: setCompiled_def Let_def split: prod.splits sum.splits if_splits dest!: requires_extension ext)
qed

lemma checkRelational_gated:
  "checkRelational s t = (Inr u, s') \<Longrightarrow> MMatch t = MatchValue \<or> MMatch t = MatchCount \<Longrightarrow> ''relational'' \<in> Extensions s'"
  by (auto simp: checkRelational_def split: prod.splits if_splits dest: requires_extension)

lemma setKey_gated:
  assumes "setKey h s t ks = (Inr t', s')"
  shows "matcherGated waived t' (Extensions s')"
proof (cases "MMatch t = MatchList")
  case True
  then show ?thesis
    using assms by (auto simp: setKey_def Let_def matcherGated_def split: prod.splits if_splits dest: requires_extension)
next
  case False
  let ?t = "t\<lparr>Key := ks\<rparr>"
  obtain s1 u where rel: "checkRelational s ?t = (Inr u, s1)"
    and comp: "setCompiled h s1 (defaultComparator ?t) = (Inr t', s')"
    using assms False by (auto simp: setKey_def Let_def split: prod.splits sum.splits if_splits)
  have "Extensions s1 \<subseteq> Extensions s'" using grow.R_setCompiled [OF comp] by (simp add: grows_def)
  moreover have "MMatch t' = MMatch t" using setCompiled_gated(1) [OF comp] by (simp add: defaultComparator_def)
  ultimately show ?thesis
    using checkRelational_gated [OF rel] setCompiled_gated(2) [OF comp] False
    unfolding matcherGated_def by (auto simp: defaultComparator_def)
qed

lemma ensures_setKeyL: "ensures (setKeyL h a ks) (matcherGated waived)"
  using setKey_gated by (auto simp: ensures_def gives_def setKeyL_def)

text \<open>The rules in the form in which the loaders use them.\<close>

lemma ensures_after [load_gives]:
  "(\<And>x. keeps grows (f x)) \<Longrightarrow> (\<And>x. ensures (f x) (\<lambda>y E. ext \<in> E \<longrightarrow> Q y E)) \<Longrightarrow> ensures (bindL (need ext) f) Q"
  "(\<And>x. keeps grows (f x)) \<Longrightarrow> (\<And>x. ensures (f x) (\<lambda>y E. (b \<longrightarrow> ext \<in> E) \<longrightarrow> Q y E)) \<Longrightarrow> ensures (bindL (needIf b ext) f) Q"
  "(\<And>x. keeps grows (f x)) \<Longrightarrow> (\<And>x. ensures (f x) (\<lambda>y E. (b \<longrightarrow> ext \<in> E) \<longrightarrow> Q y E)) \<Longrightarrow> ensures (bindL (needOnly ext b) f) Q"
  "(\<And>x. keeps grows (g x)) \<Longrightarrow> (\<And>r. ensures (g r) (\<lambda>y E. (r \<longrightarrow> ext \<in> E) \<longrightarrow> Q y E)) \<Longrightarrow>
     ensures (bindL (RequiresExtensionL ext) g) Q"
  "(\<And>x. keeps grows (f x)) \<Longrightarrow> (\<And>x. ensures (f x) (\<lambda>y E. b \<longrightarrow> Q y E)) \<Longrightarrow> ensures (bindL (guardL b e) f) Q"
  "(\<And>x. keeps grows (k x)) \<Longrightarrow> (\<And>m. ensures (k m) (\<lambda>y E. matcherGated waived m E \<longrightarrow> Q y E)) \<Longrightarrow>
     ensures (bindL (setKeyL h a ks) k) Q"
  by (erule ensures_bindL [rotated 2], assumption, rule ensures_needs ensures_setKeyL, (blast intro: gated_mono))+

lemma ensures_other [load_gives]:
  "(\<And>x. ensures (f x) Q) \<Longrightarrow> ensures (bindL (programChecks h a) f) Q"
  "(\<And>x. ensures (f x) Q) \<Longrightarrow> ensures (bindL (settableL h n) f) Q"
  "(\<And>x. ensures (g x) Q) \<Longrightarrow> ensures (bindL maxVariableLenL g) Q"
  "(\<And>a. ensures (k a) Q) \<Longrightarrow> ensures (LoadLeaf h sp args ts block k) Q"
  by (simp_all add: ensures_last LoadLeaf_def)

lemma bindL_simps [simp]:
  "bindL (bindL m f) g = bindL m (\<lambda>x. bindL (f x) g)"
  "bindL (returnL x) j = j x" "bindL (failL e) k = failL e"
  "bindL (if b then n else n') k = (if b then bindL n k else bindL n' k)"
  by (auto simp: bindL_def returnL_def failL_def fun_eq_iff split: prod.splits sum.splits)

lemma ensures_nested [load_gives]:
  "ensures (bindL m (\<lambda>x. bindL (f x) g)) Q \<Longrightarrow> ensures (bindL (bindL m f) g) Q"
  "ensures (if b then bindL n j else bindL n' j) Q \<Longrightarrow> ensures (bindL (if b then n else n') j) Q"
  "ensures (k x) Q \<Longrightarrow> ensures (bindL (returnL x) k) Q"
  by simp_all

lemma ensures_state [load_gives]: "(\<And>s E. Q (f s) E) \<Longrightarrow> ensures (\<lambda>s. (Inr (f s), s)) Q"
  by (simp add: ensures_def gives_def)

lemmas load_rules = load_gives load_keeps

section \<open>Invariants of the slots\<close>

definition tagInv :: "(slots \<Rightarrow> bool) \<Rightarrow> spec_tag \<Rightarrow> bool" where
  "tagInv I tag \<longleftrightarrow>
     (\<forall>f v a. TMatchStr tag = Some f \<longrightarrow> I a \<longrightarrow> I (f v a)) \<and> (\<forall>f n a. TMatchNum tag = Some f \<longrightarrow> I a \<longrightarrow> I (f n a)) \<and>
     (\<forall>f a. TMatchBool tag = Some f \<longrightarrow> I a \<longrightarrow> I (f a))"

definition posInv :: "(slots \<Rightarrow> bool) \<Rightarrow> spec_pos \<Rightarrow> bool" where
  "posInv I p \<longleftrightarrow>
     (\<forall>f v a. PMatchStr p = Some f \<longrightarrow> I a \<longrightarrow> I (f v a)) \<and> (\<forall>f n a. PMatchNum p = Some f \<longrightarrow> I a \<longrightarrow> I (f n a))"

definition specInv :: "(slots \<Rightarrow> bool) \<Rightarrow> spec \<Rightarrow> bool" where
  "specInv I sp \<longleftrightarrow> (\<forall>k tag. Tags sp k = Some tag \<longrightarrow> tagInv I tag) \<and> list_all (posInv I) (Pos sp)"

lemma gives_bindL: "gives m P \<Longrightarrow> (\<And>x. (\<exists>s. P x s) \<Longrightarrow> gives (f x) Q) \<Longrightarrow> gives (bindL m f) Q"
  unfolding gives_def bindL_def by (auto split: prod.splits sum.splits) blast

lemma gives_asking: "(\<And>x. gives (f x) Q) \<Longrightarrow> gives (bindL (RequiresExtensionL ext) f) Q"
  by (rule gives_last)

lemma gives_arguments:
  assumes "I a"
  shows "tagInv I t \<Longrightarrow> gives (tagStrings t vs a) (\<lambda>a' s. I a')" "posInv I p \<Longrightarrow> gives (posStrings p vs a) (\<lambda>a' s. I a')"
    "tagInv I t \<Longrightarrow> gives (tagNumber t n a) (\<lambda>a' s. I a')" "posInv I p \<Longrightarrow> gives (posNumber p n a) (\<lambda>a' s. I a')"
  using assms
  by (auto simp: tagStrings_def posStrings_def tagNumber_def posNumber_def tagInv_def posInv_def
      split: option.split intro!: gives_last gives_returnL gives_failL)

lemma gives_loadArgs:
  assumes "specInv I sp"
  shows "(\<And>t. lastTag = Some t \<Longrightarrow> tagInv I t) \<Longrightarrow> I a \<Longrightarrow> gives (loadArgs h sp lastTag n args a) (\<lambda>(n, a') s. I a')"
  using assms
proof (induction h sp lastTag n args a rule: loadArgs.induct)
  case (1 h sp lastTag n a)
  then show ?case by (simp add: gives_returnL)
next
  case (2 h sp lastTag n v p as a)
  have pos: "posInv I (Pos sp ! n)" if "n < length (Pos sp)" using 2(5) that by (simp add: specInv_def list_all_length)
  show ?case
    using 2 pos
    by (cases lastTag) (auto intro!: gives_if gives_failL gives_bindL [OF gives_arguments(1) [where I = I]] gives_bindL [OF gives_arguments(2) [where I = I]] gives_asking)
next
  case (3 h sp lastTag n vs p as a)
  have pos: "posInv I (Pos sp ! n)" if "n < length (Pos sp)" using 3(5) that by (simp add: specInv_def list_all_length)
  show ?case
    using 3 pos
    by (cases lastTag) (auto intro!: gives_if gives_failL gives_bindL [OF gives_arguments(1) [where I = I]] gives_bindL [OF gives_arguments(2) [where I = I]])
next
  case (4 h sp lastTag n v p as a)
  have pos: "posInv I (Pos sp ! n)" if "n < length (Pos sp)" using 4(5) that by (simp add: specInv_def list_all_length)
  show ?case
    using 4 pos
    by (cases lastTag) (auto intro!: gives_if gives_failL gives_bindL [OF gives_arguments(3) [where I = I]] gives_bindL [OF gives_arguments(4) [where I = I]])
next
  case (5 h sp lastTag n v p as a)
  have tag: "tagInv I tag" if "Tags sp (ToLower (uni h) v) = Some tag" for tag
    using 5(5) that by (simp add: specInv_def)
  have step: "I (f a)" if "tagInv I tag" "TMatchBool tag = Some f" for tag f
    using that 5(4) by (simp add: tagInv_def)
  show ?case
    using 5 tag step
    by (cases lastTag; cases "Tags sp (ToLower (uni h) v)")
      (auto intro!: gives_failL split: option.split)
qed

lemma ensures_LoadLeaf_inv:
  assumes "specInv I sp" "I noSlots" "AddTest sp = None" "AddBlock sp = None" "\<And>a. I a \<Longrightarrow> ensures (k a) Q"
  shows "ensures (LoadLeaf h sp args ts block k) Q"
proof -
  have "gives (LoadSpec h sp args ts (returnL []) block (returnL []) noSlots) (\<lambda>a s. I a)"
    unfolding LoadSpec_def using assms
    by (intro gives_bindL [OF gives_loadArgs [OF assms(1)]]) (auto intro!: gives_if gives_failL gives_returnL)
  then show ?thesis unfolding LoadLeaf_def ensures_def
    by (rule gives_bindL) (use assms(5) in \<open>auto simp: ensures_def\<close>)
qed

section \<open>Tests\<close>

lemma noSlots_simps [simp]:
  "sslot noSlots = Map.empty" "nslot noSlots = Map.empty" "bslot noSlots = {}" "tslot noSlots = []" "cslot noSlots = []"
  by (simp_all add: noSlots_def)

text \<open>Without \<open>subaddress\<close> the tags \<open>:user\<close> and \<open>:detail\<close> are unknown.\<close>

lemma addressSpec_inv: "specInv (\<lambda>a. addressPartOf a \<noteq> User \<and> addressPartOf a \<noteq> Detail) (addressSpec False)"
  by (auto simp: specInv_def addressSpec_def addSpecTags_def Let_def emptySpec_def tagInv_def posInv_def boolTag_def
      constTag_def strTag_def strPos_def addressPartTag_def setStr_def matchTag_def relationalTag_def comparatorTag_def
      addressPartOf_def str_def strs_def split: if_splits)

lemma gates_addressSpec:
  assumes "\<And>a. (sub \<or> addressPartOf a \<noteq> User \<and> addressPartOf a \<noteq> Detail) \<Longrightarrow> ensures (k a) Q"
  shows "ensures (LoadLeaf h (addressSpec sub) args ts block k) Q"
proof (cases sub)
  case True
  then show ?thesis using assms by (intro load_gives) auto
next
  case False
  have "ensures (LoadLeaf h (addressSpec False) args ts block k) Q"
    using assms False
    by (intro ensures_LoadLeaf_inv [OF addressSpec_inv])
      (auto simp: addressPartOf_def str_def strs_def addressSpec_def addSpecTags_def Let_def emptySpec_def)
  then show ?thesis using False by simp
qed

lemma gates_loadAddress:
  "ensures (loadAddressTest h args ts) (testGated waived)" "ensures (loadEnvelopeTest h args ts) (testGated waived)"
  unfolding loadAddressTest_def loadEnvelopeTest_def
  by (intro load_rules gates_addressSpec, auto simp: partGated_def)+

lemma gates_loadLeafTest: "ensures (loadLeafTest h name args ts) (testGated waived)"
  unfolding loadLeafTest_def loadExistsTest_def loadFalseTest_def
    loadTrueTest_def loadHeaderTest_def loadSizeTest_def loadStringTest_def loadHasFlagTest_def
    loadEnvironmentTest_def loadBodyTest_def loadDateTest_def loadCurrentDateTest_def loadMailboxExistsTest_def
    loadDuplicateTest_def loadSpecialUseExists_def loadMailboxIDExists_def loadValidExtList_def
    loadValidNotifyMethod_def loadNotifyMethodCapability_def loadSpamTest_def loadVirusTest_def
    loadMetadataTest_def loadMetadataExistsTest_def loadServerMetadataTest_def loadServerMetadataExistsTest_def
    loadFilterTest_def loadFilterCommon_def loadExecuteTest_def loadExecuteCommon_def
    loadIhaveTest_def validateMimeTags_def Let_def
  by (intro gates_loadAddress load_rules) simp_all

section \<open>Commands\<close>
lemma gates_loadLeafCmd: "ensures (loadLeafCmd h name args ts block) (cmdGated waived)"
  unfolding loadLeafCmd_def loadStop_def loadBreak_def loadExtractText_def loadFileInto_def loadRedirect_def
    loadKeep_def loadDiscard_def loadSetFlag_def loadAddFlag_def loadRemoveFlag_def loadFlagCmd_def loadSet_def
    loadReject_def loadEReject_def loadVacation_def loadAddHeader_def loadDeleteHeader_def loadError_def
    loadInclude_def loadReturn_def loadGlobal_def loadNotify_def loadPipe_def loadFilterCmd_def
    loadFilterCommon_def loadExecuteCmd_def loadExecuteCommon_def loadReport_def Let_def
    loadDebugLog_def
  by (intro load_rules)
    (simp_all add: modsGated_def vacationGated_def, auto simp: ensures_def gives_def split: prod.splits if_splits)

section \<open>Nested tests and blocks\<close>

lemma loadArgs_tests:
  "Tags sp = Map.empty \<Longrightarrow> Pos sp = [] \<Longrightarrow> loadArgs h sp None 0 args noSlots s = (Inr (n, a), s') \<Longrightarrow> tslot a = []"
  using gives_loadArgs [of "\<lambda>a. tslot a = []" sp None noSlots h 0 args]
  by (simp add: specInv_def gives_def) blast

lemma fold_append_tests: "tslot (fold (\<lambda>t a. a\<lparr>tslot := tslot a @ [t]\<rparr>) its a) = tslot a @ its"
  by (induction its arbitrary: a) auto

lemma fold_last_test: "its \<noteq> [] \<Longrightarrow> tslot (fold (\<lambda>t a. a\<lparr>tslot := [t]\<rparr>) its a) = [last its]"
  by (induction its rule: rev_induct) auto

text \<open>What a successful call of \<open>LoadSpec\<close> with a test and perhaps a block has done.\<close>

lemma LoadSpec_success:
  assumes "LoadSpec h sp args ts lt block lb a0 s = (Inr a, s')" "AddTest sp = Some add"
  obtains n a1 s1 its s2 where "loadArgs h sp None 0 args a0 s = (Inr (n, a1), s1)" "ts \<noteq> []" "lt s1 = (Inr its, s2)"
    "AddBlock sp = None \<Longrightarrow> a = fold add its a1 \<and> s' = s2"
    "\<And>addb. AddBlock sp = Some addb \<Longrightarrow> \<exists>cs. lb s2 = (Inr cs, s') \<and> a = addb cs (fold add its a1)"
proof -
  obtain n a1 s1 where args: "loadArgs h sp None 0 args a0 s = (Inr (n, a1), s1)"
    using assms by (auto simp: LoadSpec_def bindL_def split: prod.splits sum.splits)
  have ts: "ts \<noteq> []" using assms args by (auto simp: LoadSpec_def bindL_def failL_def split: if_splits)
  obtain its s2 where tests: "lt s1 = (Inr its, s2)"
    using assms args ts
    by (auto simp: LoadSpec_def bindL_def failL_def split: if_splits prod.splits sum.splits)
  show thesis
  proof (rule that [OF args ts tests])
    show "a = fold add its a1 \<and> s' = s2" if "AddBlock sp = None"
      using assms args ts tests that
      by (auto simp: LoadSpec_def bindL_def failL_def returnL_def split: if_splits)
    show "\<exists>cs. lb s2 = (Inr cs, s') \<and> a = addb cs (fold add its a1)" if "AddBlock sp = Some addb" for addb
      using assms args ts tests that
      by (auto simp: LoadSpec_def bindL_def failL_def returnL_def split: if_splits option.splits prod.splits sum.splits)
  qed
qed

abbreviation testsGated :: "bytes set \<Rightarrow> itest list \<Rightarrow> bytes set \<Rightarrow> bool" where
  "testsGated W its E \<equiv> list_all (\<lambda>t. testGated W t E) its"

abbreviation cmdsGated :: "bytes set \<Rightarrow> icmd list \<Rightarrow> bytes set \<Rightarrow> bool" where
  "cmdsGated W cs E \<equiv> list_all (\<lambda>c. cmdGated W c E) cs"

lemma testsGated_mono: "testsGated waived its E \<Longrightarrow> E \<subseteq> E' \<Longrightarrow> testsGated waived its E'"
  using testGated_mono by (auto simp: list_all_iff)

lemma cmdsGated_mono: "cmdsGated waived cs E \<Longrightarrow> E \<subseteq> E' \<Longrightarrow> cmdsGated waived cs E'"
  using cmdGated_mono by (auto simp: list_all_iff)

lemma length_LoadTests: "gives (LoadTests h ts) (\<lambda>xs s. length xs = length ts)"
proof (induction ts)
  case (Cons t ts)
  show ?case unfolding LoadTests.simps
    by (rule gives_last, rule gives_bindL [OF Cons], rule gives_returnL) simp
qed (simp add: gives_returnL)

lemma gates_listTests:
  assumes "ensures lt (testsGated waived)"
  shows "gives (LoadSpec h listTests args ts lt None lb noSlots) (\<lambda>a s. testsGated waived (tslot a) (Extensions s))"
  unfolding gives_def
proof (intro allI impI)
  fix s a s'
  assume "LoadSpec h listTests args ts lt None lb noSlots s = (Inr a, s')"
  then show "testsGated waived (tslot a) (Extensions s')"
  proof (rule LoadSpec_success)
    show "AddTest listTests = Some (\<lambda>t a. a\<lparr>tslot := tslot a @ [t]\<rparr>)" by (simp add: listTests_def)
    fix n a1 s1 its s2
    assume "loadArgs h listTests None 0 args noSlots s = (Inr (n, a1), s1)" "lt s1 = (Inr its, s2)"
      and "AddBlock listTests = None \<Longrightarrow> a = fold (\<lambda>t a. a\<lparr>tslot := tslot a @ [t]\<rparr>) its a1 \<and> s' = s2"
    moreover from this(1) have "tslot a1 = []" by (rule loadArgs_tests [rotated 2]) (simp_all add: listTests_def emptySpec_def)
    ultimately show ?thesis
      using assms by (auto simp: listTests_def emptySpec_def fold_append_tests ensures_def gives_def)
  qed
qed

lemma gates_oneTest:
  assumes "ensures (LoadTests h ts) (testsGated waived)"
  shows "gives (LoadSpec h oneTest args ts (LoadTests h ts) None lb noSlots) (\<lambda>a s. testGated waived (hd (tslot a)) (Extensions s))"
  unfolding gives_def
proof (intro allI impI)
  fix s a s'
  assume "LoadSpec h oneTest args ts (LoadTests h ts) None lb noSlots s = (Inr a, s')"
  then show "testGated waived (hd (tslot a)) (Extensions s')"
  proof (rule LoadSpec_success)
    show "AddTest oneTest = Some (\<lambda>t a. a\<lparr>tslot := [t]\<rparr>)" by (simp add: oneTest_def)
    fix n a1 s1 its s2
    assume "ts \<noteq> []" "LoadTests h ts s1 = (Inr its, s2)"
      and "AddBlock oneTest = None \<Longrightarrow> a = fold (\<lambda>t a. a\<lparr>tslot := [t]\<rparr>) its a1 \<and> s' = s2"
    moreover from this have "its \<noteq> []" using length_LoadTests [of h ts] by (force simp: gives_def)
    ultimately show ?thesis
      using assms by (auto simp: oneTest_def emptySpec_def fold_last_test ensures_def gives_def list_all_iff)
  qed
qed

lemma gates_LoadTest: "ensures (LoadTest h t) (testGated waived)" and gates_LoadTests: "ensures (LoadTests h ts) (testsGated waived)"
proof (induction h t and h ts rule: LoadTest_LoadTests.induct)
  case (1 h p name0 args ts)
  have nested: "ensures (loadNested h listTests args ts (LoadTests h ts) mk) (testGated waived)" if
    "\<And>a E. testsGated waived (tslot a) E \<Longrightarrow> testGated waived (mk a) E" "ensures (LoadTests h ts) (testsGated waived)" for mk
    using gates_listTests [OF that(2), of h args ts "returnL []"] that(1) unfolding loadNested_def
    by (auto simp: ensures_def gives_def bindL_def returnL_def split: prod.splits sum.splits)
  have one: "ensures (loadNested h oneTest args ts (LoadTests h ts) (\<lambda>a. NotTest (hd (tslot a)))) (testGated waived)"
    if "ensures (LoadTests h ts) (testsGated waived)"
    using gates_oneTest [OF that, of args "returnL []"] unfolding loadNested_def
    by (auto simp: ensures_def gives_def bindL_def returnL_def split: prod.splits sum.splits)
  show ?case using 1 by (auto simp: Let_def gates_loadLeafTest intro!: nested one)
next
  case (2 h)
  show ?case by (simp add: ensures_returnL)
next
  case (3 h t ts)
  show ?case unfolding LoadTests.simps
  proof (rule ensures_bindL [OF 3(1)])
    show "ensures (bindL (LoadTests h ts) (\<lambda>xs. returnL (x # xs))) (\<lambda>y E. testGated waived x E \<longrightarrow> testsGated waived y E)" for x
      by (rule ensures_bindL [OF 3(2) testsGated_mono grow.keeps_returnL ensures_returnL]) simp_all
    show "keeps grows (bindL (LoadTests h ts) (\<lambda>xs. returnL (x # xs)))" for x by (intro load_keeps)
  qed (rule testGated_mono)
qed

lemma gates_withGuarded: "ensures m Q \<Longrightarrow> ensures (withGuarded caps m) Q"
  by (auto simp: ensures_def gives_def withGuarded_def split: prod.splits)

lemma gates_condBlock_whole:
  assumes "ensures lb (cmdsGated waived)" "keeps grows lb"
  shows "ensures (bindL (LoadSpec h (withBlock oneTest) args ts (LoadTests h ts) block lb noSlots)
    (\<lambda>a. returnL (hd (tslot a), cslot a))) (\<lambda>(t, b) E. testGated waived t E \<and> cmdsGated waived b E)"
proof -
  have "testGated waived (hd (tslot a)) (Extensions s') \<and> cmdsGated waived (cslot a) (Extensions s')"
    if "LoadSpec h (withBlock oneTest) args ts (LoadTests h ts) block lb noSlots s = (Inr a, s')" for s a s'
    using that
  proof (rule LoadSpec_success)
    show "AddTest (withBlock oneTest) = Some (\<lambda>t a. a\<lparr>tslot := [t]\<rparr>)" by (simp add: oneTest_def withBlock_def)
    fix n a1 s1 its s2
    assume ts: "ts \<noteq> []" and lt: "LoadTests h ts s1 = (Inr its, s2)"
      and "\<And>addb. AddBlock (withBlock oneTest) = Some addb \<Longrightarrow>
        \<exists>cs. lb s2 = (Inr cs, s') \<and> a = addb cs (fold (\<lambda>t a. a\<lparr>tslot := [t]\<rparr>) its a1)"
    then obtain cs where lb: "lb s2 = (Inr cs, s')" and a: "a = (fold (\<lambda>t a. a\<lparr>tslot := [t]\<rparr>) its a1)\<lparr>cslot := cs\<rparr>"
      by (auto simp: withBlock_def)
    have "its \<noteq> []" using ts lt length_LoadTests [of h ts] by (force simp: gives_def)
    moreover have "testsGated waived its (Extensions s2)" using gates_LoadTests [of h ts] lt by (simp add: ensures_def gives_def)
    moreover have sub: "Extensions s2 \<subseteq> Extensions s'" using assms(2) lb by (auto simp: keeps_def grows_def dest!: spec [of _ s2])
    moreover have "cmdsGated waived cs (Extensions s')" using assms(1) lb by (simp add: ensures_def gives_def)
    ultimately show ?thesis by (auto simp: a fold_last_test list_all_iff intro: testGated_mono)
  qed
  then show ?thesis by (auto simp: ensures_def gives_def bindL_def returnL_def split: prod.splits sum.splits)
qed

lemma gates_loadCondBlock:
  assumes "ensures lb (cmdsGated waived)" "keeps grows lb"
  shows "ensures (loadCondBlock h args ts (LoadTests h ts) block lb) (\<lambda>(t, b) E. testGated waived t E \<and> cmdsGated waived b E)"
proof -
  let ?whole = "bindL (LoadSpec h (withBlock oneTest) args ts (LoadTests h ts) block lb noSlots)
    (\<lambda>a. returnL (hd (tslot a), cslot a))"
  let ?k = "\<lambda>its. case its of [TestIhave caps have] \<Rightarrow>
      if \<not> have then returnL (TestIhave caps have, []) else withGuarded caps ?whole
    | _ \<Rightarrow> failL (LoadPanic ''interface conversion'')"
  let ?Q = "\<lambda>(t, b) E. testGated waived t E \<and> cmdsGated waived b E"
  note whole = gates_condBlock_whole [OF assms, of h args ts block]
  have "ensures (bindL (LoadTests h ts) ?k) ?Q"
    unfolding ensures_def gives_def
  proof (intro allI impI)
    fix s r s'
    assume "bindL (LoadTests h ts) ?k s = (Inr r, s')"
    then obtain its s1 where lt: "LoadTests h ts s = (Inr its, s1)" and k: "?k its s1 = (Inr r, s')"
      by (auto simp: bindL_def split: prod.splits sum.splits)
    from k obtain caps have1 where its: "its = [TestIhave caps have1]"
      by (auto simp: failL_def split: list.splits itest.splits)
    have "testsGated waived its (Extensions s1)" using gates_LoadTests [of h ts] lt by (simp add: ensures_def gives_def)
    then show "?Q r (Extensions s')"
      using k gates_withGuarded [OF whole, of caps]
      by (cases have1) (auto simp: its returnL_def ensures_def gives_def)
  qed
  then show ?thesis using whole by (simp add: loadCondBlock_def Let_def)
qed

lemma gates_blockOnly:
  assumes "ensures lb (cmdsGated waived)" "AddTest sp = None"
  shows "gives (LoadSpec h (withBlock sp) args ts lt block lb noSlots) (\<lambda>a s. cmdsGated waived (cslot a) (Extensions s))"
  using assms
  by (auto simp: LoadSpec_def withBlock_def gives_def ensures_def bindL_def failL_def returnL_def
      split: prod.splits sum.splits if_splits option.splits)

lemma gates_LoadCmd: "ensures (LoadCmd h c) (\<lambda>r E. case r of None \<Rightarrow> True | Some x \<Rightarrow> cmdGated waived x E)"
  and gates_LoadBlock: "ensures (LoadBlock h cs) (cmdsGated waived)"
proof (induction h c and h cs rule: LoadCmd_LoadBlock.induct)
  case (1 h p name0 args ts block)
  let ?lb = "case block of None \<Rightarrow> returnL [] | Some b \<Rightarrow> LoadBlock h b"
  let ?Q = "\<lambda>r E. case r of None \<Rightarrow> True | Some x \<Rightarrow> cmdGated waived x E"
  have lb: "ensures ?lb (cmdsGated waived)" "keeps grows ?lb"
    using 1 grow.keeps_LoadBlock by (cases block; auto intro: ensures_returnL load_keeps)+
  have some: "ensures m (cmdGated waived) \<Longrightarrow> ensures (bindL m (\<lambda>c. returnL (Some c))) ?Q" for m
    by (auto simp: ensures_def gives_def bindL_def returnL_def split: prod.splits sum.splits)
  have cond: "ensures (bindL (loadCondBlock h args ts (LoadTests h ts) block ?lb) (\<lambda>(t, b). returnL (Some (mk t b)))) ?Q"
    if "\<And>t b E. cmdGated waived (mk t b) E \<longleftrightarrow> testGated waived t E \<and> cmdsGated waived b E" for mk
    using gates_loadCondBlock [OF lb, of h args ts block] that
    by (auto simp: ensures_def gives_def bindL_def returnL_def split: prod.splits sum.splits)
  have blk: "ensures (bindL (LoadSpec h (withBlock sp) args ts (returnL []) block ?lb noSlots) (\<lambda>a. returnL (mk a))) (cmdGated waived)"
    if "AddTest sp = None" "\<And>a E. cmdGated waived (mk a) E \<longleftrightarrow> cmdsGated waived (cslot a) E" for sp mk
    using gates_blockOnly [OF lb(1) that(1), of h args ts "returnL []" block] that(2)
    by (auto simp: ensures_def gives_def bindL_def returnL_def split: prod.splits sum.splits)
  have "ensures (loadElse h args ts block ?lb) (cmdGated waived)"
    unfolding loadElse_def by (rule blk) (simp_all add: emptySpec_def)
  moreover have "ensures (loadForEveryPart h args ts block ?lb) (cmdGated waived)"
    unfolding loadForEveryPart_def by (rule blk) (simp_all add: emptySpec_def)
  moreover have "ensures (bindL (loadRequire h args ts block) (\<lambda>_. returnL None)) ?Q"
    by (intro ensures_last ensures_returnL) simp
  ultimately show ?case
    by (simp add: Let_def some cond gates_loadLeafCmd del: bindL_simps)
next
  case (3 h c cs)
  show ?case unfolding LoadBlock.simps
  proof (rule ensures_bindL [OF 3(1)])
    show "ensures (bindL (LoadBlock h cs) (\<lambda>rest. returnL (case r of None \<Rightarrow> rest | Some x \<Rightarrow> x # rest)))
        (\<lambda>y E. (case r of None \<Rightarrow> True | Some x \<Rightarrow> cmdGated waived x E) \<longrightarrow> cmdsGated waived y E)" for r
      by (rule ensures_bindL [OF 3(2) cmdsGated_mono grow.keeps_returnL ensures_returnL]) (simp_all split: option.split)
    show "keeps grows (bindL (LoadBlock h cs) (\<lambda>rest. returnL (case r of None \<Rightarrow> rest | Some x \<Rightarrow> x # rest)))" for r
      by (intro load_keeps grow.keeps_LoadBlock)
  qed (auto dest: cmdGated_mono split: option.splits)
qed (simp add: ensures_returnL)

section \<open>An example script\<close>

definition examplePos :: position where
  "examplePos = \<lparr>File = [], Line = 1, Col = 1\<rparr>"

text \<open>A script that requires \<open>fileinto\<close> and \<open>ihave\<close> and uses \<open>copy\<close> under \<open>ihave\<close>.\<close>

definition exampleCmds :: "cmd list" where
  "exampleCmds =
     [Cmd examplePos ''require'' [StringListArg [''fileinto'', ''ihave''] examplePos] [] None,
      Cmd examplePos ''if'' [] [Test examplePos ''ihave'' [StringArg ''copy'' examplePos] []]
        (Some [Cmd examplePos ''fileinto'' [TagArg ''copy'' examplePos, StringArg ''a'' examplePos] [] None])]"

definition exampleOptions :: interp_options where
  "exampleOptions = \<lparr>MaxActions = 2, MaxVariableNameLen = 32, MaxVariableLen = 100, SubAddressSep = [],
     Testing = False, DebugLog = False, Allowed = None\<rparr>"

lemma exampleCmds_load:
  "case LoadScript exampleHost exampleCmds exampleOptions of
     Inl e \<Rightarrow> False
   | Inr (s, cs) \<Rightarrow>
       length cs = 1 \<and> (case cs of [CmdIf t [CmdFileInto m fl cp cr su mid]] \<Rightarrow> cp | _ \<Rightarrow> False) \<and>
       ''copy'' \<in> Extensions s \<and> ''copy'' \<notin> extensions s"
  by code_simp

section \<open>Properties\<close>



text \<open>
  C13: the script that loading leaves.  The options are those given, no extension is guarded any
  more, every extension is supported (that of the test suite only in its environment), and an
  extension that was not required but used under \<open>ihave\<close> is one the host allows.  So at run
  time \<open>RequiresExtension\<close> answers from \<open>require\<close> alone and changes nothing.
\<close>

theorem loaded_script_state:
  assumes "LoadScript h cmds ops = Inr (s, cs)"
  shows "opts s = ops \<and> (\<forall>ext. RequiresExtension s ext = (ext \<in> extensions s, s)) \<and>
    extensions s \<subseteq> set supportedRequires \<union> (if Testing ops then {DovecotTestExtension} else {}) \<and>
    (\<forall>ext. ext \<in> Extensions s - extensions s \<longrightarrow> available s ext)"
  using LoadScript_rel [OF assms] by (auto simp: scriptOk_def Extensions_def RequiresExtension_def)

theorem loaded_script_state_witness:
  "\<exists>s cs. LoadScript exampleHost exampleCmds exampleOptions = Inr (s, cs) \<and> opts s = exampleOptions \<and>
    ''copy'' \<in> Extensions s - extensions s \<and> available s ''copy''"
  using exampleCmds_load loaded_script_state [of exampleHost exampleCmds exampleOptions]
  by (auto split: sum.splits prod.splits)

end
