(* ===== verification/Interp.thy ===== *)
theory Interp
  imports Loader Lexer_Stream
begin

text \<open>
  Execution of loaded scripts: \<open>interp/control.go\<close>, \<open>interp/include.go\<close>, the loop and \<open>break\<close> of
  \<open>interp/mime.go\<close>, \<open>Script.Execute\<close> of \<open>interp/script.go\<close>, and \<open>Load\<close> of \<open>sieve.go\<close>.

  Commands that contain commands take the action of their block as an argument; \<open>execCmd\<close> ties
  the knot.  An included script is loaded at run time, so its commands are not parts of the
  command that includes it: the recursion there is bounded by fuel, one unit for each level.
  The code allows \<open>includeMaxDepth\<close> levels, and that much fuel is enough.
\<close>

section \<open>Control\<close>

definition seqE :: "unit exec \<Rightarrow> unit exec \<Rightarrow> unit exec" where
  "seqE m k d = (case m d of (Inl e, d') \<Rightarrow> (Inl e, d') | (Inr _, d') \<Rightarrow> k d')"

definition CmdIf_Execute :: "host \<Rightarrow> itest \<Rightarrow> unit exec \<Rightarrow> unit exec" where
  "CmdIf_Execute h t body d =
     (case Check h t d of
        (Inl e, d1) \<Rightarrow> (Inl e, d1)
      | (Inr res, d1) \<Rightarrow>
          if res then
            (case body d1 of
               (Inl e, d2) \<Rightarrow> (Inl e, d2)
             | (Inr _, d2) \<Rightarrow> (Inr (), d2\<lparr>ifResult := res\<rparr>))
          else (Inr (), d1\<lparr>ifResult := res\<rparr>))"

definition CmdElsif_Execute :: "host \<Rightarrow> itest \<Rightarrow> unit exec \<Rightarrow> unit exec" where
  "CmdElsif_Execute h t body d = (if ifResult d then (Inr (), d) else CmdIf_Execute h t body d)"

definition CmdElse_Execute :: "unit exec \<Rightarrow> unit exec" where
  "CmdElse_Execute body d = (if ifResult d then (Inr (), d) else body d)"

section \<open>The loop over MIME parts\<close>

text \<open>The result is a panic: the code restores nothing with \<open>defer\<close>, so what follows a call is skipped.\<close>

definition panics :: "(exec_error, 'a) result \<Rightarrow> bool" where
  "panics r \<longleftrightarrow> (case r of Inl e \<Rightarrow> isPanic e | Inr _ \<Rightarrow> False)"

fun forParts :: "bytes \<Rightarrow> unit exec \<Rightarrow> mimePart list \<Rightarrow> unit exec" where
  "forParts name body [] d = (Inr (), d)"
| "forParts name body (p # ps) d =
     (case body (d\<lparr>partStack := partStack d @ [p]\<rparr>) of (r, d1) \<Rightarrow>
        if panics r then (r, d1)
        else (let d2 = d1\<lparr>partStack := butlast (partStack d1)\<rparr> in
         case r of
           Inr _ \<Rightarrow> forParts name body ps d2
         | Inl e \<Rightarrow>
             (case e of
                ErrBreak target \<Rightarrow> if target = [] \<or> target = name then (Inr (), d2) else (Inl e, d2)
              | _ \<Rightarrow> (Inl e, d2))))"

definition CmdForEveryPart_Execute :: "host \<Rightarrow> bytes \<Rightarrow> unit exec \<Rightarrow> unit exec" where
  "CmdForEveryPart_Execute h name body d =
     (case mimeTree h of
        Inl e \<Rightarrow> (Inl e, d)
      | Inr None \<Rightarrow> (Inr (), d)
      | Inr (Some tree) \<Rightarrow>
          forParts name body
            (case currentMIMEPart d of
               None \<Rightarrow> if isMultipart tree then descendants tree else [tree]
             | Some cur \<Rightarrow> descendants cur) d)"

section \<open>Include\<close>

definition includeMaxDepth :: nat where
  "includeMaxDepth = 4"

definition push :: "bytes \<Rightarrow> include_state \<Rightarrow> include_state" where
  "push key st = st\<lparr>stack := stack st @ [key]\<rparr>"

definition pop :: "include_state \<Rightarrow> include_state" where
  "pop st = st\<lparr>stack := butlast (stack st)\<rparr>"

definition markOnce :: "bool \<Rightarrow> bytes \<Rightarrow> include_state \<Rightarrow> include_state" where
  "markOnce onc key st = (if onc then st\<lparr>once := insert key (once st)\<rparr> else st)"

text \<open>
  The steps between reading the source and running it.  The lexer and the parser get empty
  options, which set no limits.
\<close>

definition loadIncluded :: "host \<Rightarrow> runtime \<Rightarrow> bytes \<Rightarrow> bytes \<Rightarrow> bytes \<Rightarrow> (exec_error, script \<times> icmd list) result" where
  "loadIncluded h d location name src =
     (case Lex \<lparr>Filename = name, NoPosition = False, MaxTokens = 0, MaxStringBytes = 0\<rparr> src of
        Inl e \<Rightarrow> Inl (ErrInclude ''lex'')
      | Inr toks \<Rightarrow>
          (case Parse (NewStream toks) \<lparr>MaxBlockNesting = 0, MaxTestNesting = 0\<rparr> of
             Inl e \<Rightarrow> Inl (ErrInclude ''parse'')
           | Inr cmds \<Rightarrow>
               (let ops = opts (Script d);
                    ops' = (case IncludeAllowed h of None \<Rightarrow> ops | Some allowed \<Rightarrow> ops\<lparr>Allowed := allowed location\<rparr>) in
                case LoadScript h cmds ops' of
                  Inl (LoadPanic m) \<Rightarrow> Inl (Panic m)
                | Inl e \<Rightarrow> Inl (ErrInclude ''load'')
                | Inr r \<Rightarrow> Inr r)))"

text \<open>A fresh local scope for the included script, and the way back.\<close>

definition enterScope :: "script \<Rightarrow> bytes \<Rightarrow> runtime \<Rightarrow> runtime" where
  "enterScope s key d = d\<lparr>Script := s, Vars := Map.empty, globalVarDecls := {}, MatchVariables := [],
     IncludeState := push key (IncludeState d)\<rparr>"

definition leaveScope :: "bool \<Rightarrow> bytes \<Rightarrow> runtime \<Rightarrow> runtime \<Rightarrow> runtime" where
  "leaveScope onc key d d1 = d1\<lparr>Script := Script d, Vars := Vars d, globalVarDecls := globalVarDecls d,
     MatchVariables := MatchVariables d, IncludeState := markOnce onc key (pop (IncludeState d1))\<rparr>"

text \<open>\<open>executeIncluded\<close>: a return ends the included script only.\<close>

definition executeIncluded :: "unit exec \<Rightarrow> unit exec" where
  "executeIncluded body d =
     (case body d of (Inl ErrReturn, d') \<Rightarrow> (Inr (), d') | (r, d') \<Rightarrow> (r, d'))"

definition includeKey :: "bytes \<Rightarrow> bytes \<Rightarrow> bytes" where
  "includeKey location name = location @ '':'' @ name"

definition CmdInclude_Execute ::
  "host \<Rightarrow> (icmd list \<Rightarrow> unit exec) \<Rightarrow> bytes \<Rightarrow> bool \<Rightarrow> bool \<Rightarrow> bytes \<Rightarrow> unit exec" where
  "CmdInclude_Execute h run location onc opt name d =
     (case LoadScriptSource h of
        None \<Rightarrow> (Inl (ErrNoInterface ''ScriptLoader''), d)
      | Some load \<Rightarrow>
          (let st = IncludeState d; key = includeKey location name in
           if onc \<and> key \<in> once st then (Inr (), d)
           else if key \<in> set (stack st) then
             if onc then (Inr (), d\<lparr>IncludeState := markOnce onc key st\<rparr>) else (Inl (ErrInclude ''recursive''), d)
           else if length (stack st) \<ge> includeMaxDepth then (Inl (ErrInclude ''depth''), d)
           else if location \<noteq> ''personal'' \<and> location \<noteq> ''global'' then (Inl (ErrInclude ''location''), d)
           else
             (case load location name of
                Inl e \<Rightarrow> if opt \<and> \<not> isPanic e then (Inr (), d) else (Inl (if isPanic e then e else ErrInclude ''open''), d)
              | Inr None \<Rightarrow> if opt then (Inr (), d) else (Inl (ErrInclude ''not found''), d)
              | Inr (Some (Inl e)) \<Rightarrow> (Inl (if isPanic e then e else ErrInclude ''read''), d)
              | Inr (Some (Inr src)) \<Rightarrow>
                  (case loadIncluded h d location name src of
                     Inl e \<Rightarrow> (Inl e, d)
                   | Inr (s, cs) \<Rightarrow>
                       (case executeIncluded (run cs) (enterScope s key d) of
                          (r, d1) \<Rightarrow> (r, if panics r then d1 else leaveScope onc key d d1))))))"

section \<open>Commands\<close>

fun execCmd :: "nat \<Rightarrow> host \<Rightarrow> icmd \<Rightarrow> unit exec" and execBlock :: "nat \<Rightarrow> host \<Rightarrow> icmd list \<Rightarrow> unit exec" where
  "execCmd n h CmdStop = (\<lambda>d. (Inl ErrStop, d))"
| "execCmd n h (CmdFileInto mb fl copy create su mid) = CmdFileInto_Execute h mb fl copy create su mid"
| "execCmd n h (CmdRedirect addr copy lst) = CmdRedirect_Execute h addr copy lst"
| "execCmd n h (CmdKeep fl) = CmdKeep_Execute h fl"
| "execCmd n h CmdDiscard = CmdDiscard_Execute h"
| "execCmd n h (CmdSetFlag v fl) = CmdSetFlag_Execute h v fl"
| "execCmd n h (CmdAddFlag v fl) = CmdAddFlag_Execute h v fl"
| "execCmd n h (CmdRemoveFlag v fl) = CmdRemoveFlag_Execute h v fl"
| "execCmd n h (CmdReject r) = CmdReject_Execute h r"
| "execCmd n h (CmdEReject r) = CmdEReject_Execute h r"
| "execCmd n h (CmdIf t b) = CmdIf_Execute h t (execBlock n h b)"
| "execCmd n h (CmdElsif t b) = CmdElsif_Execute h t (execBlock n h b)"
| "execCmd n h (CmdElse b) = CmdElse_Execute (execBlock n h b)"
| "execCmd n h (CmdSet name v ms mx) = CmdSet_Execute h name v ms mx"
| "execCmd n h (CmdVacation c) = CmdVacation_Execute h c"
| "execCmd n h (CmdAddHeader f v lst) = CmdAddHeader_Execute h f v lst"
| "execCmd n h (CmdDeleteHeader m f ps idx lst) = CmdDeleteHeader_Execute h m f ps idx lst"
| "execCmd n h (CmdError msg) = CmdError_Execute h msg"
| "execCmd 0 h (CmdInclude loc onc opt name) = CmdInclude_Execute h (\<lambda>cs d. (Inl ErrFuel, d)) loc onc opt name"
| "execCmd (Suc n) h (CmdInclude loc onc opt name) = CmdInclude_Execute h (\<lambda>cs. execBlock n h cs) loc onc opt name"
| "execCmd n h CmdReturn = (\<lambda>d. (Inl ErrReturn, d))"
| "execCmd n h (CmdGlobal ns) = CmdGlobal_Execute h ns"
| "execCmd n h (CmdNotify m f i ops msg) = CmdNotify_Execute h m f i ops msg"
| "execCmd n h (CmdDebugLog msg) = CmdDebugLog_Execute h msg"
| "execCmd n h (CmdPipe p args copy try) = CmdPipe_Execute h p args copy try"
| "execCmd n h (CmdFilter p args) = CmdFilter_Execute h p args"
| "execCmd n h (CmdExecute p args inp dat out) = CmdExecute_Execute h p args inp dat out"
| "execCmd n h (CmdReport f m t ho) = CmdReport_Execute h f m t ho"
| "execCmd n h (CmdForEveryPart name b) = CmdForEveryPart_Execute h name (execBlock n h b)"
| "execCmd n h (CmdBreak name) = (\<lambda>d. (Inl (ErrBreak name), d))"
| "execCmd n h (CmdExtractText k v ms mx) = CmdExtractText_Execute h k v ms mx"
| "execCmd n h CmdNoop = (\<lambda>d. (Inr (), d))"
| "execBlock n h [] = (\<lambda>d. (Inr (), d))"
| "execBlock n h (c # cs) = seqE (execCmd n h c) (execBlock n h cs)"

section \<open>Scripts\<close>

text \<open>The action for a message that no applied action has disposed of.\<close>

definition implicitKeep :: "host \<Rightarrow> unit exec" where
  "implicitKeep h d =
     (if ImplicitKeep d \<and> \<not> list_ex cancelsImplicitKeep (AppliedActions d)
      then OnAction h (ActionKeep True (RFlags d)) d else (Inr (), d))"

definition Execute :: "host \<Rightarrow> icmd list \<Rightarrow> unit exec" where
  "Execute h cs d =
     (case execBlock includeMaxDepth h cs d of
        (Inl e, d1) \<Rightarrow> if e = ErrStop \<or> e = ErrReturn then (Inr (), d1) else (Inl e, d1)
      | (Inr _, d1) \<Rightarrow> implicitKeep h d1)"

record options =
  LexerOptions :: lex_options
  ParserOptions :: parse_options
  InterpOptions :: interp_options

definition DefaultOptions :: options where
  "DefaultOptions =
     \<lparr>LexerOptions = \<lparr>Filename = [], NoPosition = False, MaxTokens = 5000, MaxStringBytes = 1048576\<rparr>,
      ParserOptions = \<lparr>MaxBlockNesting = 15, MaxTestNesting = 15\<rparr>,
      InterpOptions = \<lparr>MaxActions = 32, MaxVariableNameLen = 32, MaxVariableLen = 4000, SubAddressSep = [],
        Testing = False, DebugLog = False, Allowed = None\<rparr>\<rparr>"

datatype load_failure = LexFailed lex_error | ParseFailed parse_error | LoadFailed load_error

definition Load :: "host \<Rightarrow> bytes \<Rightarrow> options \<Rightarrow> (load_failure, script \<times> icmd list) result" where
  "Load h r ops =
     (case Lex (LexerOptions ops) r of
        Inl e \<Rightarrow> Inl (LexFailed e)
      | Inr toks \<Rightarrow>
          (case Parse (NewStream toks) (ParserOptions ops) of
             Inl e \<Rightarrow> Inl (ParseFailed e)
           | Inr cmds \<Rightarrow> map_sum LoadFailed id (LoadScript h cmds (InterpOptions ops))))"

end
