(* ===== verification/Interp_Laws.thy ===== *)
theory Interp_Laws
  imports Interp Runtime_Laws
begin

text \<open>
  What running a script does to the runtime data, whatever the script is.

  Most operations change neither the applied actions nor the flag of the implicit keep, the
  running script, the stack of included scripts or the stack of MIME parts: they are \<open>quiet\<close>.
  The locale \<open>exec_relation\<close> is the interface between the commands and the handlers that the
  host supplies: a relation between the data before and after that every quiet step, every
  action, every iteration of a loop and every include respects is respected by every test,
  command and script.  It is interpreted, for the handlers of the library, with the relations
  that the theorems need: control state is restored, actions are only appended, and the implicit
  keep is given up only for an action that replaces it.
\<close>

section \<open>Quiet operations\<close>

named_theorems quiet_rules

definition core :: "runtime \<Rightarrow> script \<times> action list \<times> bool \<times> bytes list \<times> mimePart list" where
  "core d = (Script d, AppliedActions d, ImplicitKeep d, stack (IncludeState d), partStack d)"

definition quiet :: "'a exec \<Rightarrow> bool" where
  "quiet m \<longleftrightarrow> (\<forall>d. core (snd (m d)) = core d)"

lemma quietI: "(\<And>d. core (snd (m d)) = core d) \<Longrightarrow> quiet m"
  by (simp add: quiet_def)

lemma quietD: "quiet m \<Longrightarrow> m d = (r, d') \<Longrightarrow> core d' = core d"
  by (metis quiet_def snd_conv)

lemma core_updates [simp]:
  "core (d\<lparr>ifResult := b\<rparr>) = core d"
  "core (d\<lparr>RedirectAddr := bs\<rparr>) = core d"
  "core (d\<lparr>Mailboxes := bs\<rparr>) = core d"
  "core (d\<lparr>RFlags := fl\<rparr>) = core d"
  "core (d\<lparr>Keep := b\<rparr>) = core d"
  "core (d\<lparr>MatchVariables := bs\<rparr>) = core d"
  "core (d\<lparr>Vars := vs\<rparr>) = core d"
  "core (d\<lparr>VacationResponses := rs\<rparr>) = core d"
  "core (d\<lparr>HeaderEdits := es\<rparr>) = core d"
  "core (d\<lparr>GlobalVars := vs\<rparr>) = core d"
  "core (d\<lparr>globalVarDecls := ns\<rparr>) = core d"
  "core (d\<lparr>PipedPrograms := ns\<rparr>) = core d"
  "core (d\<lparr>FilteredMessage := fm\<rparr>) = core d"
  "core (d\<lparr>DebugLogged := bs\<rparr>) = core d"
  "core (d\<lparr>duplicateEntries := en\<rparr>) = core d"
  "core (d\<lparr>IncludeState := markOnce onc key (IncludeState d)\<rparr>) = core d"
  by (simp_all add: core_def markOnce_def)

lemma quiet_pure [quiet_rules]: "quiet (\<lambda>d. (f d, d))"
  by (simp add: quiet_def)

lemma quiet_if [quiet_rules]:
  assumes "quiet m" "quiet k"
  shows "quiet (\<lambda>d. if b d then m d else k d)"
  using assms by (simp add: quiet_def)

lemma quiet_case_option [quiet_rules]:
  assumes "quiet m" "\<And>x. quiet (k x)"
  shows "quiet (\<lambda>d. case z of None \<Rightarrow> m d | Some x \<Rightarrow> k x d)"
  using assms by (cases z) simp_all

lemma quiet_expanding [quiet_rules]:
  assumes "\<And>v. quiet (k v)"
  shows "quiet (expanding h s k)"
  using assms by (simp add: quiet_def expanding_def split: sum.split)

lemma quiet_expandingList [quiet_rules]:
  assumes "\<And>vs. quiet (k vs)"
  shows "quiet (expandingList h l k)"
  using assms by (simp add: quiet_def expandingList_def split: sum.split)

lemma quiet_SetVar [quiet_rules]: "quiet (SetVar U name v)"
  by (rule quietI) (simp add: SetVar_def split: sum.split prod.split)

lemma quiet_tryMatchFrom: "core (snd (tryMatchFrom h t source i ks d)) = core d"
  by (induction ks arbitrary: i) (simp_all split: sum.split prod.split)

lemma quiet_tryMatch [quiet_rules]: "quiet (tryMatch h t v)"
  by (rule quietI) (simp add: tryMatch_def quiet_tryMatchFrom)

lemma quiet_listKeys: "core (snd (listKeys h contains source ks d)) = core d"
  by (induction ks) (simp_all split: sum.split prod.split)

lemma quiet_tryMatchList [quiet_rules]: "quiet (tryMatchList h t v)"
  by (rule quietI) (simp add: tryMatchList_def quiet_listKeys split: option.split)

lemma quiet_testAddress [quiet_rules]: "quiet (testAddress h t part v)"
  using quiet_tryMatch by (simp add: quiet_def testAddress_def split: option.split)

lemma quiet_entryMatch [quiet_rules]: "quiet (entryMatch h t v)"
  using quiet_tryMatch quiet_tryMatchList by (simp add: quiet_def entryMatch_def)

lemma quiet_entryAddress [quiet_rules]: "quiet (entryAddress h t part v)"
  using quiet_testAddress quiet_tryMatchList by (simp add: quiet_def entryAddress_def)

lemma quiet_anyMatch [quiet_rules]:
  assumes "\<And>v. quiet (m v)"
  shows "quiet (anyMatch m vs)"
proof (rule quietI)
  show "core (snd (anyMatch m vs d)) = core d" for d
    using assms by (induction vs arbitrary: d) (auto split: prod.split sum.split dest: quietD)
qed

lemma quiet_matchLoop [quiet_rules]:
  assumes "\<And>v. quiet (m v)"
  shows "quiet (matchLoop h t m vals counted xs k0)"
proof (rule quietI)
  have q: "quiet (anyMatch m vs)" for vs by (rule quiet_anyMatch) (rule assms)
  show "core (snd (matchLoop h t m vals counted xs k0 d)) = core d" for d
    by (induction xs arbitrary: k0 d) (auto split: prod.split sum.split dest: quietD [OF q])
qed

lemma quiet_allExpanded [quiet_rules]: "quiet (allExpanded h p ns)"
proof (rule quietI)
  show "core (snd (allExpanded h p ns d)) = core d" for d
    by (induction ns) (simp_all split: sum.split)
qed

lemma quiet_addressValues [quiet_rules]: "quiet (addressValues h t part vs k0)"
proof (rule quietI)
  have q: "quiet (anyMatch (entryAddress h t part) as)" for as by (intro quiet_rules)
  show "core (snd (addressValues h t part vs k0 d)) = core d" for d
    by (induction vs arbitrary: k0 d) (auto split: prod.split sum.split option.split dest: quietD [OF q])
qed

lemma quiet_AddressTest: "quiet (AddressTest_Check h t part hdrs)"
proof -
  have "core (snd (addressLoop h t part hdrs k0 d)) = core d" for k0 d
    by (induction hdrs arbitrary: k0 d)
      (auto split: prod.split sum.split option.split dest: quietD [OF quiet_addressValues])
  then show ?thesis by (simp add: quiet_def AddressTest_Check_def)
qed

lemma quiet_EnvironmentTest: "quiet (EnvironmentTest_Check h t names)"
proof -
  have "core (snd (environmentLoop h t names k0 known d)) = core d" for k0 known d
    by (induction names arbitrary: k0 known d)
      (auto split: prod.split sum.split option.split dest: quietD [OF quiet_tryMatch])
  then show ?thesis by (simp add: quiet_def EnvironmentTest_Check_def)
qed

lemma quiet_ExistsTest: "quiet (ExistsTest_Check h fs mime anyChild)"
  using quiet_allExpanded by (simp add: quiet_def ExistsTest_Check_def split: sum.split)

lemma quiet_EnvelopeTest: "quiet (EnvelopeTest_Check h t part fs)"
  unfolding EnvelopeTest_Check_def by (intro quiet_rules)

lemma quiet_HeaderTest: "quiet (HeaderTest_Check h t hdrs mime anyChild mode ps)"
proof (rule quietI)
  show "core (snd (HeaderTest_Check h t hdrs mime anyChild mode ps d)) = core d" for d
    unfolding HeaderTest_Check_def checkMime_def
    by (auto split: sum.split simp: quiet_matchLoop [OF quiet_entryMatch, unfolded quiet_def, rule_format])
qed

lemma quiet_SizeTest: "quiet (SizeTest_Check h sz ovr undr)"
  by (simp add: quiet_def SizeTest_Check_def)

lemma quiet_HasFlagTest: "quiet (HasFlagTest_Check h t variables)"
  unfolding HasFlagTest_Check_def by (intro quiet_rules)

lemma quiet_BodyTest: "quiet (BodyTest_Check h t transform cts)"
  by (simp add: quiet_def BodyTest_Check_def split: option.split sum.split)

lemma quiet_TestString: "quiet (TestString_Check h t sources)"
  unfolding TestString_Check_def by (intro quiet_rules)

lemma quiet_matchDatePart [quiet_rules]: "quiet (matchDatePart h m t part)"
  using quiet_tryMatch by (simp add: quiet_def matchDatePart_def split: sum.split)

lemma quiet_DateTest: "quiet (DateTest_Check h m hdr part zone orig idx lst)"
  using quiet_matchDatePart by (simp add: quiet_def DateTest_Check_def split: sum.split option.split)

lemma quiet_CurrentDateTest: "quiet (CurrentDateTest_Check h m part zone)"
  using quiet_matchDatePart by (simp add: quiet_def CurrentDateTest_Check_def Let_def)

lemma quiet_hostTests:
  "quiet (MailboxExistsTest_Check h ms)" "quiet (TestMailboxIDExists_Check h ms)"
  "quiet (TestSpecialUseExists_Check h v ms)" "quiet (TestValidExtList_Check h ms)"
  "quiet (TestValidNotifyMethod_Check h ms)" "quiet (TestNotifyMethodCapability_Check h t v w)"
  unfolding MailboxExistsTest_Check_def TestMailboxIDExists_Check_def TestSpecialUseExists_Check_def
    TestValidExtList_Check_def TestValidNotifyMethod_Check_def TestNotifyMethodCapability_Check_def
  by (intro quiet_rules)+

lemma quiet_scoreMatch [quiet_rules]: "quiet (scoreMatch h t score)"
  using quiet_tryMatch by (simp add: quiet_def scoreMatch_def split: prod.split)

lemma quiet_annotationMatch [quiet_rules]: "quiet (annotationMatch h t r)"
  using quiet_tryMatch by (simp add: quiet_def annotationMatch_def split: sum.split option.split)

lemma quiet_scoreTests: "quiet (SpamTest_Check h t percent)" "quiet (VirusTest_Check h t)"
  unfolding SpamTest_Check_def VirusTest_Check_def by (intro quiet_rules)+

lemma quiet_metadataTests:
  "quiet (TestMetadata_Check h t m a)" "quiet (TestMetadataExists_Check h m as)"
  "quiet (TestServerMetadata_Check h t a)" "quiet (TestServerMetadataExists_Check h as)"
  unfolding TestMetadata_Check_def TestMetadataExists_Check_def TestServerMetadata_Check_def
    TestServerMetadataExists_Check_def
  by (intro quiet_rules)+

lemma quiet_runExecute [quiet_rules]: "quiet (runExecute h p args input dat out)"
  by (rule quietI)
    (auto simp: runExecute_def expanding_def split: option.split sum.split prod.split dest: quietD [OF quiet_SetVar])

lemma quiet_executeCommon: "quiet (executeCommon h p args input dat out)"
  unfolding executeCommon_def
proof (intro quiet_rules)
  show "quiet (\<lambda>d. case expandEach h d args of Inl e \<Rightarrow> (Inl e, d) | Inr as \<Rightarrow> runExecute h v as input dat out d)" for v
    using quiet_runExecute by (simp add: quiet_def split: sum.split)
qed

lemma quiet_storeFlags [quiet_rules]: "quiet (storeFlags h v fl)"
  using quiet_SetVar by (simp add: quiet_def storeFlags_def)

lemma quiet_flagCommands:
  "quiet (CmdSetFlag_Execute h v fl)" "quiet (CmdAddFlag_Execute h v fl)" "quiet (CmdRemoveFlag_Execute h v fl)"
  using quiet_storeFlags [of h v]
  by (simp_all add: quiet_def CmdSetFlag_Execute_def CmdAddFlag_Execute_def CmdRemoveFlag_Execute_def
      expandingList_def split: sum.split)

lemma quiet_variableCommands:
  "quiet (CmdSet_Execute h n v ms mx)" "quiet (CmdExtractText_Execute h k n ms mx)" "quiet (CmdGlobal_Execute h ns)"
proof -
  have "core (snd (declareGlobals (uni h) ns d)) = core d" for d
    by (induction ns arbitrary: d) simp_all
  then show "quiet (CmdGlobal_Execute h ns)" by (simp add: quiet_def CmdGlobal_Execute_def)
  show "quiet (CmdSet_Execute h n v ms mx)"
    using quiet_SetVar by (simp add: quiet_def CmdSet_Execute_def expanding_def split: sum.split)
  show "quiet (CmdExtractText_Execute h k n ms mx)"
    using quiet_SetVar by (simp add: quiet_def CmdExtractText_Execute_def Let_def split: sum.split)
qed

lemma quiet_recordingCommands:
  "quiet (CmdVacation_Execute h c)" "quiet (CmdAddHeader_Execute h f v lst)" "quiet (CmdDebugLog_Execute h msg)"
  "quiet (CmdError_Execute h msg)"
  by (simp_all add: quiet_def CmdVacation_Execute_def CmdAddHeader_Execute_def CmdDebugLog_Execute_def
      CmdError_Execute_def expanding_def expandingList_def split: sum.split)

lemma quiet_deleteMatching: "core (snd (deleteMatching h m f vs d)) = core d"
proof (induction vs arbitrary: d)
  case (Cons x xs)
  then show ?case by (auto split: prod.split sum.split dest: quietD [OF quiet_tryMatch])
qed simp

lemma quiet_CmdDeleteHeader: "quiet (CmdDeleteHeader_Execute h m f ps idx lst)"
  unfolding CmdDeleteHeader_Execute_def
proof (rule quiet_expanding, rule quietI, goal_cases)
  case (1 v d)
  show ?case
    by (auto simp: Let_def quiet_deleteMatching split: sum.split option.split prod.split dest: quietD [OF quiet_tryMatch])
qed

lemma quiet_CmdExecute: "quiet (CmdExecute_Execute h p args inp dat out)"
  by (auto simp: quiet_def CmdExecute_Execute_def split: prod.split sum.split dest: quietD [OF quiet_executeCommon])

lemmas quiet_tests =
  quiet_AddressTest [unfolded quiet_def, rule_format] quiet_EnvironmentTest [unfolded quiet_def, rule_format]
  quiet_ExistsTest [unfolded quiet_def, rule_format] quiet_EnvelopeTest [unfolded quiet_def, rule_format]
  quiet_HeaderTest [unfolded quiet_def, rule_format] quiet_SizeTest [unfolded quiet_def, rule_format]
  quiet_HasFlagTest [unfolded quiet_def, rule_format] quiet_BodyTest [unfolded quiet_def, rule_format]
  quiet_TestString [unfolded quiet_def, rule_format] quiet_DateTest [unfolded quiet_def, rule_format]
  quiet_CurrentDateTest [unfolded quiet_def, rule_format] quiet_hostTests [unfolded quiet_def, rule_format]
  quiet_scoreTests [unfolded quiet_def, rule_format] quiet_metadataTests [unfolded quiet_def, rule_format]
  quiet_executeCommon [unfolded quiet_def, rule_format]

lemma snd_executeIncluded: "snd (executeIncluded body d) = snd (body d)"
  by (simp add: executeIncluded_def split: prod.split sum.split exec_error.split)

lemma state_cases:
  "P (snd x) \<Longrightarrow> P (snd y) \<Longrightarrow> P (snd (if b then x else y))"
  "P (snd x') \<Longrightarrow> (\<And>v. P (snd (f v))) \<Longrightarrow> P (snd (case z of None \<Rightarrow> x' | Some v \<Rightarrow> f v))"
  "(\<And>u. P (snd (m u))) \<Longrightarrow> (\<And>v. P (snd (k v))) \<Longrightarrow> P (snd (case w of Inl u \<Rightarrow> m u | Inr v \<Rightarrow> k v))"
  by (simp_all split: option.split sum.split)

lemma result_cases:
  "P x \<Longrightarrow> P y \<Longrightarrow> P (if b then x else y)"
  "P x' \<Longrightarrow> (\<And>v. P (f v)) \<Longrightarrow> P (case z of None \<Rightarrow> x' | Some v \<Rightarrow> f v)"
  "(\<And>u. P (m u)) \<Longrightarrow> (\<And>v. P (k v)) \<Longrightarrow> P (case w of Inl u \<Rightarrow> m u | Inr v \<Rightarrow> k v)"
  "(\<And>a c. P (g a c)) \<Longrightarrow> P (case q of (a, c) \<Rightarrow> g a c)"
  by (simp_all split: option.split sum.split prod.split)

section \<open>Relations that every command respects\<close>

definition honours :: "(runtime \<Rightarrow> runtime \<Rightarrow> bool) \<Rightarrow> 'a exec \<Rightarrow> bool" where
  "honours R m \<longleftrightarrow> (\<forall>d. R d (snd (m d)))"

text \<open>The same for results other than a panic, which leaves a state that nothing reads.\<close>

definition orderly :: "(runtime \<Rightarrow> runtime \<Rightarrow> bool) \<Rightarrow> 'a exec \<Rightarrow> bool" where
  "orderly R m \<longleftrightarrow> (\<forall>d. \<not> panics (fst (m d)) \<longrightarrow> R d (snd (m d)))"

lemma orderlyD: "orderly R m \<Longrightarrow> m d = (r, d') \<Longrightarrow> \<not> panics r \<Longrightarrow> R d d'"
  by (metis orderly_def fst_conv snd_conv)

lemma honours_orderly: "honours R m \<Longrightarrow> orderly R m"
  by (simp add: honours_def orderly_def)

lemma panics_simps [simp]: "panics (Inl e) = isPanic e" "\<not> panics (Inr x)"
  by (simp_all add: panics_def)

lemma panics_executeIncluded: "panics (fst (executeIncluded body d)) = panics (fst (body d))"
  by (simp add: executeIncluded_def split: prod.split sum.split exec_error.split)

lemma honoursD: "honours R m \<Longrightarrow> m d = (r, d') \<Longrightarrow> R d d'"
  by (metis honours_def snd_conv)

locale exec_relation =
  fixes h :: host and R :: "runtime \<Rightarrow> runtime \<Rightarrow> bool"
  assumes R_core: "core d' = core d \<Longrightarrow> R d d'"
    and R_trans: "R d1 d2 \<Longrightarrow> R d2 d3 \<Longrightarrow> R d1 d3"
    and R_action: "OnAction h a d = (r, d') \<Longrightarrow> R d d'"
    and R_cancel: "OnAction h a d = (Inr (), d') \<Longrightarrow> cancelsImplicitKeep a \<Longrightarrow> R d (d'\<lparr>ImplicitKeep := False\<rparr>)"
    and R_duplicate: "IsDuplicate h = Some f \<Longrightarrow> f handle i secs lst d = (r', d') \<Longrightarrow> R d d'"
    and R_part: "R (d\<lparr>partStack := partStack d @ [p]\<rparr>) d' \<Longrightarrow> R d (d'\<lparr>partStack := butlast (partStack d')\<rparr>)"
    and R_include: "R (enterScope s key d) d' \<Longrightarrow> R d (leaveScope onc key d d')"
begin

lemma resp_quiet: "quiet m \<Longrightarrow> honours R m"
  by (simp add: honours_def quiet_def R_core)

lemma R_refl: "R d d"
  by (simp add: R_core)

lemma resp_expanding: "(\<And>v. honours R (k v)) \<Longrightarrow> honours R (expanding g s k)"
  by (simp add: honours_def expanding_def R_refl split: sum.split)

lemma resp_expandingList: "(\<And>vs. honours R (k vs)) \<Longrightarrow> honours R (expandingList g l k)"
  by (simp add: honours_def expandingList_def R_refl split: sum.split)

lemma resp_if: "honours R m \<Longrightarrow> honours R k \<Longrightarrow> honours R (\<lambda>d. if b d then m d else k d)"
  by (simp add: honours_def)

lemma resp_pure: "honours R (\<lambda>d. (f d, d))"
  by (rule resp_quiet) (rule quiet_pure)

lemma resp_case_sum: "(\<And>x. honours R (m x)) \<Longrightarrow> (\<And>y. honours R (k y)) \<Longrightarrow>
    honours R (\<lambda>d. case z d of Inl x \<Rightarrow> m x d | Inr y \<Rightarrow> k y d)"
  by (simp add: honours_def split: sum.split)

lemma resp_actionFlags: "(\<And>fs. honours R (k fs)) \<Longrightarrow> honours R (actionFlags g cf k)"
  by (simp add: honours_def actionFlags_def expandingList_def R_refl split: sum.split)

lemma resp_acting:
  assumes "\<And>d. core (snd (k d)) = core d \<or> cancelsImplicitKeep a \<and> core (snd (k d)) = core (d\<lparr>ImplicitKeep := False\<rparr>)"
  shows "honours R (acting h a k)"
  unfolding honours_def
proof
  fix d
  obtain r d' where act: "OnAction h a d = (r, d')" by (cases "OnAction h a d")
  show "R d (snd (acting h a k d))"
  proof (cases r)
    case Inl
    with act show ?thesis by (auto simp: acting_def intro: R_action)
  next
    case (Inr u)
    then have eq: "acting h a k d = k d'" using act by (simp add: acting_def)
    from assms [of d'] show ?thesis
    proof
      assume "core (snd (k d')) = core d'"
      then show ?thesis using eq act by (metis R_action R_core R_trans)
    next
      assume c: "cancelsImplicitKeep a \<and> core (snd (k d')) = core (d'\<lparr>ImplicitKeep := False\<rparr>)"
      then have "R d (d'\<lparr>ImplicitKeep := False\<rparr>)" using act Inr by (simp add: R_cancel)
      moreover have "R (d'\<lparr>ImplicitKeep := False\<rparr>) (snd (k d'))" using c by (simp add: R_core)
      ultimately show ?thesis using eq by (simp add: R_trans [of d "d'\<lparr>ImplicitKeep := False\<rparr>"])
    qed
  qed
qed

lemmas resp_rules = resp_expanding resp_expandingList resp_if resp_pure resp_case_sum resp_actionFlags

lemma resp_bind:
  assumes m: "honours R m" and k: "\<And>x. honours R (k x)"
  shows "honours R (\<lambda>d. case m d of (Inl e, d') \<Rightarrow> (f e, d') | (Inr x, d') \<Rightarrow> k x d')"
proof -
  have "R d (snd (k x d'))" if "m d = (Inr x, d')" for d x d'
    using R_trans [OF honoursD [OF m that]] k [of x] by (simp add: honours_def)
  then show ?thesis
    using honoursD [OF m] by (auto simp: honours_def split: prod.split sum.split)
qed

lemma resp_filterCommon: "honours R (filterCommon h p args)"
proof -
  have run: "quiet (runFilter h q as)" for q as
    by (simp add: quiet_def runFilter_def split: option.split sum.split)
  have act: "R d d2" if "runFilter h q as d = (r, d1)" "OnAction h a d1 = (r', d2)" for q as d r d1 a r' d2
    using R_trans [OF R_core [OF quietD [OF run that(1)]] R_action [OF that(2)]] .
  have "honours R (\<lambda>d. case runFilter h q as d of
        (Inl e, d1) \<Rightarrow> (Inl e, d1)
      | (Inr _, d1) \<Rightarrow> (case OnAction h (ActionFilter q as) d1 of
           (Inl e, d2) \<Rightarrow> (Inl e, d2) | (Inr _, d2) \<Rightarrow> (Inr (FilteredMessage d1 \<noteq> None), d2)))" for q as
    using R_core [OF quietD [OF run]] act by (auto simp: honours_def split: prod.split sum.split)
  then show ?thesis
    unfolding filterCommon_def by (intro resp_rules)
qed

lemma resp_TestDuplicate: "honours R (TestDuplicate_Check h hn secs lst kind param)"
proof -
  have "R d (snd (f hn i secs lst d))" if "IsDuplicate h = Some f" for f i d
    using R_duplicate [OF that, of hn i secs lst d] by (cases "f hn i secs lst d") simp
  then show ?thesis
    by (auto simp: honours_def TestDuplicate_Check_def R_refl split: option.split sum.split)
qed

lemma resp_Check: "honours R (Check h t)"
proof (induction t)
  case (AllOfTest ts)
  then have "honours R (checkAll h ts)"
  proof (induction ts)
    case (Cons t ts)
    then have "honours R (\<lambda>d. case Check h t d of (Inl e, d') \<Rightarrow> (Inl e, d')
        | (Inr ok, d') \<Rightarrow> (\<lambda>ok d'. if ok then checkAll h ts d' else (Inr False, d')) ok d')"
      by (intro resp_bind resp_if resp_pure) simp_all
    then show ?case by (simp add: honours_def)
  qed (simp add: honours_def R_refl)
  then show ?case by (simp add: honours_def)
next
  case (AnyOfTest ts)
  then have "honours R (checkAny h ts)"
  proof (induction ts)
    case (Cons t ts)
    then have "honours R (\<lambda>d. case Check h t d of (Inl e, d') \<Rightarrow> (Inl e, d')
        | (Inr ok, d') \<Rightarrow> (\<lambda>ok d'. if ok then (Inr True, d') else checkAny h ts d') ok d')"
      by (intro resp_bind resp_if resp_pure) simp_all
    then show ?case by (simp add: honours_def)
  qed (simp add: honours_def R_refl)
  then show ?case by (simp add: honours_def)
next
  case (NotTest t)
  then have "honours R (\<lambda>d. case Check h t d of (Inl e, d') \<Rightarrow> (Inl e, d')
      | (Inr ok, d') \<Rightarrow> (\<lambda>ok d'. (Inr (\<not> ok), d')) ok d')"
    by (intro resp_bind resp_pure) simp_all
  then show ?case by (simp add: honours_def)
next
  case (TestDuplicate x1 x2 x3 x4 x5)
  show ?case using resp_TestDuplicate by (simp add: honours_def)
next
  case (TestFilter x1 x2)
  show ?case using resp_filterCommon by (simp add: honours_def)
qed (simp_all add: honours_def R_refl R_core quiet_tests)

lemma resp_actions:
  "honours R (CmdKeep_Execute h fl)" "honours R (CmdDiscard_Execute h)"
  "honours R (CmdReject_Execute h r)" "honours R (CmdEReject_Execute h r)"
  "honours R (CmdNotify_Execute h m f i ops msg)" "honours R (CmdReport_Execute h f' msg t ho)"
  unfolding CmdKeep_Execute_def CmdDiscard_Execute_def CmdReject_Execute_def CmdEReject_Execute_def
    CmdNotify_Execute_def CmdReport_Execute_def
  by (intro resp_rules resp_acting; simp add: core_def)+

lemma resp_FileInto: "honours R (CmdFileInto_Execute h mb fl copy create su mid)"
  unfolding CmdFileInto_Execute_def
  by (intro resp_rules resp_acting) (auto simp: core_def)

lemma resp_Redirect: "honours R (CmdRedirect_Execute h addr copy lst)"
  unfolding CmdRedirect_Execute_def Let_def
  by (intro resp_rules resp_acting) (auto simp: core_def)

lemma R_pipe:
  assumes "OnAction h (ActionPipe p args copy try) (d\<lparr>PipedPrograms := ps\<rparr>) = (r, d1)"
  shows "R d d1"
    and "R d (d1\<lparr>PipedPrograms := qs\<rparr>)"
    and "r = Inr () \<Longrightarrow> \<not> copy \<and> \<not> try \<Longrightarrow> R d (d1\<lparr>ImplicitKeep := False\<rparr>)"
proof -
  have start: "R d (d\<lparr>PipedPrograms := ps\<rparr>)" by (simp add: R_core)
  show "R d d1" using R_trans [OF start R_action [OF assms]] .
  then show "R d (d1\<lparr>PipedPrograms := qs\<rparr>)" by (rule R_trans) (simp add: R_core)
  show "R d (d1\<lparr>ImplicitKeep := False\<rparr>)" if "r = Inr ()" "\<not> copy \<and> \<not> try"
  proof (rule R_trans [OF start])
    show "R (d\<lparr>PipedPrograms := ps\<rparr>) (d1\<lparr>ImplicitKeep := False\<rparr>)"
      using assms that by (simp add: R_cancel [of "ActionPipe p args copy try"])
  qed
qed

lemma resp_Pipe: "honours R (CmdPipe_Execute h p args copy try)"
  unfolding CmdPipe_Execute_def
proof (intro resp_if resp_pure resp_expanding resp_case_sum, goal_cases)
  case (1 v y)
  show ?case
    unfolding honours_def
  proof
    fix d :: runtime
    let ?d = "d\<lparr>PipedPrograms := insert v (PipedPrograms d)\<rparr>"
    obtain r d1 where act: "OnAction h (ActionPipe v (the y) copy try) ?d = (r, d1)"
      by (cases "OnAction h (ActionPipe v (the y) copy try) ?d")
    note R = R_pipe [OF act]
    show "R d (snd (case y of
          None \<Rightarrow> if try then (Inr (), d) else (Inl ErrProgramArg, d)
        | Some args \<Rightarrow>
            if v \<in> PipedPrograms d then if try then (Inr (), d) else (Inl (ErrDuplicatePipe v), d)
            else (case OnAction h (ActionPipe v args copy try) ?d of
                 (Inl e, d1) \<Rightarrow> if try \<and> \<not> isPanic e then (Inr (), d1\<lparr>PipedPrograms := PipedPrograms d1 - {v}\<rparr>)
                   else (Inl e, d1)
               | (Inr _, d1) \<Rightarrow> (Inr (), if \<not> copy \<and> \<not> try then d1\<lparr>ImplicitKeep := False\<rparr> else d1))))"
      using act R by (cases y; cases r) (simp_all add: R_refl)
  qed
qed

lemma resp_Filter: "honours R (CmdFilter_Execute h p args)"
proof -
  have "honours R (\<lambda>d. case filterCommon h p args d of (Inl e, d') \<Rightarrow> (Inl e, d')
      | (Inr x, d') \<Rightarrow> (\<lambda>x d. (Inr (), d)) x d')"
    by (intro resp_bind resp_filterCommon resp_pure)
  then show ?thesis by (simp add: honours_def CmdFilter_Execute_def)
qed

lemma resp_If:
  assumes "orderly R body"
  shows "orderly R (CmdIf_Execute h t body)"
proof -
  have test: "R d d1" if "Check h t d = (r, d1)" for d r d1 using honoursD [OF resp_Check that] .
  have run: "R d d2" if "Check h t d = (Inr x, d1)" "body d1 = (r, d2)" "\<not> panics r" for d x d1 r d2
    using R_trans [OF test [OF that(1)] orderlyD [OF assms that(2,3)]] .
  have set: "R d d1 \<Longrightarrow> R d (d1\<lparr>ifResult := b\<rparr>)" for d d1 b 
    by (erule R_trans) (rule R_core, simp add: core_def)
  show ?thesis
    unfolding orderly_def CmdIf_Execute_def
    by (auto split: prod.split sum.split intro: test set dest: run)
qed

lemma resp_Elsif: "orderly R body \<Longrightarrow> orderly R (CmdElsif_Execute h t body)"
  using resp_If [of body t] by (simp add: orderly_def CmdElsif_Execute_def R_refl)

lemma resp_Else: "orderly R body \<Longrightarrow> orderly R (CmdElse_Execute body)"
  by (simp add: orderly_def CmdElse_Execute_def R_refl)

lemma resp_forParts:
  assumes "orderly R body"
  shows "orderly R (forParts name body ps)"
  unfolding orderly_def
proof (intro allI)
  show "\<not> panics (fst (forParts name body ps d)) \<longrightarrow> R d (snd (forParts name body ps d))" for d
  proof (induction ps arbitrary: d)
    case (Cons p ps)
    obtain r d1 where b: "body (d\<lparr>partStack := partStack d @ [p]\<rparr>) = (r, d1)"
      by (cases "body (d\<lparr>partStack := partStack d @ [p]\<rparr>)")
    let ?d2 = "d1\<lparr>partStack := butlast (partStack d1)\<rparr>"
    have step: "R d ?d2" if "\<not> panics r"
      by (rule R_part) (rule orderlyD [OF assms b that])
    then have "R d (snd (forParts name body ps ?d2))" if "\<not> panics r" "\<not> panics (fst (forParts name body ps ?d2))"
      using R_trans Cons.IH that by blast
    then show ?case
      using step by (auto simp: b Let_def split: sum.split exec_error.split)
  qed (simp add: R_refl)
qed

lemma resp_ForEveryPart: "orderly R body \<Longrightarrow> orderly R (CmdForEveryPart_Execute h name body)"
  using resp_forParts [of body]
  by (simp add: orderly_def CmdForEveryPart_Execute_def R_refl split: sum.split option.split)

lemma resp_executeIncluded: "orderly R body \<Longrightarrow> orderly R (executeIncluded body)"
  by (simp add: orderly_def snd_executeIncluded panics_executeIncluded)

lemma resp_Include:
  assumes "\<And>cs. orderly R (run cs)"
  shows "orderly R (CmdInclude_Execute h run loc onc opt name)"
proof -
  have inc: "R d d2" if "executeIncluded (run cs) (enterScope s key d) = (r, d1)" "\<not> panics r"
      "d2 = (if panics r then d1 else leaveScope onc key d d1)" for d d1 d2 r s key cs
    using R_include [OF orderlyD [OF resp_executeIncluded [OF assms] that(1,2)]] that by simp
  have once: "R d (d\<lparr>IncludeState := st\<rparr>)" if "stack st = stack (IncludeState d)" for d st
    using that by (intro R_core) (simp add: core_def)
  let ?P = "\<lambda>d x. \<not> panics (fst x) \<longrightarrow> R d (snd x)"
  have included: "?P d (case executeIncluded (run cs) (enterScope s key d) of
      (r, d1) \<Rightarrow> (r, if panics r then d1 else leaveScope onc key d d1))" for d cs s key
    by (cases "executeIncluded (run cs) (enterScope s key d)") (auto intro: inc)
  show ?thesis
    unfolding orderly_def CmdInclude_Execute_def Let_def
    by (rule allI, intro included result_cases [where P = "?P d" for d]) (simp_all add: R_refl once markOnce_def)
qed

lemma resp_seqE: "orderly R m \<Longrightarrow> orderly R k \<Longrightarrow> orderly R (seqE m k)"
  unfolding orderly_def seqE_def by (auto split: prod.split sum.split intro: R_trans) (metis R_trans fst_conv panics_simps snd_conv)+

lemmas resp_quiets = quiet_flagCommands [THEN resp_quiet] quiet_variableCommands [THEN resp_quiet]
  quiet_recordingCommands [THEN resp_quiet] quiet_CmdDeleteHeader [THEN resp_quiet] quiet_CmdExecute [THEN resp_quiet]

lemmas resp_commands = resp_pure resp_actions resp_FileInto resp_Redirect resp_Pipe resp_Filter resp_quiets

theorem resp_exec:
  "orderly R (execCmd n h c)" "orderly R (execBlock n h cs)"
proof (induction n g \<equiv> h c and n g \<equiv> h cs rule: execCmd_execBlock.induct)
qed (simp_all add: resp_commands [THEN honours_orderly] resp_If resp_Elsif resp_Else resp_ForEveryPart resp_Include resp_seqE)

end

section \<open>The handlers of the library\<close>

text \<open>
  The host with the action handler that \<open>NewRuntimeData\<close> installs and the duplicate tracker in
  memory, reading a clock.
\<close>

definition withDefaults :: "host \<Rightarrow> (runtime \<Rightarrow> int) \<Rightarrow> host" where
  "withDefaults h clk = h\<lparr>OnAction := DefaultOnAction,
     IsDuplicate := Some (\<lambda>handle i secs lst d. MemoryDuplicateTracker (clk d) handle i secs lst d)\<rparr>"

lemma withDefaults_simps [simp]:
  "OnAction (withDefaults h clk) = DefaultOnAction"
  "IsDuplicate (withDefaults h clk) = Some (\<lambda>handle i secs lst d. MemoryDuplicateTracker (clk d) handle i secs lst d)"
  by (simp_all add: withDefaults_def)

lemma tracker_core: "MemoryDuplicateTracker now handle i secs lst d = (r, d') \<Longrightarrow> core d' = core d"
  by (auto simp: MemoryDuplicateTracker_def Let_def split: option.splits if_splits)

lemma DefaultOnAction_state: "DefaultOnAction a d = (r, d') \<Longrightarrow> d' = d\<lparr>AppliedActions := AppliedActions d @ [a]\<rparr>"
  by (auto simp: DefaultOnAction_def Let_def split: if_splits)

definition sameControl :: "runtime \<Rightarrow> runtime \<Rightarrow> bool" where
  "sameControl d d' \<longleftrightarrow>
     Script d' = Script d \<and> stack (IncludeState d') = stack (IncludeState d) \<and> partStack d' = partStack d"

definition onlyAppends :: "runtime \<Rightarrow> runtime \<Rightarrow> bool" where
  "onlyAppends d d' \<longleftrightarrow> (\<exists>as. AppliedActions d' = AppliedActions d @ as)"

text \<open>The message is accounted for: the implicit keep is still due, or an action has replaced it.\<close>

definition accounted :: "runtime \<Rightarrow> bool" where
  "accounted d \<longleftrightarrow> ImplicitKeep d \<or> list_ex cancelsImplicitKeep (AppliedActions d)"

definition keepsAccounted :: "runtime \<Rightarrow> runtime \<Rightarrow> bool" where
  "keepsAccounted d d' \<longleftrightarrow> (accounted d \<longrightarrow> accounted d')"

interpretation control: exec_relation "withDefaults h clk" sameControl for h clk
  by unfold_locales
    (auto simp: sameControl_def core_def enterScope_def leaveScope_def push_def pop_def markOnce_def
      dest!: DefaultOnAction_state tracker_core)

interpretation appends: exec_relation "withDefaults h clk" onlyAppends for h clk
proof unfold_locales
  show "onlyAppends d1 d3" if "onlyAppends d1 d2" "onlyAppends d2 d3" for d1 d2 d3
    using that by (auto simp: onlyAppends_def)
qed (auto simp: onlyAppends_def core_def enterScope_def leaveScope_def dest!: DefaultOnAction_state tracker_core)

interpretation accounts: exec_relation "withDefaults h clk" keepsAccounted for h clk
  by unfold_locales
    (auto simp: keepsAccounted_def accounted_def core_def enterScope_def leaveScope_def
      dest!: DefaultOnAction_state tracker_core)

end
