(* ===== verification/Interp_Theorems.thy ===== *)
theory Interp_Theorems
  imports Interp_Laws
begin

text \<open>
  Theorems about running scripts: the fuel of \<open>execBlock\<close> is no restriction, the message is
  always accounted for, an include gives back the scope of the script that includes, chains of
  \<open>if\<close>, \<open>elsif\<close> and \<open>else\<close> run the branch of the first test that holds.
\<close>

section \<open>Fuel\<close>

definition depth :: "runtime \<Rightarrow> nat" where
  "depth d = length (stack (IncludeState d))"

definition sameDepth :: "nat \<Rightarrow> unit exec \<Rightarrow> unit exec \<Rightarrow> bool" where
  "sameDepth k m m' \<longleftrightarrow> (\<forall>d. depth d = k \<longrightarrow> m d = m' d)"

lemma sameDepthD: "sameDepth k m m' \<Longrightarrow> depth d = k \<Longrightarrow> m d = m' d"
  by (simp add: sameDepth_def)

lemma depth_control: "sameControl d d' \<Longrightarrow> depth d' = depth d"
  by (simp add: sameControl_def depth_def)

lemma depth_enterScope [simp]: "depth (enterScope s key d) = Suc (depth d)"
  by (simp add: depth_def enterScope_def push_def)

lemma depth_updates [simp]:
  "depth (d\<lparr>partStack := ps\<rparr>) = depth d" "depth (d\<lparr>ifResult := b\<rparr>) = depth d"
  by (simp_all add: depth_def)

lemma sameDepth_If:
  assumes "sameDepth k m m'"
  shows "sameDepth k (CmdIf_Execute (withDefaults h clk) t m) (CmdIf_Execute (withDefaults h clk) t m')"
  unfolding sameDepth_def
proof (intro allI impI)
  fix d assume d: "depth d = k"
  obtain r d1 where c: "Check (withDefaults h clk) t d = (r, d1)" by (cases "Check (withDefaults h clk) t d")
  have "depth d1 = k" using honoursD [OF control.resp_Check c] d by (simp add: depth_control)
  then have "m d1 = m' d1" using assms by (simp add: sameDepth_def)
  then show "CmdIf_Execute (withDefaults h clk) t m d = CmdIf_Execute (withDefaults h clk) t m' d"
    by (cases r) (simp_all add: CmdIf_Execute_def c)
qed

lemma sameDepth_Elsif:
  assumes "sameDepth k m m'"
  shows "sameDepth k (CmdElsif_Execute (withDefaults h clk) t m) (CmdElsif_Execute (withDefaults h clk) t m')"
  using sameDepth_If [OF assms] by (simp add: sameDepth_def CmdElsif_Execute_def)

lemma sameDepth_Else: "sameDepth k m m' \<Longrightarrow> sameDepth k (CmdElse_Execute m) (CmdElse_Execute m')"
  by (simp add: sameDepth_def CmdElse_Execute_def)

lemma sameDepth_forParts:
  assumes "sameDepth k m m'" "orderly sameControl m"
  shows "depth d = k \<Longrightarrow> forParts name m ps d = forParts name m' ps d"
proof (induction ps arbitrary: d)
  case (Cons p ps)
  let ?d = "d\<lparr>partStack := partStack d @ [p]\<rparr>"
  obtain r d1 where b: "m ?d = (r, d1)" by (cases "m ?d")
  then have b': "m' ?d = (r, d1)" using sameDepthD [OF assms(1), of ?d] Cons.prems by simp
  have "\<not> panics r \<Longrightarrow> depth d1 = k" using orderlyD [OF assms(2) b] Cons.prems by (simp add: depth_control)
  then show ?case by (cases r) (simp_all add: b b' Cons.IH Let_def)
qed simp

lemma sameDepth_ForEveryPart:
  assumes "sameDepth k m m'" "orderly sameControl m"
  shows "sameDepth k (CmdForEveryPart_Execute h name m) (CmdForEveryPart_Execute h name m')"
  using sameDepth_forParts [OF assms]
  by (simp add: sameDepth_def CmdForEveryPart_Execute_def split: sum.split option.split)

lemma sameDepth_seqE:
  assumes "sameDepth k m m'" "orderly sameControl m" "sameDepth k n n'"
  shows "sameDepth k (seqE m n) (seqE m' n')"
  unfolding sameDepth_def
proof (intro allI impI)
  fix d assume d: "depth d = k"
  obtain r d1 where b: "m d = (r, d1)" by (cases "m d")
  have "\<not> panics r \<Longrightarrow> depth d1 = k" using orderlyD [OF assms(2) b] d by (simp add: depth_control)
  then show "seqE m n d = seqE m' n' d"
    using b assms(1,3) d by (simp add: seqE_def sameDepth_def split: sum.split)
qed

lemma sameDepth_Include:
  assumes "\<And>cs. k < includeMaxDepth \<Longrightarrow> sameDepth (Suc k) (run cs) (run' cs)"
  shows "sameDepth k (CmdInclude_Execute h run loc onc opt name) (CmdInclude_Execute h run' loc onc opt name)"
  unfolding sameDepth_def
proof (intro allI impI)
  fix d assume d: "depth d = k"
  show "CmdInclude_Execute h run loc onc opt name d = CmdInclude_Execute h run' loc onc opt name d"
  proof (cases "k < includeMaxDepth")
    case True
    then have eq: "executeIncluded (run cs) (enterScope s key d) = executeIncluded (run' cs) (enterScope s key d)" for cs s key
      using sameDepthD [OF assms, of "enterScope s key d" cs] d by (simp add: executeIncluded_def)
    show ?thesis unfolding CmdInclude_Execute_def eq by (rule refl)
  next
    case False
    then show ?thesis
      using d by (cases "LoadScriptSource h") (simp_all add: CmdInclude_Execute_def depth_def Let_def)
  qed
qed

lemma sameDepth_refl: "sameDepth k m m"
  by (simp add: sameDepth_def)

lemma sameDepth_exec:
  "includeMaxDepth \<le> k + n \<Longrightarrow> includeMaxDepth \<le> k + m \<Longrightarrow>
     sameDepth k (execCmd n (withDefaults h clk) c) (execCmd m (withDefaults h clk) c)"
  "includeMaxDepth \<le> k + n \<Longrightarrow> includeMaxDepth \<le> k + m \<Longrightarrow>
     sameDepth k (execBlock n (withDefaults h clk) cs) (execBlock m (withDefaults h clk) cs)"
proof (induction n g \<equiv> "withDefaults h clk" c and n g \<equiv> "withDefaults h clk" cs
    arbitrary: k m and k m rule: execCmd_execBlock.induct)
  case (11 n t b)
  then show ?case by (simp only: execCmd.simps) (rule sameDepth_If)
next
  case (12 n t b)
  then show ?case by (simp only: execCmd.simps) (rule sameDepth_Elsif)
next
  case (13 n b)
  then show ?case by (simp only: execCmd.simps) (rule sameDepth_Else)
next
  case (19 loc onc opt name)
  then show ?case by (cases m; simp only: execCmd.simps) (rule sameDepth_Include; simp)+
next
  case (20 n loc onc opt name)
  then show ?case by (cases m; simp only: execCmd.simps) (rule sameDepth_Include; simp)+
next
  case (29 n name b)
  then show ?case by (simp only: execCmd.simps) (rule sameDepth_ForEveryPart [OF _ control.resp_exec(2)])
next
  case (34 n c cs)
  then show ?case by (simp only: execBlock.simps) (rule sameDepth_seqE [OF _ control.resp_exec(1)])
qed (simp_all add: sameDepth_refl)

section \<open>Scopes\<close>

lemma include_state:
  "panics (fst (CmdInclude_Execute h run loc onc opt name d)) \<or>
   (\<exists>st. snd (CmdInclude_Execute h run loc onc opt name d) = d\<lparr>IncludeState := st\<rparr>) \<or>
   (\<exists>key d1. snd (CmdInclude_Execute h run loc onc opt name d) = leaveScope onc key d d1)"
proof -
  let ?P = "\<lambda>x. panics (fst x) \<or> (\<exists>st. snd x = d\<lparr>IncludeState := st\<rparr>) \<or> (\<exists>key d1. snd x = leaveScope onc key d d1)"
  have same: "\<exists>st. d = d\<lparr>IncludeState := st\<rparr>" by (intro exI [of _ "IncludeState d"]) simp
  have left: "?P (case m of (r, d1) \<Rightarrow> (r, if panics r then d1 else leaveScope onc key d d1))" for m :: "(exec_error + unit) \<times> runtime" and key
    by (cases m) auto
  show ?thesis
    unfolding CmdInclude_Execute_def Let_def
    by (intro left result_cases [where P = ?P]) (auto simp: same)
qed

section \<open>Chains of conditions\<close>

text \<open>
  What a chain means: the tests in order up to the first that holds, then its block; the rest
  when none holds.
\<close>

fun chain :: "host \<Rightarrow> (itest \<times> unit exec) list \<Rightarrow> unit exec \<Rightarrow> unit exec" where
  "chain h [] els d = els d"
| "chain h ((t, body) # cs) els d =
     (case Check h t d of
        (Inl e, d1) \<Rightarrow> (Inl e, d1)
      | (Inr True, d1) \<Rightarrow>
          (case body d1 of (Inl e, d2) \<Rightarrow> (Inl e, d2) | (Inr _, d2) \<Rightarrow> (Inr (), d2\<lparr>ifResult := True\<rparr>))
      | (Inr False, d1) \<Rightarrow> chain h cs els (d1\<lparr>ifResult := False\<rparr>))"

definition elsifs :: "(itest \<times> icmd list) list \<Rightarrow> icmd list" where
  "elsifs = map (\<lambda>(t, b). CmdElsif t b)"

definition blocks :: "nat \<Rightarrow> host \<Rightarrow> (itest \<times> icmd list) list \<Rightarrow> (itest \<times> unit exec) list" where
  "blocks n h = map (\<lambda>(t, b). (t, execBlock n h b))"

lemma elsifs_taken:
  "ifResult d \<Longrightarrow> execBlock n h (elsifs cs @ [CmdElse els]) d = (Inr (), d)"
  by (induction cs) (auto simp: elsifs_def seqE_def CmdElsif_Execute_def CmdElse_Execute_def)

lemma if_then_elsifs:
  assumes "\<And>d. \<not> ifResult d \<Longrightarrow> execBlock n h (elsifs cs @ [CmdElse els]) d = chain h (blocks n h cs) (execBlock n h els) d"
  shows "seqE (CmdIf_Execute h t (execBlock n h b)) (execBlock n h (elsifs cs @ [CmdElse els])) d =
    chain h ((t, execBlock n h b) # blocks n h cs) (execBlock n h els) d"
proof -
  obtain r d1 where c: "Check h t d = (r, d1)" by (cases "Check h t d")
  obtain r2 d2 where b: "execBlock n h b d1 = (r2, d2)" by (cases "execBlock n h b d1")
  show ?thesis
    using c b assms [of "d1\<lparr>ifResult := False\<rparr>"]
    by (cases r; cases r2) (auto simp: seqE_def CmdIf_Execute_def elsifs_taken split: bool.split)
qed

lemma elsifs_chain:
  "\<not> ifResult d \<Longrightarrow> execBlock n h (elsifs cs @ [CmdElse els]) d = chain h (blocks n h cs) (execBlock n h els) d"
proof (induction cs arbitrary: d)
  case Nil
  then show ?case
    by (auto simp: elsifs_def blocks_def seqE_def CmdElse_Execute_def split: prod.split sum.split)
next
  case (Cons c cs)
  obtain t b where tb: "c = (t, b)" by (cases c)
  have "execBlock n h (elsifs (c # cs) @ [CmdElse els]) d =
      seqE (CmdIf_Execute h t (execBlock n h b)) (execBlock n h (elsifs cs @ [CmdElse els])) d"
    using Cons.prems by (simp add: tb elsifs_def seqE_def CmdElsif_Execute_def)
  then show ?case using if_then_elsifs [OF Cons.IH] by (simp add: tb blocks_def)
qed

section \<open>Limits\<close>

text \<open>A handler error that \<open>:try\<close> swallows leaves the action in the list.\<close>

lemma pipeArgs_plain:
  assumes "\<not> requiresExt (Script d) ''variables''" "list_all isValidPipeArg args"
  shows "pipeArgs h d args = Inr (Some args)"
  using assms by (induction args) (simp_all add: expandVars_def)

lemma pipe_try_appends:
  assumes "requiresExt (Script d) YariloPipeExtension" "\<not> requiresExt (Script d) ''variables''"
    and "isValidProgramName p" "list_all isValidPipeArg args" "p \<notin> PipedPrograms d"
  shows "fst (execCmd n (withDefaults h clk) (CmdPipe p args copy True) d) = Inr () \<and>
    AppliedActions (snd (execCmd n (withDefaults h clk) (CmdPipe p args copy True) d)) =
      AppliedActions d @ [ActionPipe p args copy True]"
  using assms
  by (auto simp: CmdPipe_Execute_def expanding_def expandVars_def pipeArgs_plain DefaultOnAction_def Let_def)

section \<open>Examples\<close>

text \<open>A host whose personal scripts all read the same.\<close>

definition includeHost :: "bytes \<Rightarrow> host" where
  "includeHost src = exampleHost\<lparr>LoadScriptSource := Some (\<lambda>loc name. Inr (Some (Inr src)))\<rparr>"

section \<open>Properties\<close>

text \<open>
  C1: no message is lost.  When a script runs without error under the handlers of the library,
  the implicit keep is still due or an applied action has replaced it; earlier actions stay as
  they are; and when the script ran to its end, an applied action disposes of the message: a
  keep, a discard, a reject, or a delivery without \<open>:copy\<close>.  The commands may be any, loops
  over MIME parts and includes of scripts the host supplies among them.
\<close>

theorem execute_accounts_for_message:
  assumes "accounted d" and "Execute (withDefaults h clk) cs d = (Inr (), d')"
  shows "accounted d' \<and> (\<exists>as. AppliedActions d' = AppliedActions d @ as) \<and>
    (fst (execBlock includeMaxDepth (withDefaults h clk) cs d) = Inr () \<longrightarrow>
       list_ex cancelsImplicitKeep (AppliedActions d'))"
proof -
  obtain r d1 where b: "execBlock includeMaxDepth (withDefaults h clk) cs d = (r, d1)"
    by (cases "execBlock includeMaxDepth (withDefaults h clk) cs d")
  have "\<not> panics r" using assms(2) b by (auto simp: Execute_def panics_def split: sum.splits if_splits)
  then have acc: "accounted d1" and app: "\<exists>as. AppliedActions d1 = AppliedActions d @ as"
    using orderlyD [OF accounts.resp_exec(2) b] orderlyD [OF appends.resp_exec(2) b] assms(1)
    by (simp_all add: keepsAccounted_def onlyAppends_def)
  show ?thesis
  proof (cases r)
    case Inl
    then have "d' = d1" using assms(2) b by (auto simp: Execute_def split: if_splits)
    then show ?thesis using Inl acc app b by simp
  next
    case (Inr u)
    then have keep: "implicitKeep (withDefaults h clk) d1 = (Inr (), d')" using assms(2) b by (simp add: Execute_def)
    then have "d' = d1 \<and> list_ex cancelsImplicitKeep (AppliedActions d1) \<or>
        d' = d1\<lparr>AppliedActions := AppliedActions d1 @ [ActionKeep True (RFlags d1)]\<rparr>"
      using acc by (auto simp: implicitKeep_def accounted_def split: if_splits dest: DefaultOnAction_state)
    then show ?thesis using app by (auto simp: accounted_def)
  qed
qed

text \<open>A copy is filed and the message is kept.\<close>

theorem execute_accounts_for_message_witness:
  "\<exists>d'. Execute (withDefaults exampleHost (\<lambda>_. 0)) [CmdFileInto ''a'' None True False [] []] (exampleData {}) = (Inr (), d') \<and>
    length (AppliedActions d') = 2 \<and> accounted d' \<and> list_ex cancelsImplicitKeep (AppliedActions d')"
proof -
  let ?h = "withDefaults exampleHost (\<lambda>_. 0)" and ?cs = "[CmdFileInto ''a'' None True False [] []]"
  have run: "case Execute ?h ?cs (exampleData {}) of (r, d') \<Rightarrow>
      r = Inr () \<and> length (AppliedActions d') = 2 \<and> fst (execBlock includeMaxDepth ?h ?cs (exampleData {})) = Inr ()"
    by code_simp
  have "accounted (exampleData {})" by code_simp
  then show ?thesis
    using run execute_accounts_for_message [of "exampleData {}" exampleHost "\<lambda>_. 0" ?cs]
    by (auto split: prod.splits)
qed

text \<open>
  C4: the fuel of the model is no restriction.  With at least as much fuel as there are
  include levels left, more fuel changes neither the result nor the data, so the
  \<open>includeMaxDepth\<close> levels that \<open>Execute\<close> starts with are enough for every script and every
  collection of scripts that include each other.
\<close>

theorem execution_fuel_enough:
  assumes "includeMaxDepth \<le> length (stack (IncludeState d)) + n"
  shows "execBlock n (withDefaults h clk) cs d = execBlock includeMaxDepth (withDefaults h clk) cs d"
  using sameDepthD [OF sameDepth_exec(2) [of "depth d" n includeMaxDepth h clk cs]] assms by (simp add: depth_def)

text \<open>The included script stops, which ends the including one.\<close>

theorem execution_fuel_enough_witness:
  "let h = withDefaults (includeHost ''stop;'') (\<lambda>_. 0); c = [CmdInclude ''personal'' False False ''a''] in
   includeMaxDepth \<le> length (stack (IncludeState (exampleData {}))) + 9 \<and>
   execBlock 9 h c (exampleData {}) = execBlock includeMaxDepth h c (exampleData {}) \<and>
   fst (execBlock 9 h c (exampleData {})) = Inl ErrStop"
proof -
  let ?h = "withDefaults (includeHost ''stop;'') (\<lambda>_. 0)" and ?c = "[CmdInclude ''personal'' False False ''a'']"
  have fuel: "includeMaxDepth \<le> length (stack (IncludeState (exampleData {}))) + 9"
    and run: "fst (execBlock includeMaxDepth ?h ?c (exampleData {})) = Inl ErrStop"
    by code_simp+
  show ?thesis
    unfolding Let_def execution_fuel_enough [OF fuel, of "includeHost ''stop;''" "\<lambda>_. 0"] run using fuel by simp
qed

text \<open>
  C22: an include has its own scope.  Whatever the included script does, and however it ends
  short of a panic, the including script gets back its own variables, declarations of globals,
  match variables and script, and the stacks of includes and of MIME parts are as before.  (A
  panic skips the restoration, as nothing is deferred.)
\<close>

theorem include_restores_scope:
  assumes "execCmd n (withDefaults h clk) (CmdInclude loc onc opt name) d = (r, d')" "\<not> panics r"
  shows "Vars d' = Vars d \<and> globalVarDecls d' = globalVarDecls d \<and> MatchVariables d' = MatchVariables d \<and>
     Script d' = Script d \<and> stack (IncludeState d') = stack (IncludeState d) \<and> partStack d' = partStack d"
proof -
  let ?c = "CmdInclude loc onc opt name" and ?h = "withDefaults h clk"
  have control: "sameControl d d'"
    using orderlyD [OF control.resp_exec(1) assms] .
  have "panics (fst (execCmd n ?h ?c d)) \<or> (\<exists>st. snd (execCmd n ?h ?c d) = d\<lparr>IncludeState := st\<rparr>) \<or>
      (\<exists>key d1. snd (execCmd n ?h ?c d) = leaveScope onc key d d1)"
    using include_state by (cases n) simp_all
  then show ?thesis using control assms by (auto simp: sameControl_def leaveScope_def)
qed

text \<open>The included script stops; the variable of the including one is back.\<close>

theorem include_restores_scope_witness:
  "let d = (exampleData {''variables''})\<lparr>Vars := [''x'' \<mapsto> ''1'']\<rparr>;
       out = execCmd 1 (withDefaults (includeHost ''stop;'') (\<lambda>_. 0)) (CmdInclude ''personal'' False False ''a'') d in
   fst out = Inl ErrStop \<and> Vars (snd out) = [''x'' \<mapsto> ''1''] \<and> stack (IncludeState (snd out)) = stack (IncludeState d)"
proof -
  let ?d = "(exampleData {''variables''})\<lparr>Vars := [''x'' \<mapsto> ''1'']\<rparr>"
  let ?out = "execCmd 1 (withDefaults (includeHost ''stop;'') (\<lambda>_. 0)) (CmdInclude ''personal'' False False ''a'') ?d"
  have run: "fst ?out = Inl ErrStop" by code_simp
  then have "\<not> panics (fst ?out)" by simp
  then show ?thesis
    using include_restores_scope [of 1 "includeHost ''stop;''" "\<lambda>_. 0" "''personal''" False False "''a''" ?d "fst ?out" "snd ?out"] run
    by (simp add: Let_def)
qed

text \<open>
  C23: a chain runs one branch.  An \<open>if\<close> with any number of \<open>elsif\<close> and a closing \<open>else\<close>
  evaluates the tests in order up to the first that holds, runs the block of that test and no
  other, and runs the block of \<open>else\<close> exactly when no test holds.
\<close>

theorem if_chain_refines:
  "execBlock n h (CmdIf t b # elsifs cs @ [CmdElse els]) d =
     chain h ((t, execBlock n h b) # blocks n h cs) (execBlock n h els) d"
  using if_then_elsifs [OF elsifs_chain] by simp

text \<open>
  C39: \<open>pipe :try\<close> is not bound by \<open>MaxActions\<close>.  When the list of applied actions is already
  full, the command returns no error and the list grows by one all the same.
\<close>

theorem pipe_try_exceeds_limit:
  assumes "0 < MaxActions (opts (Script d))" and "int (length (AppliedActions d)) = MaxActions (opts (Script d))"
    and "requiresExt (Script d) YariloPipeExtension" "\<not> requiresExt (Script d) ''variables''"
    and "isValidProgramName p" "list_all isValidPipeArg args" "p \<notin> PipedPrograms d"
  shows "\<exists>d'. execCmd n (withDefaults h clk) (CmdPipe p args copy True) d = (Inr (), d') \<and>
    int (length (AppliedActions d')) > MaxActions (opts (Script d'))"
proof -
  let ?r = "execCmd n (withDefaults h clk) (CmdPipe p args copy True) d"
  have "Script (snd ?r) = Script d"
    using control.resp_exec(1) [of n h clk "CmdPipe p args copy True"] pipe_try_appends [OF assms(3-7), of n h clk copy]
    by (simp only: orderly_def sameControl_def panics_simps simp_thms)
  then show ?thesis
    using pipe_try_appends [OF assms(3-7), of n h clk copy] assms(2) by (intro exI [of _ "snd ?r"]) (auto simp: prod_eq_iff)
qed

theorem pipe_try_exceeds_limit_witness:
  "\<exists>d'. execCmd 0 (withDefaults exampleHost (\<lambda>_. 0)) (CmdPipe ''p'' [] False True)
      ((exampleData {YariloPipeExtension})\<lparr>AppliedActions := [ActionDiscard, ActionDiscard]\<rparr>) = (Inr (), d') \<and>
    int (length (AppliedActions d')) > MaxActions (opts (Script d'))"
proof -
  let ?d = "(exampleData {YariloPipeExtension})\<lparr>AppliedActions := [ActionDiscard, ActionDiscard]\<rparr>"
  have "0 < MaxActions (opts (Script ?d))" "int (length (AppliedActions ?d)) = MaxActions (opts (Script ?d))"
    "requiresExt (Script ?d) YariloPipeExtension" "\<not> requiresExt (Script ?d) ''variables''"
    "isValidProgramName ''p''" "list_all isValidPipeArg []" "''p'' \<notin> PipedPrograms ?d"
    by code_simp+
  then show ?thesis by (rule pipe_try_exceeds_limit)
qed

section \<open>Divergences\<close>

text \<open>A script that stops leaves the implicit keep undone.\<close>

lemma stop_skips_implicit_keep: "Execute h (CmdStop # cs) d = (Inr (), d)"
  by (simp add: Execute_def seqE_def)

end
