(* ===== verification/Wire.thy ===== *)
theory Wire
  imports Go_Strings
begin

text \<open>
  \<open>managesieve/types.go\<close> and \<open>managesieve/internal/wire/codec.go\<close>: the responses of the
  ManageSieve protocol and the encoder and decoder that client and server share.

  A connection is the list of the bytes that arrive on it; what a read meets at the end of the
  list is the field \<open>streamEnd\<close>.  A read returns an error or a value, and the bytes it leaves.
  The optional counter of command bytes is an \<open>int option\<close>.  The writer below an encoder takes
  every byte.
\<close>

section \<open>Responses\<close>

datatype conn_state = ConnStateNotAuthenticated | ConnStateAuthenticated | ConnStateLogout

definition StatusOK :: bytes where
  "StatusOK = ''OK''"

definition StatusNO :: bytes where
  "StatusNO = ''NO''"

definition StatusBYE :: bytes where
  "StatusBYE = ''BYE''"

record status_response =
  SType :: bytes
  SCode :: bytes
  SCodeArgs :: "bytes list"
  SText :: bytes

record capability_item =
  CapName :: bytes
  CapValue :: "bytes option"

record script_info =
  InfoName :: bytes
  InfoActive :: bool

section \<open>Encoder\<close>

datatype enc_error = EncLiteralOpen | EncTooMany | EncTooFew

record encoder =
  encOut :: bytes
  encErr :: "enc_error option"
  encLiteral :: bool

definition NewEncoder :: encoder where
  "NewEncoder = \<lparr>encOut = [], encErr = None, encLiteral = False\<rparr>"

definition setErr :: "enc_error option \<Rightarrow> encoder \<Rightarrow> encoder" where
  "setErr x e = (if encErr e = None then e\<lparr>encErr := x\<rparr> else e)"

definition writeString :: "bytes \<Rightarrow> encoder \<Rightarrow> encoder" where
  "writeString s e =
     (if encErr e \<noteq> None then e
      else if encLiteral e then setErr (Some EncLiteralOpen) e
      else e\<lparr>encOut := encOut e @ s\<rparr>)"

definition Atom :: "bytes \<Rightarrow> encoder \<Rightarrow> encoder" where
  "Atom s = writeString s"

definition SP :: "encoder \<Rightarrow> encoder" where
  "SP = writeString '' ''"

definition quote :: "bytes \<Rightarrow> bytes" where
  "quote s = concat (map (\<lambda>ch. if ch = DQUOTE \<or> ch = BACKSLASH then [BACKSLASH, ch] else [ch]) s)"

definition Quoted :: "bytes \<Rightarrow> encoder \<Rightarrow> encoder" where
  "Quoted s e = (if encErr e \<noteq> None then e else writeString ([DQUOTE] @ quote s @ [DQUOTE]) e)"

definition runeIsControl :: "nat \<Rightarrow> bool" where
  "runeIsControl r \<longleftrightarrow> r \<le> 0x1F \<or> 0x7F \<le> r \<and> r \<le> 0x9F"

definition validQuoted :: "bytes \<Rightarrow> bool" where
  "validQuoted s \<longleftrightarrow>
     length s \<le> 1024 \<and>
     list_all (\<lambda>r. \<not> (r = 0 \<or> r = 13 \<or> r = 10) \<and> \<not> runeIsControl r) (runes s)"

text \<open>The header of a literal, and the bytes still to write; \<open>None\<close> is the writer that fails.\<close>

definition Literal :: "int \<Rightarrow> bool \<Rightarrow> encoder \<Rightarrow> int option \<times> encoder" where
  "Literal size0 pl e =
     (let e1 = writeString (Itoa size0) (writeString ''{'' e);
          e2 = (if pl then writeString ''+'' e1 else e1);
          e3 = writeString (''}'' @ crlf) e2 in
      if encErr e3 \<noteq> None then (None, e3) else (Some size0, e3\<lparr>encLiteral := True\<rparr>))"

definition literalWrite :: "bytes \<Rightarrow> int \<Rightarrow> encoder \<Rightarrow> (enc_error + int) \<times> encoder" where
  "literalWrite p remain e =
     (if int (length p) > remain then (Inl EncTooMany, e)
      else (Inr (remain - int (length p)), e\<lparr>encOut := encOut e @ p\<rparr>))"

definition literalClose :: "int \<Rightarrow> encoder \<Rightarrow> enc_error option \<times> encoder" where
  "literalClose remain e = (if remain \<noteq> 0 then Some EncTooFew else None, e\<lparr>encLiteral := False\<rparr>)"

definition encodeString :: "bool \<Rightarrow> bytes \<Rightarrow> encoder \<Rightarrow> encoder" where
  "encodeString pl s e =
     (if validQuoted s then Quoted s e
      else (case Literal (int (length s)) pl e of
              (None, e1) \<Rightarrow> setErr (encErr e1) e1
            | (Some remain, e1) \<Rightarrow>
                (case literalWrite s remain e1 of
                   (Inl werr, e2) \<Rightarrow>
                     (case literalClose remain e2 of (cerr, e3) \<Rightarrow>
                        if cerr = None then setErr (Some werr) e3 else setErr cerr (setErr (Some werr) e3))
                 | (Inr remain2, e2) \<Rightarrow>
                     (case literalClose remain2 e2 of (cerr, e3) \<Rightarrow>
                        if cerr = None then e3 else setErr cerr e3))))"

abbreviation StringClient :: "bytes \<Rightarrow> encoder \<Rightarrow> encoder" where
  "StringClient \<equiv> encodeString True"

abbreviation StringServer :: "bytes \<Rightarrow> encoder \<Rightarrow> encoder" where
  "StringServer \<equiv> encodeString False"

definition CRLF :: "encoder \<Rightarrow> enc_error option \<times> encoder" where
  "CRLF e = (let e1 = writeString crlf e in (encErr e1, e1))"

section \<open>Decoder\<close>

datatype io_error = IoEOF | IoUnexpectedEOF | IoTimeout

datatype wire_error =
    WIo io_error
  | WExpectedCRLF
  | WAtomLimit
  | WExpectedAtom
  | WExpectedString
  | WQuotedLimit
  | WMalformedLiteral
  | WMalformedLiteralSize
  | WNumber
  | WLiteralSize
  | WLiteralLimit
  | WLiteralAlloc
  | WCommandLimit
  | WTooManyArgs
  | WStatusType

record decoder =
  MaxLiteralBytes :: int
  MaxAtomBytes :: int
  MaxQuotedBytes :: int
  MaxCommandArgs :: int
  MaxNonLiteralCommandLen :: int
  streamEnd :: io_error

type_synonym 'a rd = "bytes \<Rightarrow> (wire_error + 'a) \<times> bytes"

definition endOf :: "decoder \<Rightarrow> (wire_error + 'a) \<times> bytes" where
  "endOf D = (Inl (WIo (streamEnd D)), [])"

definition PeekByte :: "decoder \<Rightarrow> char rd" where
  "PeekByte D bs = (case bs of [] \<Rightarrow> endOf D | b # r \<Rightarrow> (Inr b, bs))"

definition ExpectCRLF :: "decoder \<Rightarrow> unit rd" where
  "ExpectCRLF D bs =
     (case bs of
        [] \<Rightarrow> endOf D
      | b # r \<Rightarrow>
          if b = CR then
            (case r of
               [] \<Rightarrow> endOf D
             | b2 # r2 \<Rightarrow> if b2 \<noteq> LF then (Inl WExpectedCRLF, r2) else (Inr (), r2))
          else if b \<noteq> LF then (Inl WExpectedCRLF, r) else (Inr (), r))"

fun SkipSP :: "decoder \<Rightarrow> unit rd" where
  "SkipSP D [] = endOf D"
| "SkipSP D (b # r) = (if b \<noteq> CHR '' '' then (Inr (), b # r) else SkipSP D r)"

definition isAtomChar :: "char \<Rightarrow> bool" where
  "isAtomChar ch \<longleftrightarrow>
     \<not> (ord ch \<le> 0x20 \<or> ord ch = 0x7F) \<and>
     ch \<notin> {CHR ''('', CHR '')'', CHR ''{'', CHR '' '', DQUOTE, BACKSLASH}"

definition addCommandBytes :: "decoder \<Rightarrow> int option \<Rightarrow> int \<Rightarrow> wire_error + int option" where
  "addCommandBytes D cb n =
     (case cb of
        None \<Rightarrow> Inr None
      | Some c \<Rightarrow>
          (let c' = wrap64 (c + n) in
           if MaxNonLiteralCommandLen D > 0 \<and> c' > MaxNonLiteralCommandLen D then Inl WCommandLimit
           else Inr (Some c')))"

fun atomLoop :: "decoder \<Rightarrow> bytes \<Rightarrow> int option \<Rightarrow> (bytes \<times> int option) rd" where
  "atomLoop D acc cb [] =
     (if streamEnd D = IoEOF \<and> acc \<noteq> [] then (Inr (acc, cb), []) else endOf D)"
| "atomLoop D acc cb (ch # r) =
     (if \<not> isAtomChar ch then
        if acc = [] then (Inl WExpectedAtom, ch # r) else (Inr (acc, cb), ch # r)
      else if MaxAtomBytes D > 0 \<and> int (length acc) \<ge> MaxAtomBytes D then (Inl WAtomLimit, ch # r)
      else (case addCommandBytes D cb 1 of
              Inl e \<Rightarrow> (Inl e, r)
            | Inr cb' \<Rightarrow> atomLoop D (acc @ [ch]) cb' r))"

definition readAtom :: "decoder \<Rightarrow> int option \<Rightarrow> (bytes \<times> int option) rd" where
  "readAtom D cb bs =
     (case SkipSP D bs of (Inl e, r) \<Rightarrow> (Inl e, r) | (Inr _, r) \<Rightarrow> atomLoop D [] cb r)"

text \<open>One byte of a quoted string: the limit and the counter.\<close>

definition quotedByte :: "decoder \<Rightarrow> bytes \<Rightarrow> int option \<Rightarrow> wire_error + int option" where
  "quotedByte D acc cb =
     (if MaxQuotedBytes D > 0 \<and> int (length acc) \<ge> MaxQuotedBytes D then Inl WQuotedLimit
      else addCommandBytes D cb 1)"

fun quotedLoop :: "decoder \<Rightarrow> bytes \<Rightarrow> int option \<Rightarrow> (bytes \<times> int option) rd" where
  "quotedLoop D acc cb [] = endOf D"
| "quotedLoop D acc cb (ch # r) =
     (if ch = DQUOTE then (Inr (acc, cb), r)
      else if ch = BACKSLASH then
        (case r of
           [] \<Rightarrow> endOf D
         | ch2 # r2 \<Rightarrow>
             (case quotedByte D acc cb of
                Inl e \<Rightarrow> (Inl e, r2)
              | Inr cb' \<Rightarrow> quotedLoop D (acc @ [ch2]) cb' r2))
      else (case quotedByte D acc cb of
              Inl e \<Rightarrow> (Inl e, r)
            | Inr cb' \<Rightarrow> quotedLoop D (acc @ [ch]) cb' r))"

definition readQuoted :: "decoder \<Rightarrow> int option \<Rightarrow> (bytes \<times> int option) rd" where
  "readQuoted D cb bs = quotedLoop D [] cb (tl bs)"

text \<open>The digits of a literal, up to the closing brace.\<close>

definition literalDigits :: "decoder \<Rightarrow> bytes rd" where
  "literalDigits D bs =
     (let ds = takeWhile is_digit bs in
      case dropWhile is_digit bs of
        [] \<Rightarrow> endOf D
      | ch # r \<Rightarrow>
          if ch = CHR ''+'' then
            (case r of
               [] \<Rightarrow> endOf D
             | ch2 # r2 \<Rightarrow> if ch2 \<noteq> CHR ''}'' then (Inl WMalformedLiteral, r2) else (Inr ds, r2))
          else if ch \<noteq> CHR ''}'' then (Inl WMalformedLiteral, r) else (Inr ds, r))"

definition readFull :: "decoder \<Rightarrow> nat \<Rightarrow> bytes rd" where
  "readFull D n bs =
     (if n \<le> length bs then (Inr (take n bs), drop n bs)
      else (Inl (WIo (if streamEnd D = IoEOF \<and> bs \<noteq> [] then IoUnexpectedEOF else streamEnd D)), []))"

definition maxUint32 :: int where
  "maxUint32 = 4294967295"

definition literalSize :: "decoder \<Rightarrow> int option \<Rightarrow> bytes \<Rightarrow> wire_error + (int \<times> int option)" where
  "literalSize D cb ds =
     (if ds = [] then Inl WMalformedLiteralSize
      else (case Atoi ds of
              None \<Rightarrow> Inl WNumber
            | Some sz \<Rightarrow>
                if sz < 0 \<or> sz > maxUint32 then Inl WLiteralSize
                else if MaxLiteralBytes D > 0 \<and> sz > MaxLiteralBytes D then Inl WLiteralLimit
                else if sz > maxInt64 then Inl WLiteralAlloc
                else (case addCommandBytes D cb sz of Inl e \<Rightarrow> Inl e | Inr cb' \<Rightarrow> Inr (sz, cb'))))"

definition readLiteral :: "decoder \<Rightarrow> int option \<Rightarrow> (bytes \<times> int option) rd" where
  "readLiteral D cb bs =
     (case literalDigits D (tl bs) of
        (Inl e, r) \<Rightarrow> (Inl e, r)
      | (Inr ds, r) \<Rightarrow>
          (case literalSize D cb ds of
             Inl e \<Rightarrow> (Inl e, r)
           | Inr (sz, cb') \<Rightarrow>
               (case ExpectCRLF D r of
                  (Inl e, r2) \<Rightarrow> (Inl e, r2)
                | (Inr _, r2) \<Rightarrow>
                    (case readFull D (nat sz) r2 of
                       (Inl e, r3) \<Rightarrow> (Inl e, r3)
                     | (Inr buf, r3) \<Rightarrow> (Inr (buf, cb'), r3)))))"

definition readString :: "decoder \<Rightarrow> int option \<Rightarrow> (bytes \<times> int option) rd" where
  "readString D cb bs =
     (case SkipSP D bs of
        (Inl e, r) \<Rightarrow> (Inl e, r)
      | (Inr _, r) \<Rightarrow>
          (case PeekByte D r of
             (Inl e, r1) \<Rightarrow> (Inl e, r1)
           | (Inr b, r1) \<Rightarrow>
               if b = DQUOTE then readQuoted D cb r1
               else if b = CHR ''{'' then readLiteral D cb r1
               else (Inl WExpectedString, r1)))"

definition readToken :: "decoder \<Rightarrow> int option \<Rightarrow> (bytes \<times> int option) rd" where
  "readToken D cb bs =
     (case SkipSP D bs of
        (Inl e, r) \<Rightarrow> (Inl e, r)
      | (Inr _, r) \<Rightarrow>
          (case PeekByte D r of
             (Inl e, r1) \<Rightarrow> (Inl e, r1)
           | (Inr b, r1) \<Rightarrow> if b = DQUOTE \<or> b = CHR ''{'' then readString D cb r1 else readAtom D cb r1))"

text \<open>The exported readers count nothing.\<close>

definition ReadAtom :: "decoder \<Rightarrow> bytes rd" where
  "ReadAtom D bs = (case readAtom D None bs of (Inl e, r) \<Rightarrow> (Inl e, r) | (Inr (s, _), r) \<Rightarrow> (Inr s, r))"

definition ReadString :: "decoder \<Rightarrow> bytes rd" where
  "ReadString D bs = (case readString D None bs of (Inl e, r) \<Rightarrow> (Inl e, r) | (Inr (s, _), r) \<Rightarrow> (Inr s, r))"

definition ReadToken :: "decoder \<Rightarrow> bytes rd" where
  "ReadToken D bs = (case readToken D None bs of (Inl e, r) \<Rightarrow> (Inl e, r) | (Inr (s, _), r) \<Rightarrow> (Inr s, r))"

section \<open>Reading consumes input\<close>

lemma SkipSP_length: "SkipSP D bs = (x, r) \<Longrightarrow> length r \<le> length bs"
  by (induction bs) (auto simp: endOf_def split: if_splits)

lemma ExpectCRLF_length: "ExpectCRLF D bs = (Inr u, r) \<Longrightarrow> length r < length bs"
  by (auto simp: ExpectCRLF_def endOf_def split: list.splits if_splits)

lemma atomLoop_length:
  "atomLoop D acc cb bs = (Inr (s, cb'), r) \<Longrightarrow> s \<noteq> [] \<and> length r + length s = length bs + length acc"
  by (induction D acc cb bs rule: atomLoop.induct) (auto simp: endOf_def split: if_splits sum.splits)

lemma readAtom_length: "readAtom D cb bs = (Inr x, r) \<Longrightarrow> length r < length bs"
proof (cases x)
  case (Pair s cb')
  moreover assume "readAtom D cb bs = (Inr x, r)"
  ultimately obtain bs' where "SkipSP D bs = (Inr (), bs')" "atomLoop D [] cb bs' = (Inr (s, cb'), r)"
    by (auto simp: readAtom_def split: prod.splits sum.splits)
  then have "length bs' \<le> length bs" "s \<noteq> []" "length r + length s = length bs'"
    by (auto dest: SkipSP_length atomLoop_length)
  then show ?thesis by (cases s) simp_all
qed

lemma quotedLoop_length: "quotedLoop D acc cb bs = (Inr x, r) \<Longrightarrow> length r < length bs"
  by (induction D acc cb bs rule: quotedLoop.induct)
    (auto simp: endOf_def split: if_splits sum.splits list.splits intro!: less_SucI)

lemma literalDigits_length: "literalDigits D bs = (Inr ds, r) \<Longrightarrow> length r < length bs"
proof -
  assume "literalDigits D bs = (Inr ds, r)"
  then have "length r < length (dropWhile is_digit bs)"
    by (auto simp: literalDigits_def endOf_def Let_def split: list.splits if_splits)
  then show ?thesis using length_dropWhile_le [of is_digit bs] by linarith
qed

lemma readLiteral_length: "readLiteral D cb bs = (Inr x, r) \<Longrightarrow> length r < length bs"
  by (auto simp: readLiteral_def readFull_def split: prod.splits sum.splits if_splits
      dest!: literalDigits_length ExpectCRLF_length)

lemma readString_length: "readString D cb bs = (Inr x, r) \<Longrightarrow> length r < length bs"
  by (auto simp: readString_def readQuoted_def PeekByte_def endOf_def split: prod.splits sum.splits list.splits if_splits
      dest!: SkipSP_length quotedLoop_length readLiteral_length)

lemma readToken_length: "readToken D cb bs = (Inr x, r) \<Longrightarrow> length r < length bs"
  by (auto simp: readToken_def PeekByte_def endOf_def split: prod.splits sum.splits list.splits if_splits
      dest!: SkipSP_length readString_length readAtom_length)

lemma ReadToken_length: "ReadToken D bs = (Inr x, r) \<Longrightarrow> length r < length bs"
  by (auto simp: ReadToken_def split: prod.splits sum.splits dest!: readToken_length)

section \<open>Commands\<close>

function readArgs :: "decoder \<Rightarrow> int option \<Rightarrow> bytes list \<Rightarrow> (bytes list) rd" where
  "readArgs D cb args bs =
     (case bs of
        [] \<Rightarrow> endOf D
      | b # r \<Rightarrow>
          if b = CR \<or> b = LF then
            (case ExpectCRLF D bs of (Inl e, r1) \<Rightarrow> (Inl e, r1) | (Inr _, r1) \<Rightarrow> (Inr args, r1))
          else if MaxCommandArgs D > 0 \<and> int (length args) \<ge> MaxCommandArgs D then (Inl WTooManyArgs, bs)
          else (case readToken D cb bs of
                  (Inl e, r1) \<Rightarrow> (Inl e, r1)
                | (Inr (arg, cb'), r1) \<Rightarrow> readArgs D cb' (args @ [arg]) r1))"
  by pat_completeness auto

termination
  by (relation "measure (\<lambda>(D, cb, args, bs). length bs)") (auto dest: readToken_length [OF sym])

declare readArgs.simps [simp del]

definition ReadCommand :: "unicode_tables \<Rightarrow> decoder \<Rightarrow> (bytes \<times> bytes list) rd" where
  "ReadCommand U D bs =
     (case readAtom D (Some 0) bs of
        (Inl e, r) \<Rightarrow> (Inl e, r)
      | (Inr (name, cb), r) \<Rightarrow>
          (case readArgs D cb [] r of
             (Inl e, r1) \<Rightarrow> (Inl e, r1)
           | (Inr args, r1) \<Rightarrow> (Inr (ToUpper U name, args), r1)))"

section \<open>Responses\<close>

function codeArgs :: "decoder \<Rightarrow> bytes list \<Rightarrow> (bytes list) rd" where
  "codeArgs D args bs =
     (case SkipSP D bs of
        (Inl e, r) \<Rightarrow> (Inl e, r)
      | (Inr _, r) \<Rightarrow>
          (case r of
             [] \<Rightarrow> endOf D
           | pb # r1 \<Rightarrow>
               if pb = CHR '')'' then (Inr args, r1)
               else (case ReadToken D r of
                       (Inl e, r2) \<Rightarrow> (Inl e, r2)
                     | (Inr arg, r2) \<Rightarrow> codeArgs D (args @ [arg]) r2)))"
  by pat_completeness auto

termination
  by (relation "measure (\<lambda>(D, args, bs). length bs)")
    (auto dest!: ReadToken_length [OF sym] SkipSP_length [OF sym])

declare codeArgs.simps [simp del]

definition statusLineEnd :: "decoder \<Rightarrow> status_response \<Rightarrow> status_response rd" where
  "statusLineEnd D out bs = (case ExpectCRLF D bs of (Inl e, r) \<Rightarrow> (Inl e, r) | (Inr _, r) \<Rightarrow> (Inr out, r))"

text \<open>The text after the status and its code, then the end of the line.\<close>

definition statusText :: "decoder \<Rightarrow> status_response \<Rightarrow> status_response rd" where
  "statusText D out bs =
     (case PeekByte D bs of
        (Inl e, r) \<Rightarrow> (Inl e, r)
      | (Inr pb, r) \<Rightarrow>
          if pb \<noteq> CR \<and> pb \<noteq> LF then
            (case ReadToken D bs of
               (Inl e, r1) \<Rightarrow> (Inl e, r1)
             | (Inr txt, r1) \<Rightarrow> statusLineEnd D (out\<lparr>SText := txt\<rparr>) r1)
          else statusLineEnd D out bs)"

text \<open>The response code, after its opening parenthesis; the stream may end behind it.\<close>

definition statusCode :: "unicode_tables \<Rightarrow> decoder \<Rightarrow> status_response \<Rightarrow> status_response rd" where
  "statusCode U D out bs =
     (case ReadAtom D bs of
        (Inl e, r) \<Rightarrow> (Inl e, r)
      | (Inr codeName, r) \<Rightarrow>
          (case codeArgs D [] r of
             (Inl e, r1) \<Rightarrow> (Inl e, r1)
           | (Inr args, r1) \<Rightarrow>
               (let out' = out\<lparr>SCode := ToUpper U codeName, SCodeArgs := args\<rparr> in
                case SkipSP D r1 of
                  (Inl e, r2) \<Rightarrow> if e = WIo IoEOF then (Inr out', r2) else (Inl e, r2)
                | (Inr _, r2) \<Rightarrow> statusText D out' r2)))"

definition ReadStatusLine :: "unicode_tables \<Rightarrow> decoder \<Rightarrow> status_response rd" where
  "ReadStatusLine U D bs =
     (case ReadAtom D bs of
        (Inl e, r) \<Rightarrow> (Inl e, r)
      | (Inr name, r) \<Rightarrow>
          (let out = \<lparr>SType = ToUpper U name, SCode = [], SCodeArgs = [], SText = []\<rparr> in
           if SType out \<notin> {StatusOK, StatusNO, StatusBYE} then (Inl WStatusType, r)
           else (case PeekByte D r of
                   (Inl e, r1) \<Rightarrow> (Inl e, r1)
                 | (Inr b, r1) \<Rightarrow>
                     if b = CHR '' '' then
                       (case SkipSP D r1 of
                          (Inl e, r2) \<Rightarrow> (Inl e, r2)
                        | (Inr _, r2) \<Rightarrow>
                            (case PeekByte D r2 of
                               (Inl e, r3) \<Rightarrow> (Inl e, r3)
                             | (Inr b1, r3) \<Rightarrow>
                                 if b1 = CHR ''('' then statusCode U D out (tl r3) else statusText D out r3))
                     else statusLineEnd D out r1)))"

definition ReadCapabilityOrStatus :: "unicode_tables \<Rightarrow> decoder \<Rightarrow> (capability_item + status_response) rd" where
  "ReadCapabilityOrStatus U D bs =
     (case PeekByte D bs of
        (Inl e, r) \<Rightarrow> (Inl e, r)
      | (Inr b, r) \<Rightarrow>
          if b = DQUOTE \<or> b = CHR ''{'' then
            (case ReadString D bs of
               (Inl e, r1) \<Rightarrow> (Inl e, r1)
             | (Inr name, r1) \<Rightarrow>
                 (case PeekByte D r1 of
                    (Inl e, r2) \<Rightarrow> (Inl e, r2)
                  | (Inr pb, r2) \<Rightarrow>
                      if pb = CHR '' '' then
                        (case ReadString D r2 of
                           (Inl e, r3) \<Rightarrow> (Inl e, r3)
                         | (Inr val, r3) \<Rightarrow>
                             (case ExpectCRLF D r3 of
                                (Inl e, r4) \<Rightarrow> (Inl e, r4)
                              | (Inr _, r4) \<Rightarrow> (Inr (Inl \<lparr>CapName = name, CapValue = Some val\<rparr>), r4)))
                      else
                        (case ExpectCRLF D r2 of
                           (Inl e, r3) \<Rightarrow> (Inl e, r3)
                         | (Inr _, r3) \<Rightarrow> (Inr (Inl \<lparr>CapName = name, CapValue = None\<rparr>), r3))))
          else (case ReadStatusLine U D bs of (Inl e, r1) \<Rightarrow> (Inl e, r1) | (Inr st, r1) \<Rightarrow> (Inr (Inr st), r1)))"

definition ReadScriptOrStatus :: "unicode_tables \<Rightarrow> decoder \<Rightarrow> (script_info + status_response) rd" where
  "ReadScriptOrStatus U D bs =
     (case PeekByte D bs of
        (Inl e, r) \<Rightarrow> (Inl e, r)
      | (Inr b, r) \<Rightarrow>
          if b = DQUOTE \<or> b = CHR ''{'' then
            (case ReadString D bs of
               (Inl e, r1) \<Rightarrow> (Inl e, r1)
             | (Inr name, r1) \<Rightarrow>
                 (case PeekByte D r1 of
                    (Inl e, r2) \<Rightarrow> (Inl e, r2)
                  | (Inr pb, r2) \<Rightarrow>
                      if pb = CHR '' '' then
                        (case ReadAtom D r2 of
                           (Inl e, r3) \<Rightarrow> (Inl e, r3)
                         | (Inr tok, r3) \<Rightarrow>
                             (case ExpectCRLF D r3 of
                                (Inl e, r4) \<Rightarrow> (Inl e, r4)
                              | (Inr _, r4) \<Rightarrow>
                                  (Inr (Inl \<lparr>InfoName = name, InfoActive = EqualFold U tok ''ACTIVE''\<rparr>), r4)))
                      else
                        (case ExpectCRLF D r2 of
                           (Inl e, r3) \<Rightarrow> (Inl e, r3)
                         | (Inr _, r3) \<Rightarrow> (Inr (Inl \<lparr>InfoName = name, InfoActive = False\<rparr>), r3))))
          else (case ReadStatusLine U D bs of (Inl e, r1) \<Rightarrow> (Inl e, r1) | (Inr st, r1) \<Rightarrow> (Inr (Inr st), r1)))"

end
