(* ===== verification/Storage.thy ===== *)
theory Storage
  imports Wire Interp "HOL-Library.AList" "HOL-Library.List_Lexorder" "HOL-Library.Char_ord"
begin

text \<open>
  \<open>managesieve/server/memory.go\<close>: the script storage in memory.  The Go map of scripts is an
  association list with distinct keys; \<open>ListScripts\<close> sorts, so no result depends on the order of
  the list.  Strings are ordered bytewise, as Go orders them.

  \<open>MemorySessionOptions.Load\<close> is the field \<open>LoadFn\<close>: the text of the error, or \<open>None\<close>.  The
  function that \<open>NewMemorySession\<close> installs when the field is nil is \<open>defaultLoad\<close>, which calls
  \<open>Load\<close> of \<open>sieve.go\<close>; the text of a load error is an argument.
\<close>

section \<open>Errors\<close>

datatype conn_error =
    MsError status_response
  | ScriptWarnings bytes
  | WireFailed wire_error
  | OtherError bytes
  | ConnPanic

definition noError :: "bytes \<Rightarrow> bytes \<Rightarrow> conn_error" where
  "noError code txt = MsError \<lparr>SType = StatusNO, SCode = code, SCodeArgs = [], SText = txt\<rparr>"

section \<open>Names\<close>

definition ValidString :: "bytes \<Rightarrow> bool" where
  "ValidString s \<longleftrightarrow> list_all (\<lambda>(r, c). \<not> (r = runeError \<and> length c = 1)) (runeChunks s)"

definition badNameRune :: "nat \<Rightarrow> bool" where
  "badNameRune r \<longleftrightarrow> r \<le> 0x1F \<or> r = 0x7F \<or> 0x80 \<le> r \<and> r \<le> 0x9F \<or> r = 0x2028 \<or> r = 0x2029"

definition validateScriptName :: "bytes \<Rightarrow> bool \<Rightarrow> conn_error option" where
  "validateScriptName name allowEmpty =
     (if name = [] then if allowEmpty then None else Some (noError [] ''Script name must not be empty'')
      else if list_ex badNameRune (runes name) then Some (noError [] ''Invalid script name'')
      else if length (runes name) > 128 then Some (noError [] ''Script name too long'')
      else if \<not> ValidString name then Some (noError [] ''Invalid UTF-8 in script name'')
      else None)"

section \<open>Sessions\<close>

record memory_options =
  Implementation :: bytes
  Version :: bytes
  Language :: bytes
  Notify :: "bytes list"
  SieveExtensions :: "bytes list"
  SASLMechanisms :: "bytes list option"
  MaxRedirects :: "32 word option"
  MaxScripts :: int
  MaxScriptLen :: int
  LoadFn :: "(bytes \<Rightarrow> bytes option) option"

record memory_session =
  mopts :: memory_options
  scripts :: "(bytes \<times> bytes) list"
  active :: bytes

definition defaultLoad :: "host \<Rightarrow> (load_failure \<Rightarrow> bytes) \<Rightarrow> bytes \<Rightarrow> bytes option" where
  "defaultLoad h errorText script = (case Load h script DefaultOptions of Inl e \<Rightarrow> Some (errorText e) | Inr _ \<Rightarrow> None)"

definition NewMemorySession :: "host \<Rightarrow> (load_failure \<Rightarrow> bytes) \<Rightarrow> memory_options \<Rightarrow> memory_session" where
  "NewMemorySession h errorText os =
     (let os1 = (if Implementation os = [] then os\<lparr>Implementation := ''go-sieve managesieve''\<rparr> else os);
          os2 = (if Version os1 = [] then os1\<lparr>Version := ''1.0''\<rparr> else os1);
          os3 = (if Option.is_none (LoadFn os2) then os2\<lparr>LoadFn := Some (defaultLoad h errorText)\<rparr> else os2) in
      \<lparr>mopts = os3, scripts = [], active = []\<rparr>)"

text \<open>A call of the field \<open>Load\<close>; it is set in every session that \<open>NewMemorySession\<close> makes.\<close>

definition callLoad :: "memory_session \<Rightarrow> bytes \<Rightarrow> conn_error option" where
  "callLoad s script =
     (case LoadFn (mopts s) of
        None \<Rightarrow> Some ConnPanic
      | Some f \<Rightarrow> map_option (noError []) (f script))"

definition MemorySessionOptions_Capabilities :: "memory_options \<Rightarrow> capability_item list" where
  "MemorySessionOptions_Capabilities os =
     [\<lparr>CapName = ''IMPLEMENTATION'', CapValue = Some (Implementation os)\<rparr>,
      \<lparr>CapName = ''SIEVE'', CapValue = Some (Join (SieveExtensions os) '' '')\<rparr>,
      \<lparr>CapName = ''VERSION'', CapValue = Some (Version os)\<rparr>] @
     (case SASLMechanisms os of None \<Rightarrow> [] | Some ms \<Rightarrow> [\<lparr>CapName = ''SASL'', CapValue = Some (Join ms '' '')\<rparr>]) @
     (if Language os \<noteq> [] then [\<lparr>CapName = ''LANGUAGE'', CapValue = Some (Language os)\<rparr>] else []) @
     (if Notify os \<noteq> [] then [\<lparr>CapName = ''NOTIFY'', CapValue = Some (Join (Notify os) '' '')\<rparr>] else []) @
     (case MaxRedirects os of
        None \<Rightarrow> [] | Some n \<Rightarrow> [\<lparr>CapName = ''MAXREDIRECTS'', CapValue = Some (nat_to_dec (unat n))\<rparr>])"

section \<open>Operations\<close>

type_synonym 'a store_op = "memory_session \<Rightarrow> (conn_error + 'a) \<times> memory_session"

definition ListScripts :: "script_info list store_op" where
  "ListScripts s =
     (Inr (sort_key InfoName (map (\<lambda>(n, _). \<lparr>InfoName = n, InfoActive = (n = active s)\<rparr>) (scripts s))), s)"

definition GetScript :: "bytes \<Rightarrow> bytes store_op" where
  "GetScript name s =
     (case validateScriptName name False of
        Some e \<Rightarrow> (Inl e, s)
      | None \<Rightarrow>
          (case map_of (scripts s) name of
             None \<Rightarrow> (Inl (noError ''NONEXISTENT'' ''No such script''), s)
           | Some v \<Rightarrow> (Inr v, s)))"

definition PutScript :: "bytes \<Rightarrow> bytes \<Rightarrow> unit store_op" where
  "PutScript name script s =
     (case validateScriptName name False of
        Some e \<Rightarrow> (Inl e, s)
      | None \<Rightarrow>
          if MaxScriptLen (mopts s) > 0 \<and> int (length script) > MaxScriptLen (mopts s) then
            (Inl (noError ''QUOTA/MAXSIZE'' ''Script is too large''), s)
          else (case callLoad s script of
                  Some e \<Rightarrow> (Inl e, s)
                | None \<Rightarrow>
                    if map_of (scripts s) name = None \<and> MaxScripts (mopts s) > 0 \<and>
                       int (length (scripts s)) \<ge> MaxScripts (mopts s) then
                      (Inl (noError ''QUOTA/MAXSCRIPTS'' ''Too many scripts''), s)
                    else (Inr (), s\<lparr>scripts := AList.update name script (scripts s)\<rparr>)))"

definition CheckScript :: "bytes \<Rightarrow> unit store_op" where
  "CheckScript script s = (case callLoad s script of Some e \<Rightarrow> (Inl e, s) | None \<Rightarrow> (Inr (), s))"

definition SetActive :: "bytes \<Rightarrow> unit store_op" where
  "SetActive name s =
     (case validateScriptName name True of
        Some e \<Rightarrow> (Inl e, s)
      | None \<Rightarrow>
          if name = [] then (Inr (), s\<lparr>active := []\<rparr>)
          else if map_of (scripts s) name = None then (Inl (noError ''NONEXISTENT'' ''No such script''), s)
          else (Inr (), s\<lparr>active := name\<rparr>))"

definition DeleteScript :: "bytes \<Rightarrow> unit store_op" where
  "DeleteScript name s =
     (case validateScriptName name False of
        Some e \<Rightarrow> (Inl e, s)
      | None \<Rightarrow>
          if name = active s then (Inl (noError ''ACTIVE'' ''Script is active''), s)
          else if map_of (scripts s) name = None then (Inl (noError ''NONEXISTENT'' ''No such script''), s)
          else (Inr (), s\<lparr>scripts := AList.delete name (scripts s)\<rparr>))"

definition RenameScript :: "bytes \<Rightarrow> bytes \<Rightarrow> unit store_op" where
  "RenameScript oldName newName s =
     (case validateScriptName oldName False of
        Some e \<Rightarrow> (Inl e, s)
      | None \<Rightarrow>
          (case validateScriptName newName False of
             Some e \<Rightarrow> (Inl e, s)
           | None \<Rightarrow>
               (case map_of (scripts s) oldName of
                  None \<Rightarrow> (Inl (noError ''NONEXISTENT'' ''No such script''), s)
                | Some v \<Rightarrow>
                    if map_of (scripts s) newName \<noteq> None then (Inl (noError ''ALREADYEXISTS'' ''Target exists''), s)
                    else (Inr (), s\<lparr>scripts := AList.update newName v (AList.delete oldName (scripts s)),
                                    active := (if active s = oldName then newName else active s)\<rparr>))))"

definition HaveSpace :: "bytes \<Rightarrow> int \<Rightarrow> unit store_op" where
  "HaveSpace name size0 s =
     (case validateScriptName name False of
        Some e \<Rightarrow> (Inl e, s)
      | None \<Rightarrow>
          if size0 < 0 then (Inl (noError [] ''Invalid size''), s)
          else if MaxScriptLen (mopts s) > 0 \<and> size0 > MaxScriptLen (mopts s) then
            (Inl (noError ''QUOTA/MAXSIZE'' ''Script is too large''), s)
          else (Inr (), s))"

end
