(* ===== verification/Base64.thy ===== *)
theory Base64
  imports Go_Strings
begin

text \<open>
  The standard encoding of \<open>encoding/base64\<close>, which the ManageSieve client and server use for
  SASL messages: padded on output, and on input padding is required, line breaks are skipped and
  the unused bits of the last symbol are ignored.
\<close>

definition b64char :: "nat \<Rightarrow> char" where
  "b64char n =
     (if n < 26 then char_of (65 + n) else if n < 52 then char_of (71 + n)
      else if n < 62 then char_of (n - 4) else if n = 62 then CHR ''+'' else CHR ''/'')"

definition b64value :: "char \<Rightarrow> nat option" where
  "b64value c =
     (if is_upper c then Some (ord c - 65) else if is_lower c then Some (ord c - 71)
      else if is_digit c then Some (ord c + 4) else if c = CHR ''+'' then Some 62
      else if c = CHR ''/'' then Some 63 else None)"

fun EncodeToString :: "bytes \<Rightarrow> bytes" where
  "EncodeToString [] = []"
| "EncodeToString [a] = [b64char (ord a div 4), b64char (ord a mod 4 * 16), CHR ''='', CHR ''='']"
| "EncodeToString [a, b] =
     [b64char (ord a div 4), b64char (ord a mod 4 * 16 + ord b div 16), b64char (ord b mod 16 * 4), CHR ''='']"
| "EncodeToString (a # b # c # s) =
     [b64char (ord a div 4), b64char (ord a mod 4 * 16 + ord b div 16),
      b64char (ord b mod 16 * 4 + ord c div 64), b64char (ord c mod 64)] @ EncodeToString s"

text \<open>The quanta of four symbols; padding ends the input.\<close>

fun decodeQuanta :: "bytes \<Rightarrow> bytes option" where
  "decodeQuanta [] = Some []"
| "decodeQuanta (c0 # c1 # c2 # c3 # s) =
     (case (b64value c0, b64value c1) of
        (Some v0, Some v1) \<Rightarrow>
          if c2 = CHR ''='' then
            if c3 = CHR ''='' \<and> s = [] then Some [char_of (v0 * 4 + v1 div 16)] else None
          else (case b64value c2 of
                  None \<Rightarrow> None
                | Some v2 \<Rightarrow>
                    if c3 = CHR ''='' then
                      if s = [] then Some [char_of (v0 * 4 + v1 div 16), char_of (v1 mod 16 * 16 + v2 div 4)] else None
                    else (case (b64value c3, decodeQuanta s) of
                            (Some v3, Some r) \<Rightarrow>
                              Some (char_of (v0 * 4 + v1 div 16) # char_of (v1 mod 16 * 16 + v2 div 4) #
                                char_of (v2 mod 4 * 64 + v3) # r)
                          | _ \<Rightarrow> None))
      | _ \<Rightarrow> None)"
| "decodeQuanta _ = None"

definition DecodeString :: "bytes \<Rightarrow> bytes option" where
  "DecodeString s = decodeQuanta (filter (\<lambda>c. c \<noteq> CR \<and> c \<noteq> LF) s)"

section \<open>Round trip\<close>

lemma ord_b64char:
  "n < 64 \<Longrightarrow> ord (b64char n) =
     (if n < 26 then 65 + n else if n < 52 then 71 + n else if n < 62 then n - 4 else if n = 62 then 43 else 47)"
  by (simp add: b64char_def ord_char_of)

lemma b64value_b64char: "n < 64 \<Longrightarrow> b64value (b64char n) = Some n"
proof -
  assume n: "n < 64"
  consider "n < 26" | "26 \<le> n" "n < 52" | "52 \<le> n" "n < 62" | "n = 62" | "n = 63" using n by linarith
  then show ?thesis
    by cases (auto simp: b64value_def is_upper_def is_lower_def is_digit_def ord_b64char b64char_def [of 62] b64char_def [of 63])
qed

lemma b64char_plain: "n < 64 \<Longrightarrow> b64char n \<noteq> CHR ''='' \<and> b64char n \<noteq> CR \<and> b64char n \<noteq> LF"
proof -
  assume "n < 64"
  then have "ord (b64char n) \<noteq> 61 \<and> ord (b64char n) \<noteq> 13 \<and> ord (b64char n) \<noteq> 10" by (auto simp: ord_b64char)
  then show ?thesis by auto
qed

lemma sextets:
  fixes a b c :: char
  shows "ord a div 4 < 64" "ord a mod 4 * 16 + ord b div 16 < 64" "ord b mod 16 * 4 + ord c div 64 < 64"
    "ord c mod 64 < 64" "ord a mod 4 * 16 < 64" "ord b mod 16 * 4 < 64"
  using ord_less_256 [of a] ord_less_256 [of b] ord_less_256 [of c] by linarith+

lemma octets:
  fixes b c :: char
  shows "ord b div 16 div 16 = 0" "ord b div 16 mod 16 = ord b div 16" "ord c div 64 div 4 = 0" "ord c div 64 mod 4 = ord c div 64"
proof -
  have "ord b div 16 < 16" "ord c div 64 < 4" using ord_less_256 [of b] ord_less_256 [of c] by linarith+
  then show "ord b div 16 div 16 = 0" "ord b div 16 mod 16 = ord b div 16" "ord c div 64 div 4 = 0"
    "ord c div 64 mod 4 = ord c div 64"
    by (simp_all only: div_less mod_less)
qed

lemma EncodeToString_plain: "filter (\<lambda>c. c \<noteq> CR \<and> c \<noteq> LF) (EncodeToString s) = EncodeToString s"
  by (induction s rule: EncodeToString.induct) (simp_all add: b64char_plain sextets)

lemma decodeQuanta_encode: "decodeQuanta (EncodeToString s) = Some s"
  by (induction s rule: EncodeToString.induct)
    (simp_all add: b64value_b64char b64char_plain sextets octets)

lemma base64_round_trip: "DecodeString (EncodeToString s) = Some s"
  by (simp add: DecodeString_def EncodeToString_plain decodeQuanta_encode)

end
