(* ===== verification/Server.thy ===== *)
theory Server
  imports Storage Base64
begin

text \<open>
  \<open>managesieve/server/conn.go\<close>, the options of \<open>server.go\<close> and \<open>Conn.Authorize\<close> as the mechanisms
  of \<open>auth.go\<close> call it: one connection of the ManageSieve server.

  The connection holds the bytes that the current transport still delivers, and for each TLS
  handshake to come what it gives: the decrypted stream, or an error, how many bytes the reader
  had buffered before it, and what the raw transport delivers after it.  A handshake that is not
  listed reads the end of the stream and leaves the buffered bytes.
  The backend works on a state of its own, \<open>world\<close>, that every connection shares; a session is a
  handle.  A SASL mechanism of go-sasl or scram is a function of the responses so far: an error,
  a challenge, or the end with the owner that \<open>Authorize\<close> is called with.  Writing does not fail.
\<close>

section \<open>Options and backend\<close>

record server_options =
  TLSConfig :: bool
  InsecureAuth :: bool
  EnableUnauthenticate :: bool
  AuthTimeout :: int
  IdleTimeout :: int
  SMaxLiteralBytes :: int
  SMaxAtomBytes :: int
  SMaxQuotedBytes :: int
  SMaxCommandArgs :: int
  SMaxNonLiteralCommandLen :: int

text \<open>\<open>New\<close>: what replaces limits that are not positive.  Durations are in nanoseconds.\<close>

definition NewOptions :: "server_options \<Rightarrow> server_options" where
  "NewOptions os = os
     \<lparr>AuthTimeout := (if AuthTimeout os \<le> 0 then 30 * 1000000000 else AuthTimeout os),
      IdleTimeout := (if IdleTimeout os \<le> 0 then 30 * 60 * 1000000000 else IdleTimeout os),
      SMaxLiteralBytes := (if SMaxLiteralBytes os \<le> 0 then 33554432 else SMaxLiteralBytes os),
      SMaxAtomBytes := (if SMaxAtomBytes os \<le> 0 then 1024 else SMaxAtomBytes os),
      SMaxQuotedBytes := (if SMaxQuotedBytes os \<le> 0 then 1024 else SMaxQuotedBytes os),
      SMaxCommandArgs := (if SMaxCommandArgs os \<le> 0 then 32 else SMaxCommandArgs os),
      SMaxNonLiteralCommandLen := (if SMaxNonLiteralCommandLen os \<le> 0 then 16384 else SMaxNonLiteralCommandLen os)\<rparr>"

type_synonym ('s, 'a) session_op = "bytes \<Rightarrow> 's \<Rightarrow> (conn_error + 'a) \<times> 's"

record 's backend =
  BOpen :: "('s, bytes) session_op"
  BClose :: "bytes \<Rightarrow> 's \<Rightarrow> 's"
  BListScripts :: "('s, script_info list) session_op"
  BGetScript :: "bytes \<Rightarrow> ('s, bytes) session_op"
  BPutScript :: "bytes \<Rightarrow> bytes \<Rightarrow> ('s, unit) session_op"
  BCheckScript :: "bytes \<Rightarrow> ('s, unit) session_op"
  BSetActive :: "bytes \<Rightarrow> ('s, unit) session_op"
  BDeleteScript :: "bytes \<Rightarrow> ('s, unit) session_op"
  BRenameScript :: "bytes \<Rightarrow> bytes \<Rightarrow> ('s, unit) session_op"
  BHaveSpace :: "bytes \<Rightarrow> int \<Rightarrow> ('s, unit) session_op"

datatype sasl_outcome = SaslError conn_error | SaslChallenge bytes | SaslDone bytes bytes

type_synonym sasl_server = "bytes option list \<Rightarrow> sasl_outcome"

section \<open>Connections\<close>

record 's conn =
  rd :: bytes
  rdEnd :: io_error
  upgrades :: "((conn_error \<times> nat \<times> bytes) + bytes) list"
  isTLS :: bool
  written :: bytes
  world :: 's
  session :: "bytes option"
  owner :: bytes
  state :: conn_state
  closed :: bool
  crashed :: bool

record 's server =
  soptions :: server_options
  backend :: "'s backend"
  auths :: "(bytes \<times> (conn_error + sasl_server)) list"
  CapabilitiesFn :: "('s conn \<Rightarrow> capability_item list) option"
  suni :: unicode_tables

definition newConn :: "bytes \<Rightarrow> io_error \<Rightarrow> ((conn_error \<times> nat \<times> bytes) + bytes) list \<Rightarrow> bool \<Rightarrow> 's \<Rightarrow> 's conn" where
  "newConn stream en ups tls w =
     \<lparr>rd = stream, rdEnd = en, upgrades = ups, isTLS = tls, written = [], world = w, session = None, owner = [],
      state = ConnStateNotAuthenticated, closed = False, crashed = False\<rparr>"

definition connDecoder :: "server_options \<Rightarrow> io_error \<Rightarrow> decoder" where
  "connDecoder os en =
     \<lparr>MaxLiteralBytes = SMaxLiteralBytes os, MaxAtomBytes = SMaxAtomBytes os, MaxQuotedBytes = SMaxQuotedBytes os,
      MaxCommandArgs = SMaxCommandArgs os, MaxNonLiteralCommandLen = SMaxNonLiteralCommandLen os, streamEnd = en\<rparr>"

abbreviation dec :: "'s server \<Rightarrow> 's conn \<Rightarrow> decoder" where
  "dec srv c \<equiv> connDecoder (soptions srv) (rdEnd c)"

type_synonym ('s, 'a) conn_op = "'s conn \<Rightarrow> (conn_error + 'a) \<times> 's conn"

definition bindC :: "('s, 'a) conn_op \<Rightarrow> ('a \<Rightarrow> ('s, 'b) conn_op) \<Rightarrow> ('s, 'b) conn_op" where
  "bindC m k c = (case m c of (Inl e, c') \<Rightarrow> (Inl e, c') | (Inr x, c') \<Rightarrow> k x c')"

definition failC :: "conn_error \<Rightarrow> ('s, 'a) conn_op" where
  "failC e c = (Inl e, c)"

definition refuse :: "bytes \<Rightarrow> ('s, 'a) conn_op" where
  "refuse txt = failC (noError [] txt)"

section \<open>Writing\<close>

definition sendLine :: "encoder \<Rightarrow> ('s, unit) conn_op" where
  "sendLine e c =
     (case CRLF e of (er, e') \<Rightarrow>
        (case er of None \<Rightarrow> Inr () | Some _ \<Rightarrow> Inl (OtherError ''wire''), c\<lparr>written := written c @ encOut e'\<rparr>))"

definition encodeStatus :: "status_response \<Rightarrow> encoder" where
  "encodeStatus resp =
     (let e1 = Atom (if SType resp = [] then StatusOK else SType resp) NewEncoder;
          e2 = (if SCode resp \<noteq> [] then
                  Atom '')'' (fold (\<lambda>arg e. StringServer arg (SP e)) (SCodeArgs resp)
                    (Atom (SCode resp) (Atom ''('' (SP e1))))
                else e1) in
      if SText resp \<noteq> [] then StringServer (SText resp) (SP e2) else e2)"

definition writeStatus :: "status_response \<Rightarrow> ('s, unit) conn_op" where
  "writeStatus resp = sendLine (encodeStatus resp)"

definition statusOf :: "bytes \<Rightarrow> bytes \<Rightarrow> status_response" where
  "statusOf typ txt = \<lparr>SType = typ, SCode = [], SCodeArgs = [], SText = txt\<rparr>"

definition writeOK :: "('s, unit) conn_op" where
  "writeOK = writeStatus (statusOf StatusOK [])"

definition writeWarningsOrOK :: "(conn_error + unit) \<Rightarrow> ('s, unit) conn_op" where
  "writeWarningsOrOK r =
     (case r of
        Inr _ \<Rightarrow> writeOK
      | Inl (ScriptWarnings txt) \<Rightarrow>
          writeStatus \<lparr>SType = StatusOK, SCode = ''WARNINGS'', SCodeArgs = [], SText = txt\<rparr>
      | Inl e \<Rightarrow> failC e)"

section \<open>Capabilities\<close>

definition hasCapability :: "unicode_tables \<Rightarrow> capability_item list \<Rightarrow> bytes \<Rightarrow> bool" where
  "hasCapability U items want = list_ex (\<lambda>it. EqualFold U (CapName it) want) items"

definition allowPlain :: "'s server \<Rightarrow> 's conn \<Rightarrow> bool" where
  "allowPlain srv c \<longleftrightarrow> isTLS c \<or> InsecureAuth (soptions srv)"

definition saslCapability :: "'s server \<Rightarrow> 's conn \<Rightarrow> capability_item option" where
  "saslCapability srv c =
     (let filtered = filter (\<lambda>m. \<not> (EqualFold (suni srv) m ''PLAIN'' \<and> \<not> allowPlain srv c)) (map fst (auths srv)) in
      if filtered = [] then
        if state c = ConnStateNotAuthenticated \<and> TLSConfig (soptions srv) \<and> \<not> allowPlain srv c
        then Some \<lparr>CapName = ''SASL'', CapValue = Some []\<rparr> else None
      else Some \<lparr>CapName = ''SASL'', CapValue = Some (Join filtered '' '')\<rparr>)"

definition availableCapabilities :: "'s server \<Rightarrow> 's conn \<Rightarrow> capability_item list" where
  "availableCapabilities srv c =
     (let items = (case CapabilitiesFn srv of None \<Rightarrow> [] | Some f \<Rightarrow> f c);
          out0 = filter (\<lambda>it. \<not> EqualFold (suni srv) (CapName it) ''SASL'' \<and> \<not> EqualFold (suni srv) (CapName it) ''OWNER'') items;
          out1 = (if state c = ConnStateAuthenticated \<and> owner c \<noteq> [] then
                    out0 @ [\<lparr>CapName = ''OWNER'', CapValue = Some (owner c)\<rparr>] else out0);
          out2 = (if state c \<noteq> ConnStateAuthenticated then
                    (case saslCapability srv c of None \<Rightarrow> out1 | Some it \<Rightarrow> out1 @ [it]) else out1) in
      if EnableUnauthenticate (soptions srv) \<and> \<not> hasCapability (suni srv) out2 ''UNAUTHENTICATE''
      then out2 @ [\<lparr>CapName = ''UNAUTHENTICATE'', CapValue = None\<rparr>] else out2)"

definition capabilityItems :: "'s server \<Rightarrow> 's conn \<Rightarrow> capability_item list" where
  "capabilityItems srv c =
     (let items = availableCapabilities srv c in
      if TLSConfig (soptions srv) \<and> \<not> isTLS c \<and> state c = ConnStateNotAuthenticated \<and>
         \<not> hasCapability (suni srv) items ''STARTTLS''
      then items @ [\<lparr>CapName = ''STARTTLS'', CapValue = None\<rparr>] else items)"

fun sendLines :: "('a \<Rightarrow> encoder) \<Rightarrow> 'a list \<Rightarrow> ('s, unit) conn_op" where
  "sendLines f [] c = (Inr (), c)"
| "sendLines f (x # xs) c = bindC (sendLine (f x)) (\<lambda>_. sendLines f xs) c"

definition encodeCapability :: "capability_item \<Rightarrow> encoder" where
  "encodeCapability item =
     (let e = StringServer (CapName item) NewEncoder in
      case CapValue item of None \<Rightarrow> e | Some v \<Rightarrow> StringServer v (SP e))"

definition writeCapabilityResponse :: "'s server \<Rightarrow> status_response \<Rightarrow> ('s, unit) conn_op" where
  "writeCapabilityResponse srv st c =
     bindC (sendLines encodeCapability (capabilityItems srv c)) (\<lambda>_. writeStatus st) c"

section \<open>Authentication\<close>

text \<open>\<open>Authorize\<close>: opens the storage of the owner, closes an earlier session.\<close>

definition Authorize :: "'s server \<Rightarrow> bytes \<Rightarrow> ('s, unit) conn_op" where
  "Authorize srv owner0 c =
     (let own = (if owner0 = [] then owner c else owner0) in
      case BOpen (backend srv) own (world c) of
        (Inl e, w) \<Rightarrow> (Inl e, c\<lparr>world := w\<rparr>)
      | (Inr sess, w) \<Rightarrow>
          (let w' = (case session c of None \<Rightarrow> w | Some old \<Rightarrow> BClose (backend srv) old w) in
           (Inr (), c\<lparr>world := w', session := Some sess, owner := own, state := ConnStateAuthenticated\<rparr>)))"

definition decodeB64 :: "bytes \<Rightarrow> bytes option option" where
  "decodeB64 v = (if v = [] then Some None else map_option Some (DecodeString v))"

definition liftRead :: "'a rd \<Rightarrow> ('s, 'a) conn_op" where
  "liftRead m c = (case m (rd c) of (Inl e, r) \<Rightarrow> (Inl (WireFailed e), c\<lparr>rd := r\<rparr>) | (Inr x, r) \<Rightarrow> (Inr x, c\<lparr>rd := r\<rparr>))"

lemma ReadString_length: "ReadString D bs = (Inr x, r) \<Longrightarrow> length r < length bs"
  by (auto simp: ReadString_def split: prod.splits sum.splits dest!: readString_length)

lemma liftRead_rd: "liftRead m c = (Inr x, c') \<Longrightarrow> m (rd c) = (Inr x, rd c')"
  by (auto simp: liftRead_def split: prod.splits sum.splits)

lemma sendLine_rd [simp]: "sendLine e c = (r, c') \<Longrightarrow> rd c' = rd c"
  by (auto simp: sendLine_def split: prod.splits)

text \<open>The exchange of challenges and responses.\<close>

function authLoop :: "'s server \<Rightarrow> sasl_server \<Rightarrow> bytes option list \<Rightarrow> ('s, unit) conn_op" where
  "authLoop srv step hist c =
     (case step hist of
        SaslError e \<Rightarrow> (Inl e, c)
      | SaslDone challenge own \<Rightarrow>
          bindC (Authorize srv own) (\<lambda>_.
            writeCapabilityResponse srv
              (if challenge \<noteq> [] then
                 \<lparr>SType = StatusOK, SCode = ''SASL'', SCodeArgs = [EncodeToString challenge], SText = []\<rparr>
               else statusOf StatusOK [])) c
      | SaslChallenge challenge \<Rightarrow>
          (case sendLine (StringServer (EncodeToString challenge) NewEncoder) c of
             (Inl e, c1) \<Rightarrow> (Inl e, c1)
           | (Inr _, c1) \<Rightarrow>
               (case liftRead (ReadString (dec srv c1)) c1 of
                  (Inl e, c2) \<Rightarrow> (Inl e, c2)
                | (Inr inp, c2) \<Rightarrow>
                    (case liftRead (ExpectCRLF (dec srv c2)) c2 of
                       (Inl e, c3) \<Rightarrow> (Inl e, c3)
                     | (Inr _, c3) \<Rightarrow>
                         if inp = ''*'' then refuse ''Authentication cancelled'' c3
                         else (case decodeB64 inp of
                                 None \<Rightarrow> refuse ''Malformed SASL response'' c3
                               | Some resp \<Rightarrow> authLoop srv step (hist @ [resp]) c3)))))"
  by pat_completeness auto

termination
  by (relation "measure (\<lambda>(srv, step, hist, c). length (rd c))")
    (auto dest!: liftRead_rd [OF sym] sendLine_rd [OF sym] ReadString_length ExpectCRLF_length)

declare authLoop.simps [simp del]

definition handleAuthenticate :: "'s server \<Rightarrow> bytes list \<Rightarrow> ('s, unit) conn_op" where
  "handleAuthenticate srv args c =
     (case args of
        [] \<Rightarrow> refuse ''Invalid arguments'' c
      | mech0 # rest \<Rightarrow>
          if length rest > 1 then refuse ''Invalid arguments'' c
          else if state c \<noteq> ConnStateNotAuthenticated then refuse ''Wrong state'' c
          else if \<not> isTLS c \<and> \<not> InsecureAuth (soptions srv) then failC (noError ''ENCRYPT-NEEDED'' ''TLS required'') c
          else (case map_of (auths srv) (ToUpper (suni srv) mech0) of
                  None \<Rightarrow> refuse ''SASL mechanism not supported'' c
                | Some (Inl e) \<Rightarrow> (Inl e, c)
                | Some (Inr step) \<Rightarrow>
                    (case rest of
                       [] \<Rightarrow> authLoop srv step [None] c
                     | initial # _ \<Rightarrow>
                         (case decodeB64 initial of
                            None \<Rightarrow> refuse ''Malformed SASL response'' c
                          | Some resp \<Rightarrow> authLoop srv step [resp] c))))"

section \<open>Commands\<close>

text \<open>
  \<open>STARTTLS\<close>: what the old reader still holds is dropped with it when the handshake succeeds.
  When it fails the handler returns before it replaces the reader, whose buffer stays in use.
\<close>

definition handleStartTLS :: "'s server \<Rightarrow> bytes list \<Rightarrow> ('s, unit) conn_op" where
  "handleStartTLS srv args c =
     (if args \<noteq> [] then refuse ''Invalid arguments'' c
      else if state c \<noteq> ConnStateNotAuthenticated then refuse ''Wrong state'' c
      else if \<not> TLSConfig (soptions srv) then refuse ''STARTTLS unavailable'' c
      else bindC writeOK (\<lambda>_ c1.
        case upgrades c1 of
          [] \<Rightarrow> (Inl (WireFailed (WIo IoEOF)), c1)
        | Inl (e, n, r) # us \<Rightarrow> (Inl e, c1\<lparr>rd := take n (rd c1) @ r, upgrades := us\<rparr>)
        | Inr stream # us \<Rightarrow>
            writeCapabilityResponse srv (statusOf StatusOK []) (c1\<lparr>rd := stream, upgrades := us, isTLS := True\<rparr>)) c)"

text \<open>A call of the storage; without a session the pointer is nil.\<close>

definition onSession :: "('s, 'a) session_op \<Rightarrow> ('s, 'a) conn_op" where
  "onSession f c =
     (case session c of
        None \<Rightarrow> (Inl ConnPanic, c)
      | Some h \<Rightarrow> (case f h (world c) of (r, w) \<Rightarrow> (r, c\<lparr>world := w\<rparr>)))"

definition encodeScriptInfo :: "script_info \<Rightarrow> encoder" where
  "encodeScriptInfo it =
     (let e = StringServer (InfoName it) NewEncoder in if InfoActive it then Atom ''ACTIVE'' (SP e) else e)"

definition handleListScripts :: "'s server \<Rightarrow> bytes list \<Rightarrow> ('s, unit) conn_op" where
  "handleListScripts srv args =
     (if args \<noteq> [] then refuse ''Invalid arguments''
      else bindC (onSession (BListScripts (backend srv))) (\<lambda>list.
        bindC (sendLines encodeScriptInfo list) (\<lambda>_. writeOK)))"

definition handleGetScript :: "'s server \<Rightarrow> bytes list \<Rightarrow> ('s, unit) conn_op" where
  "handleGetScript srv args =
     (case args of
        [name] \<Rightarrow>
          bindC (onSession (BGetScript (backend srv) name)) (\<lambda>script.
            bindC (sendLine (StringServer script NewEncoder)) (\<lambda>_. writeOK))
      | _ \<Rightarrow> refuse ''Invalid arguments'')"

text \<open>The error of a storage call as a value, for \<open>writeWarningsOrOK\<close>.\<close>

definition tryC :: "('s, 'a) conn_op \<Rightarrow> ('s, conn_error + 'a) conn_op" where
  "tryC m c = (case m c of (r, c') \<Rightarrow> (Inr r, c'))"

definition handlePutScript :: "'s server \<Rightarrow> bytes list \<Rightarrow> ('s, unit) conn_op" where
  "handlePutScript srv args =
     (case args of
        [name, script] \<Rightarrow>
          if script = [] then refuse ''Empty script not allowed''
          else bindC (tryC (onSession (BPutScript (backend srv) name script))) writeWarningsOrOK
      | _ \<Rightarrow> refuse ''Invalid arguments'')"

definition handleCheckScript :: "'s server \<Rightarrow> bytes list \<Rightarrow> ('s, unit) conn_op" where
  "handleCheckScript srv args =
     (case args of
        [script] \<Rightarrow> bindC (tryC (onSession (BCheckScript (backend srv) script))) writeWarningsOrOK
      | _ \<Rightarrow> refuse ''Invalid arguments'')"

definition handleUnauthenticate :: "'s server \<Rightarrow> ('s, unit) conn_op" where
  "handleUnauthenticate srv c =
     (let w = (case session c of None \<Rightarrow> world c | Some h \<Rightarrow> BClose (backend srv) h (world c)) in
      writeCapabilityResponse srv (statusOf StatusOK [])
        (c\<lparr>world := w, session := None, owner := [], state := ConnStateNotAuthenticated\<rparr>))"

definition thenOK :: "('s, unit) conn_op \<Rightarrow> ('s, unit) conn_op" where
  "thenOK m = bindC m (\<lambda>_. writeOK)"

text \<open>The commands of an authenticated connection.\<close>

definition handleStored :: "'s server \<Rightarrow> bytes \<Rightarrow> bytes list \<Rightarrow> ('s, unit) conn_op" where
  "handleStored srv name args =
     (if name = ''LISTSCRIPTS'' then handleListScripts srv args
      else if name = ''GETSCRIPT'' then handleGetScript srv args
      else if name = ''PUTSCRIPT'' then handlePutScript srv args
      else if name = ''CHECKSCRIPT'' then handleCheckScript srv args
      else if name = ''SETACTIVE'' then
        (case args of [a] \<Rightarrow> thenOK (onSession (BSetActive (backend srv) a)) | _ \<Rightarrow> refuse ''Invalid arguments'')
      else if name = ''DELETESCRIPT'' then
        (case args of [a] \<Rightarrow> thenOK (onSession (BDeleteScript (backend srv) a)) | _ \<Rightarrow> refuse ''Invalid arguments'')
      else if name = ''RENAMESCRIPT'' then
        (case args of [a, b] \<Rightarrow> thenOK (onSession (BRenameScript (backend srv) a b)) | _ \<Rightarrow> refuse ''Invalid arguments'')
      else if name = ''HAVESPACE'' then
        (case args of
           [a, b] \<Rightarrow>
             (case Atoi b of
                None \<Rightarrow> refuse ''Invalid size''
              | Some n \<Rightarrow> thenOK (onSession (BHaveSpace (backend srv) a n)))
         | _ \<Rightarrow> refuse ''Invalid arguments'')
      else if name = ''UNAUTHENTICATE'' then
        if args \<noteq> [] then refuse ''Invalid arguments'' else handleUnauthenticate srv
      else refuse ''Unknown command'')"

definition handleCommand :: "'s server \<Rightarrow> bytes \<Rightarrow> bytes list \<Rightarrow> ('s, unit) conn_op" where
  "handleCommand srv name0 args c =
     (let name = ToUpper (suni srv) name0 in
      if name = ''CAPABILITY'' then
        if args \<noteq> [] then refuse ''Invalid arguments'' c else writeCapabilityResponse srv (statusOf StatusOK []) c
      else if name = ''STARTTLS'' then handleStartTLS srv args c
      else if name = ''AUTHENTICATE'' then handleAuthenticate srv args c
      else if name = ''LOGOUT'' then
        if args \<noteq> [] then refuse ''Invalid arguments'' c else writeOK (c\<lparr>state := ConnStateLogout\<rparr>)
      else if name = ''NOOP'' then
        (case args of
           [] \<Rightarrow> writeOK c
         | [tag] \<Rightarrow> writeStatus \<lparr>SType = StatusOK, SCode = ''TAG'', SCodeArgs = [tag], SText = []\<rparr> c
         | _ \<Rightarrow> refuse ''Invalid arguments'' c)
      else if state c \<noteq> ConnStateAuthenticated then refuse ''Authenticate first'' c
      else handleStored srv name args c)"

section \<open>Serving\<close>

datatype serve_next = Continue | Return

definition isTimeoutError :: "conn_error \<Rightarrow> bool" where
  "isTimeoutError e \<longleftrightarrow> e = WireFailed (WIo IoTimeout)"

definition sayBye :: "'s conn \<Rightarrow> 's conn" where
  "sayBye c = snd (writeStatus (statusOf StatusBYE ''Idle timeout'') c)"

text \<open>What the loop does with the result of a command.\<close>

definition afterCommand :: "(conn_error + unit) \<times> 's conn \<Rightarrow> serve_next \<times> 's conn" where
  "afterCommand rc =
     (case rc of (r, c) \<Rightarrow>
        (case r of
           Inr _ \<Rightarrow> (if state c = ConnStateLogout then Return else Continue, c)
         | Inl ConnPanic \<Rightarrow> (Return, c\<lparr>crashed := True\<rparr>)
         | Inl (MsError st) \<Rightarrow> (Continue, snd (writeStatus st c))
         | Inl e \<Rightarrow>
             if isTimeoutError e then (Return, sayBye c)
             else (if state c = ConnStateLogout then Return else Continue,
                   snd (writeStatus (statusOf StatusNO ''Internal server error'') c))))"

text \<open>One round of the loop.\<close>

definition serveStep :: "'s server \<Rightarrow> 's conn \<Rightarrow> serve_next \<times> 's conn" where
  "serveStep srv c =
     (case liftRead (ReadCommand (suni srv) (dec srv c)) c of
        (Inl (WireFailed (WIo IoTimeout)), c1) \<Rightarrow> (Return, sayBye c1)
      | (Inl (WireFailed (WIo _)), c1) \<Rightarrow> (Return, c1)
      | (Inl _, c1) \<Rightarrow> (Return, snd (writeStatus (statusOf StatusNO ''Syntax error'') c1))
      | (Inr (name, args), c1) \<Rightarrow> afterCommand (handleCommand srv name args c1))"

text \<open>The loop on fuel: \<open>None\<close> when the fuel runs out.\<close>

fun serveLoop :: "nat \<Rightarrow> 's server \<Rightarrow> 's conn \<Rightarrow> 's conn option" where
  "serveLoop 0 srv c = None"
| "serveLoop (Suc n) srv c =
     (case serveStep srv c of (Return, c') \<Rightarrow> Some c' | (Continue, c') \<Rightarrow> serveLoop n srv c')"

definition Conn_Close :: "'s server \<Rightarrow> 's conn \<Rightarrow> 's conn" where
  "Conn_Close srv c =
     (if closed c then c
      else c\<lparr>closed := True, state := ConnStateLogout,
             world := (case session c of None \<Rightarrow> world c | Some h \<Rightarrow> BClose (backend srv) h (world c))\<rparr>)"

definition serve :: "nat \<Rightarrow> 's server \<Rightarrow> 's conn \<Rightarrow> 's conn option" where
  "serve n srv c =
     (case writeCapabilityResponse srv (statusOf StatusOK []) c of
        (Inl _, c1) \<Rightarrow> Some (Conn_Close srv c1)
      | (Inr _, c1) \<Rightarrow> map_option (Conn_Close srv) (serveLoop n srv c1))"

end
