(* ===== verification/Client.thy ===== *)
theory Client
  imports Server
begin

text \<open>
  \<open>managesieve/client/client.go\<close> and the capabilities of \<open>managesieve/types.go\<close>: the ManageSieve
  client.

  A client holds the bytes that arrived and are not read yet, and the bytes that it wrote since
  the last complete line.  The network is a parameter: \<open>deliver\<close> gives what the peer sends in
  answer to what the client wrote, \<open>handshake\<close> what a TLS handshake gives, the decrypted stream or
  an error.  Bytes written before the end of a line reach the peer with the line.  A SASL client
  is a function of the challenges so far.  The lock of the client only orders its calls.
\<close>

section \<open>Capabilities\<close>

record capabilities =
  Items :: "bytes \<rightharpoonup> bytes option"
  CapSet :: "bytes set"
  CImplementation :: bytes
  CSASL :: "bytes list option"
  CSieve :: "bytes list option"
  CStartTLS :: bool
  CMaxRedirects :: "32 word option"
  CNotify :: "bytes list option"
  CLanguage :: bytes
  COwner :: bytes
  CVersion :: bytes

definition noCapabilities :: capabilities where
  "noCapabilities =
     \<lparr>Items = Map.empty, CapSet = {}, CImplementation = [], CSASL = None, CSieve = None, CStartTLS = False,
      CMaxRedirects = None, CNotify = None, CLanguage = [], COwner = [], CVersion = []\<rparr>"

definition CapSet_Has :: "bytes set \<Rightarrow> bytes \<Rightarrow> bool" where
  "CapSet_Has s cp \<longleftrightarrow> cp \<in> s"

definition CapSet_Slice :: "bytes set \<Rightarrow> bytes list" where
  "CapSet_Slice s = sorted_list_of_set s"

definition splitWS :: "bytes \<Rightarrow> bytes list option" where
  "splitWS v = (let t = TrimSpace v in if t = [] then None else Some (Fields t))"

definition parseUint32 :: "bytes \<Rightarrow> 32 word option" where
  "parseUint32 v = map_option of_nat (ParseUint 32 (TrimSpace v))"

text \<open>The fields that one item sets.\<close>

definition addCapability :: "unicode_tables \<Rightarrow> capability_item \<Rightarrow> capabilities \<Rightarrow> capabilities" where
  "addCapability U it out0 =
     (let name = ToUpper U (CapName it);
          out = out0\<lparr>CapSet := insert name (CapSet out0), Items := (Items out0)(name \<mapsto> CapValue it)\<rparr> in
      if name = ''STARTTLS'' then out\<lparr>CStartTLS := True\<rparr>
      else (case CapValue it of
              None \<Rightarrow> out
            | Some v \<Rightarrow>
                if name = ''IMPLEMENTATION'' then out\<lparr>CImplementation := v\<rparr>
                else if name = ''SASL'' then out\<lparr>CSASL := splitWS v\<rparr>
                else if name = ''SIEVE'' then out\<lparr>CSieve := splitWS v\<rparr>
                else if name = ''MAXREDIRECTS'' then
                  (case parseUint32 v of None \<Rightarrow> out | Some n \<Rightarrow> out\<lparr>CMaxRedirects := Some n\<rparr>)
                else if name = ''NOTIFY'' then out\<lparr>CNotify := splitWS v\<rparr>
                else if name = ''LANGUAGE'' then out\<lparr>CLanguage := v\<rparr>
                else if name = ''OWNER'' then out\<lparr>COwner := v\<rparr>
                else if name = ''VERSION'' then out\<lparr>CVersion := v\<rparr>
                else out))"

definition NewCapabilities :: "unicode_tables \<Rightarrow> capability_item list \<Rightarrow> capabilities" where
  "NewCapabilities U items = fold (addCapability U) items noCapabilities"

definition Capabilities_Value :: "unicode_tables \<Rightarrow> capabilities \<Rightarrow> bytes \<Rightarrow> bytes \<times> bool" where
  "Capabilities_Value U cs name =
     (case Items cs (ToUpper U name) of Some (Some v) \<Rightarrow> (v, True) | _ \<Rightarrow> ([], False))"

text \<open>\<open>Error.Error\<close>, and \<open>ConnState.String\<close> on the three states.\<close>

definition Error_Error :: "status_response \<Rightarrow> bytes" where
  "Error_Error e =
     ''managesieve: '' @ SType e @
     (if SCode e \<noteq> [] then
        '' ('' @ SCode e @ (if SCodeArgs e \<noteq> [] then '' '' @ Join (SCodeArgs e) '' '' else []) @ '')''
      else []) @
     (if SText e \<noteq> [] then '' '' @ SText e else [])"

definition ConnState_String :: "conn_state \<Rightarrow> bytes" where
  "ConnState_String s =
     (case s of
        ConnStateNotAuthenticated \<Rightarrow> ''not-authenticated''
      | ConnStateAuthenticated \<Rightarrow> ''authenticated''
      | ConnStateLogout \<Rightarrow> ''logout'')"

section \<open>Clients\<close>

record 'p net =
  deliver :: "bytes \<Rightarrow> 'p \<Rightarrow> bytes \<times> 'p"
  handshake :: "'p \<Rightarrow> (conn_error + bytes) \<times> 'p"
  AllowInsecureAuth :: bool
  nuni :: unicode_tables

record 'p client =
  cin :: bytes
  cinEnd :: io_error
  cbuf :: bytes
  peer :: 'p
  ctls :: bool
  cstate :: conn_state
  caps :: capabilities
  cshut :: bool

type_synonym ('p, 'a) client_op = "'p client \<Rightarrow> (conn_error + 'a) \<times> 'p client"

definition clientDecoder :: "io_error \<Rightarrow> decoder" where
  "clientDecoder en =
     \<lparr>MaxLiteralBytes = 33554432, MaxAtomBytes = 1024, MaxQuotedBytes = 1024, MaxCommandArgs = 32,
      MaxNonLiteralCommandLen = 16384, streamEnd = en\<rparr>"

abbreviation cdec :: "'p client \<Rightarrow> decoder" where
  "cdec c \<equiv> clientDecoder (cinEnd c)"

definition bindK :: "('p, 'a) client_op \<Rightarrow> ('a \<Rightarrow> ('p, 'b) client_op) \<Rightarrow> ('p, 'b) client_op" where
  "bindK m k c = (case m c of (Inl e, c') \<Rightarrow> (Inl e, c') | (Inr x, c') \<Rightarrow> k x c')"

definition failK :: "conn_error \<Rightarrow> ('p, 'a) client_op" where
  "failK e c = (Inl e, c)"

definition recv :: "(decoder \<Rightarrow> 'a rd) \<Rightarrow> ('p, 'a) client_op" where
  "recv m c =
     (case m (cdec c) (cin c) of
        (Inl e, r) \<Rightarrow> (Inl (WireFailed e), c\<lparr>cin := r\<rparr>)
      | (Inr x, r) \<Rightarrow> (Inr x, c\<lparr>cin := r\<rparr>))"

text \<open>The end of a line, and the flush.\<close>

definition endLine :: "'p net \<Rightarrow> encoder \<Rightarrow> ('p, unit) client_op" where
  "endLine net e c =
     (case CRLF e of (er, e') \<Rightarrow>
        (case er of
           Some _ \<Rightarrow> (Inl (OtherError ''wire''), c\<lparr>cbuf := cbuf c @ encOut e'\<rparr>)
         | None \<Rightarrow>
             (case deliver net (cbuf c @ encOut e') (peer c) of (r, p) \<Rightarrow>
                (Inr (), c\<lparr>cbuf := [], cin := cin c @ r, peer := p\<rparr>))))"

section \<open>Commands\<close>

datatype command_arg = strArg bytes | numArg int

definition encodeArg :: "command_arg \<Rightarrow> encoder \<Rightarrow> encoder" where
  "encodeArg a e = (case a of numArg n \<Rightarrow> Atom (Itoa n) (SP e) | strArg v \<Rightarrow> StringClient v (SP e))"

definition writeSimpleCommandLocked :: "'p net \<Rightarrow> bytes \<Rightarrow> command_arg list \<Rightarrow> ('p, unit) client_op" where
  "writeSimpleCommandLocked net name args =
     endLine net (fold encodeArg args (Atom (ToUpper (nuni net) name) NewEncoder))"

definition requireAuthenticatedLocked :: "('p, unit) client_op" where
  "requireAuthenticatedLocked c =
     (if cstate c \<noteq> ConnStateAuthenticated
      then (Inl (OtherError ''managesieve/client: command requires authenticated state''), c) else (Inr (), c))"

definition expectOK :: "'p net \<Rightarrow> ('p, unit) client_op" where
  "expectOK net =
     bindK (recv (ReadStatusLine (nuni net))) (\<lambda>st. if SType st \<noteq> StatusOK then failK (MsError st) else Pair (Inr ()))"

definition runSimpleAuthenticated :: "'p net \<Rightarrow> bytes \<Rightarrow> command_arg list \<Rightarrow> ('p, unit) client_op" where
  "runSimpleAuthenticated net name args =
     bindK requireAuthenticatedLocked (\<lambda>_.
       bindK (writeSimpleCommandLocked net name args) (\<lambda>_. expectOK net))"

definition Client_SetActive :: "'p net \<Rightarrow> bytes \<Rightarrow> ('p, unit) client_op" where
  "Client_SetActive net name = runSimpleAuthenticated net ''SETACTIVE'' [strArg name]"

definition Client_DeleteScript :: "'p net \<Rightarrow> bytes \<Rightarrow> ('p, unit) client_op" where
  "Client_DeleteScript net name = runSimpleAuthenticated net ''DELETESCRIPT'' [strArg name]"

definition Client_RenameScript :: "'p net \<Rightarrow> bytes \<Rightarrow> bytes \<Rightarrow> ('p, unit) client_op" where
  "Client_RenameScript net oldName newName =
     runSimpleAuthenticated net ''RENAMESCRIPT'' [strArg oldName, strArg newName]"

definition negativeSize :: conn_error where
  "negativeSize = OtherError ''managesieve/client: negative script size''"

definition Client_HaveSpace :: "'p net \<Rightarrow> bytes \<Rightarrow> int \<Rightarrow> ('p, unit) client_op" where
  "Client_HaveSpace net name size0 =
     (if size0 < 0 then failK negativeSize
      else runSimpleAuthenticated net ''HAVESPACE'' [strArg name, numArg size0])"

definition Noop :: "'p net \<Rightarrow> bytes \<Rightarrow> ('p, unit) client_op" where
  "Noop net tag =
     bindK (writeSimpleCommandLocked net ''NOOP'' (if tag \<noteq> [] then [strArg tag] else [])) (\<lambda>_. expectOK net)"

definition Logout :: "'p net \<Rightarrow> ('p, unit) client_op" where
  "Logout net =
     bindK (writeSimpleCommandLocked net ''LOGOUT'' []) (\<lambda>_.
       bindK (recv (ReadStatusLine (nuni net))) (\<lambda>st c.
         if SType st \<noteq> StatusOK \<and> SType st \<noteq> StatusBYE then (Inl (MsError st), c\<lparr>cstate := ConnStateLogout\<rparr>)
         else (Inr (), c\<lparr>cstate := ConnStateLogout, cshut := True\<rparr>)))"

definition Client_Close :: "('p, unit) client_op" where
  "Client_Close c = (Inr (), c\<lparr>cstate := ConnStateLogout, cshut := True\<rparr>)"

definition Client_GetScript :: "'p net \<Rightarrow> bytes \<Rightarrow> ('p, bytes) client_op" where
  "Client_GetScript net name =
     bindK requireAuthenticatedLocked (\<lambda>_.
       bindK (writeSimpleCommandLocked net ''GETSCRIPT'' [strArg name]) (\<lambda>_.
         bindK (recv PeekByte) (\<lambda>b.
           if b \<noteq> DQUOTE \<and> b \<noteq> CHR ''{'' then
             bindK (recv (ReadStatusLine (nuni net))) (\<lambda>st. failK (MsError st))
           else
             bindK (recv ReadString) (\<lambda>script.
               bindK (recv ExpectCRLF) (\<lambda>_.
                 bindK (expectOK net) (\<lambda>_. Pair (Inr script)))))))"

text \<open>
  A script from a reader: the chunks that \<open>io.Copy\<close> reads, and whether reading ends with an error.
\<close>

record reader =
  chunks :: "bytes list"
  readFails :: bool

fun copyLiteral :: "bytes list \<Rightarrow> bool \<Rightarrow> int \<Rightarrow> encoder \<Rightarrow> (conn_error + int) \<times> encoder" where
  "copyLiteral [] fails remain e = (if fails then Inl (OtherError ''read'') else Inr remain, e)"
| "copyLiteral (p # ps) fails remain e =
     (case literalWrite p remain e of
        (Inl _, e') \<Rightarrow> (Inl (OtherError ''wire''), e')
      | (Inr remain', e') \<Rightarrow> copyLiteral ps fails remain' e')"

definition sendScript :: "'p net \<Rightarrow> reader \<Rightarrow> int \<Rightarrow> encoder \<Rightarrow> ('p, unit) client_op" where
  "sendScript net r size0 e c =
     (case Literal size0 True e of
        (None, e1) \<Rightarrow> (Inl (OtherError ''wire''), c\<lparr>cbuf := cbuf c @ encOut e1\<rparr>)
      | (Some remain, e1) \<Rightarrow>
          (case copyLiteral (chunks r) (readFails r) remain e1 of
             (Inl er, e2) \<Rightarrow> (Inl er, c\<lparr>cbuf := cbuf c @ encOut e2\<rparr>)
           | (Inr remain', e2) \<Rightarrow>
               (case literalClose remain' e2 of
                  (Some _, e3) \<Rightarrow> (Inl (OtherError ''wire''), c\<lparr>cbuf := cbuf c @ encOut e3\<rparr>)
                | (None, e3) \<Rightarrow> endLine net e3 c)))"

definition Client_PutScript :: "'p net \<Rightarrow> bytes \<Rightarrow> reader \<Rightarrow> int \<Rightarrow> ('p, unit) client_op" where
  "Client_PutScript net name r size0 =
     (if size0 < 0 then failK negativeSize
      else bindK requireAuthenticatedLocked (\<lambda>_.
        bindK (sendScript net r size0 (SP (StringClient name (SP (Atom ''PUTSCRIPT'' NewEncoder))))) (\<lambda>_. expectOK net)))"

definition Client_CheckScript :: "'p net \<Rightarrow> reader \<Rightarrow> int \<Rightarrow> ('p, unit) client_op" where
  "Client_CheckScript net r size0 =
     (if size0 < 0 then failK negativeSize
      else bindK requireAuthenticatedLocked (\<lambda>_.
        bindK (sendScript net r size0 (SP (Atom ''CHECKSCRIPT'' NewEncoder))) (\<lambda>_. expectOK net)))"

section \<open>Lists of answers\<close>

lemma recv_cin: "recv m c = (Inr x, c') \<Longrightarrow> m (cdec c) (cin c) = (Inr x, cin c')"
  by (auto simp: recv_def split: prod.splits sum.splits)

lemma PeekByte_same: "PeekByte D bs = (x, r) \<Longrightarrow> r = bs"
  by (auto simp: PeekByte_def endOf_def split: list.splits)

lemma ReadAtom_length: "ReadAtom D bs = (Inr x, r) \<Longrightarrow> length r < length bs"
  by (auto simp: ReadAtom_def split: prod.splits sum.splits dest!: readAtom_length)

lemma rdBind: "(case p of (Inl e, r) \<Rightarrow> (Inl e, r) | (Inr x, r) \<Rightarrow> k x r) = (Inr y, s) \<Longrightarrow>
    (\<And>x r. p = (Inr x, r) \<Longrightarrow> k x r = (Inr y, s) \<Longrightarrow> P) \<Longrightarrow> P"
  by (auto split: prod.splits sum.splits)

lemma ReadScriptOrStatus_length: "ReadScriptOrStatus U D bs = (Inr (Inl it), r) \<Longrightarrow> length r < length bs"
  unfolding ReadScriptOrStatus_def
  by (elim rdBind, simp split: if_splits; elim rdBind, simp split: if_splits; elim rdBind)
    (auto dest!: PeekByte_same ReadString_length ReadAtom_length ExpectCRLF_length)

lemma ReadCapabilityOrStatus_length: "ReadCapabilityOrStatus U D bs = (Inr (Inl it), r) \<Longrightarrow> length r < length bs"
  unfolding ReadCapabilityOrStatus_def
  by (elim rdBind, simp split: if_splits; elim rdBind, simp split: if_splits; elim rdBind)
    (auto dest!: PeekByte_same ReadString_length ExpectCRLF_length)

function listLoop :: "'p net \<Rightarrow> script_info list \<Rightarrow> ('p, script_info list) client_op" where
  "listLoop net acc c =
     (case recv (ReadScriptOrStatus (nuni net)) c of
        (Inl e, c1) \<Rightarrow> (Inl e, c1)
      | (Inr (Inl info), c1) \<Rightarrow> listLoop net (acc @ [info]) c1
      | (Inr (Inr st), c1) \<Rightarrow> (if SType st \<noteq> StatusOK then Inl (MsError st) else Inr acc, c1))"
  by pat_completeness auto

termination
  by (relation "measure (\<lambda>(net, acc, c). length (cin c))")
    (auto dest!: recv_cin [OF sym] ReadScriptOrStatus_length)

declare listLoop.simps [simp del]

definition Client_ListScripts :: "'p net \<Rightarrow> ('p, script_info list) client_op" where
  "Client_ListScripts net =
     bindK requireAuthenticatedLocked (\<lambda>_.
       bindK (writeSimpleCommandLocked net ''LISTSCRIPTS'' []) (\<lambda>_. listLoop net []))"

text \<open>The items of a capability response, or the status that refuses.\<close>

function capabilityLoop :: "'p net \<Rightarrow> capability_item list \<Rightarrow> ('p, status_response + capability_item list) client_op" where
  "capabilityLoop net acc c =
     (case recv (ReadCapabilityOrStatus (nuni net)) c of
        (Inl e, c1) \<Rightarrow> (Inl e, c1)
      | (Inr (Inl it), c1) \<Rightarrow> capabilityLoop net (acc @ [it]) c1
      | (Inr (Inr st), c1) \<Rightarrow> (Inr (if SType st \<noteq> StatusOK then Inl st else Inr acc), c1))"
  by pat_completeness auto

termination
  by (relation "measure (\<lambda>(net, acc, c). length (cin c))")
    (auto dest!: recv_cin [OF sym] ReadCapabilityOrStatus_length)

declare capabilityLoop.simps [simp del]

definition readCapabilitiesGreetingLocked :: "'p net \<Rightarrow> ('p, unit) client_op" where
  "readCapabilitiesGreetingLocked net =
     bindK (capabilityLoop net []) (\<lambda>r c.
       case r of
         Inl st \<Rightarrow> (Inl (MsError st), c\<lparr>cstate := ConnStateLogout\<rparr>)
       | Inr items \<Rightarrow> (Inr (), c\<lparr>caps := NewCapabilities (nuni net) items\<rparr>))"

definition readCapabilitiesResponseLocked :: "'p net \<Rightarrow> ('p, unit) client_op" where
  "readCapabilitiesResponseLocked net =
     bindK (capabilityLoop net []) (\<lambda>r c.
       case r of
         Inl st \<Rightarrow> (Inl (MsError st), c)
       | Inr items \<Rightarrow> (Inr (), c\<lparr>caps := NewCapabilities (nuni net) items\<rparr>))"

definition refreshCapabilitiesLocked :: "'p net \<Rightarrow> ('p, unit) client_op" where
  "refreshCapabilitiesLocked net =
     bindK (writeSimpleCommandLocked net ''CAPABILITY'' []) (\<lambda>_. readCapabilitiesResponseLocked net)"

definition Client_Capability :: "'p net \<Rightarrow> ('p, capabilities) client_op" where
  "Client_Capability net = bindK (refreshCapabilitiesLocked net) (\<lambda>_ c. (Inr (caps c), c))"

text \<open>\<open>New\<close>: a client on a connection where the peer has sent \<open>greeting\<close>.\<close>

definition Client_New :: "'p net \<Rightarrow> bytes \<Rightarrow> io_error \<Rightarrow> bool \<Rightarrow> 'p \<Rightarrow> (conn_error + 'p client) \<times> 'p client" where
  "Client_New net greeting en tls p =
     (let c = \<lparr>cin = greeting, cinEnd = en, cbuf = [], peer = p, ctls = tls, cstate = ConnStateNotAuthenticated,
               caps = noCapabilities, cshut = False\<rparr> in
      case readCapabilitiesGreetingLocked net c of
        (Inl e, c1) \<Rightarrow> (Inl e, c1\<lparr>cshut := True\<rparr>)
      | (Inr _, c1) \<Rightarrow> (Inr c1, c1))"

text \<open>\<open>StartTLS\<close>: the reader of the plaintext connection is dropped.\<close>

definition Client_StartTLS :: "'p net \<Rightarrow> ('p, unit) client_op" where
  "Client_StartTLS net c0 =
     (if cstate c0 \<noteq> ConnStateNotAuthenticated then
        (Inl (OtherError ''managesieve/client: STARTTLS only valid in not-authenticated state''), c0)
      else if \<not> CStartTLS (caps c0) then
        (Inl (OtherError (''managesieve/client: server doesn'' @ [CHR 0x27] @ ''t advertise STARTTLS'')), c0)
      else bindK (writeSimpleCommandLocked net ''STARTTLS'' []) (\<lambda>_.
        bindK (expectOK net) (\<lambda>_ c.
          case handshake net (peer c) of
            (Inl e, p) \<Rightarrow> (Inl e, c\<lparr>peer := p\<rparr>)
          | (Inr stream, p) \<Rightarrow>
              readCapabilitiesResponseLocked net (c\<lparr>peer := p, cin := stream, cbuf := [], ctls := True\<rparr>))) c0)"

section \<open>Authentication\<close>

text \<open>\<open>sort.SearchStrings\<close>: the least index of a sorted list whose string is not below the one sought.\<close>

definition SearchStrings :: "bytes list \<Rightarrow> bytes \<Rightarrow> nat" where
  "SearchStrings xs v = length (takeWhile (\<lambda>x. x < v) xs)"

definition isCapabilityName :: "unicode_tables \<Rightarrow> bytes \<Rightarrow> bool" where
  "isCapabilityName U v0 \<longleftrightarrow>
     (let known = sort [''IMPLEMENTATION'', ''SASL'', ''SIEVE'', ''STARTTLS'', ''MAXREDIRECTS'', ''NOTIFY'', ''LANGUAGE'',
                        ''OWNER'', ''VERSION'', ''UNAUTHENTICATE''];
          v = ToUpper U v0; i = SearchStrings known v in
      i < length known \<and> known ! i = v)"

record sasl_client =
  scStart :: "conn_error + bytes \<times> bytes option"
  scNext :: "bytes option list \<Rightarrow> conn_error + bytes"

datatype auth_item = AuthCapability capability_item | AuthChallenge bytes | AuthStatus status_response

text \<open>One answer of the server; with capabilities before it, a lone string is one too.\<close>

definition readAuthItem :: "'p net \<Rightarrow> bool \<Rightarrow> ('p, auth_item) client_op" where
  "readAuthItem net inCaps =
     bindK (recv PeekByte) (\<lambda>b.
       if b = DQUOTE \<or> b = CHR ''{'' then
         bindK (recv ReadString) (\<lambda>line.
           bindK (recv PeekByte) (\<lambda>pb.
             if pb = CHR '' '' then
               bindK (recv ReadString) (\<lambda>v.
                 bindK (recv ExpectCRLF) (\<lambda>_. Pair (Inr (AuthCapability \<lparr>CapName = line, CapValue = Some v\<rparr>))))
             else
               bindK (recv ExpectCRLF) (\<lambda>_. Pair (Inr
                 (if inCaps \<or> isCapabilityName (nuni net) line then AuthCapability \<lparr>CapName = line, CapValue = None\<rparr>
                  else AuthChallenge line)))))
       else bindK (recv (ReadStatusLine (nuni net))) (\<lambda>st. Pair (Inr (AuthStatus st))))"

definition badChallenge :: conn_error where
  "badChallenge = OtherError ''managesieve/client: invalid base64 challenge''"

definition authFinish :: "'p net \<Rightarrow> sasl_client \<Rightarrow> bytes option list \<Rightarrow> capability_item list \<Rightarrow> status_response \<Rightarrow> ('p, unit) client_op" where
  "authFinish net sc hist items st c =
     (let finish = (\<lambda>c. if items \<noteq> [] then (Inr (), c\<lparr>cstate := ConnStateAuthenticated, caps := NewCapabilities (nuni net) items\<rparr>)
                        else refreshCapabilitiesLocked net (c\<lparr>cstate := ConnStateAuthenticated\<rparr>)) in
      if SType st \<noteq> StatusOK then (Inl (MsError st), c)
      else if SCode st = ''SASL'' \<and> SCodeArgs st \<noteq> [] then
        (case decodeB64 (hd (SCodeArgs st)) of
           None \<Rightarrow> (Inl badChallenge, c)
         | Some finalMsg \<Rightarrow> (case scNext sc (hist @ [finalMsg]) of Inl e \<Rightarrow> (Inl e, c) | Inr _ \<Rightarrow> finish c))
      else finish c)"

text \<open>The loop on fuel: a peer may send challenges without end.\<close>

fun authClientLoop ::
  "nat \<Rightarrow> 'p net \<Rightarrow> sasl_client \<Rightarrow> bytes option list \<Rightarrow> capability_item list \<Rightarrow> 'p client \<Rightarrow>
     ((conn_error + unit) \<times> 'p client) option" where
  "authClientLoop 0 net sc hist items c = None"
| "authClientLoop (Suc n) net sc hist items c =
     (case readAuthItem net (items \<noteq> []) c of
        (Inl e, c1) \<Rightarrow> Some (Inl e, c1)
      | (Inr (AuthCapability it), c1) \<Rightarrow> authClientLoop n net sc hist (items @ [it]) c1
      | (Inr (AuthStatus st), c1) \<Rightarrow> Some (authFinish net sc hist items st c1)
      | (Inr (AuthChallenge line), c1) \<Rightarrow>
          (case decodeB64 line of
             None \<Rightarrow> Some (Inl badChallenge, c1)
           | Some challenge \<Rightarrow>
               (case scNext sc (hist @ [challenge]) of
                  Inl e \<Rightarrow> Some (Inl e, c1)
                | Inr resp \<Rightarrow>
                    (case endLine net (StringClient (EncodeToString resp) NewEncoder) c1 of
                       (Inl e, c2) \<Rightarrow> Some (Inl e, c2)
                     | (Inr _, c2) \<Rightarrow> authClientLoop n net sc (hist @ [challenge]) items c2))))"

definition Client_Authenticate :: "nat \<Rightarrow> 'p net \<Rightarrow> sasl_client \<Rightarrow> 'p client \<Rightarrow> ((conn_error + unit) \<times> 'p client) option" where
  "Client_Authenticate n net sc c =
     (if cstate c \<noteq> ConnStateNotAuthenticated then
        Some (Inl (OtherError ''managesieve/client: AUTHENTICATE only valid in not-authenticated state''), c)
      else if \<not> ctls c \<and> \<not> AllowInsecureAuth net then
        Some (Inl (OtherError ''managesieve/client: TLS is required for authentication''), c)
      else (case scStart sc of
              Inl e \<Rightarrow> Some (Inl e, c)
            | Inr (mech, ir) \<Rightarrow>
                (let e1 = StringClient (ToUpper (nuni net) mech) (SP (Atom ''AUTHENTICATE'' NewEncoder));
                     e2 = (case ir of None \<Rightarrow> e1 | Some resp \<Rightarrow> StringClient (EncodeToString resp) (SP e1)) in
                 case endLine net e2 c of
                   (Inl e, c1) \<Rightarrow> Some (Inl e, c1)
                 | (Inr _, c1) \<Rightarrow> authClientLoop n net sc [] [] c1)))"

end
