(* ===== verification/Storage_Laws.thy ===== *)
theory Storage_Laws
  imports Storage "HOL-Library.Multiset"
begin

text \<open>
  The contract of script storage and its implementation in memory.

  The locale \<open>script_storage\<close> is the interface \<open>Storage\<close> of \<open>storage.go\<close>: what each operation does
  to the scripts by name and to the active name, and an invariant that every operation keeps.  It
  is interpreted on the operations of the memory session.
\<close>

section \<open>The interface\<close>

locale script_storage =
  fixes get :: "bytes \<Rightarrow> 's \<Rightarrow> (conn_error + bytes) \<times> 's"
    and put :: "bytes \<Rightarrow> bytes \<Rightarrow> 's \<Rightarrow> (conn_error + unit) \<times> 's"
    and activate :: "bytes \<Rightarrow> 's \<Rightarrow> (conn_error + unit) \<times> 's"
    and delete :: "bytes \<Rightarrow> 's \<Rightarrow> (conn_error + unit) \<times> 's"
    and rename :: "bytes \<Rightarrow> bytes \<Rightarrow> 's \<Rightarrow> (conn_error + unit) \<times> 's"
    and lookup :: "'s \<Rightarrow> bytes \<Rightarrow> bytes option"
    and activeName :: "'s \<Rightarrow> bytes"
    and invar :: "'s \<Rightarrow> bool"
  assumes get_state: "get n s = (r, s') \<Longrightarrow> s' = s"
    and get_found: "invar s \<Longrightarrow> lookup s n = Some b \<Longrightarrow> fst (get n s) = Inr b"
    and get_missing: "lookup s n = None \<Longrightarrow> \<exists>e. fst (get n s) = Inl e"
    and put_state: "put n b s = (Inr (), s') \<Longrightarrow> lookup s' = (lookup s)(n \<mapsto> b) \<and> activeName s' = activeName s"
    and put_error: "put n b s = (Inl e, s') \<Longrightarrow> s' = s"
    and activate_state: "activate n s = (Inr (), s') \<Longrightarrow> lookup s' = lookup s \<and> activeName s' = n"
    and activate_error: "activate n s = (Inl e, s') \<Longrightarrow> s' = s"
    and delete_state: "delete n s = (Inr (), s') \<Longrightarrow>
      lookup s' = (lookup s)(n := None) \<and> activeName s' = activeName s \<and> n \<noteq> activeName s"
    and delete_error: "delete n s = (Inl e, s') \<Longrightarrow> s' = s"
    and rename_state: "rename n m s = (Inr (), s') \<Longrightarrow>
      \<exists>b. lookup s n = Some b \<and> lookup s m = None \<and> lookup s' = (lookup s)(n := None, m \<mapsto> b) \<and>
        activeName s' = (if activeName s = n then m else activeName s)"
    and rename_error: "rename n m s = (Inl e, s') \<Longrightarrow> s' = s"
    and invar_put: "invar s \<Longrightarrow> invar (snd (put n b s))"
    and invar_activate: "invar s \<Longrightarrow> invar (snd (activate n s))"
    and invar_delete: "invar s \<Longrightarrow> invar (snd (delete n s))"
    and invar_rename: "invar s \<Longrightarrow> invar (snd (rename n m s))"
begin

lemma put_get:
  assumes "invar s" "put n b s = (Inr (), s')"
  shows "fst (get n s') = Inr b" "m \<noteq> n \<Longrightarrow> lookup s' m = lookup s m"
proof -
  have "invar s'" using invar_put [OF assms(1), of n b] assms(2) by simp
  then show "fst (get n s') = Inr b" using get_found [of s' n b] put_state [OF assms(2)] by simp
  show "m \<noteq> n \<Longrightarrow> lookup s' m = lookup s m" using put_state [OF assms(2)] by simp
qed

lemma delete_get:
  assumes "delete n s = (Inr (), s')"
  shows "\<exists>e. fst (get n s') = Inl e"
  using get_missing [of s' n] delete_state [OF assms] by simp

lemma rename_get:
  assumes "invar s" "rename n m s = (Inr (), s')"
  shows "fst (get m s') = fst (get n s)" "\<exists>e. fst (get n s') = Inl e"
proof -
  obtain b where b: "lookup s n = Some b" "lookup s m = None" "lookup s' = (lookup s)(n := None, m \<mapsto> b)"
    using rename_state [OF assms(2)] by blast
  have "invar s'" using invar_rename [OF assms(1), of n m] assms(2) by simp
  then show "fst (get m s') = fst (get n s)"
    using get_found [of s' m b] get_found [of s n b] assms(1) b by simp
  have "n \<noteq> m" using b by auto
  then show "\<exists>e. fst (get n s') = Inl e" using get_missing [of s' n] b by simp
qed

text \<open>A script that is active when it is renamed stays active, and it cannot be deleted.\<close>

lemma active_follows:
  assumes "invar s" "rename (activeName s) m s = (Inr (), s')"
  shows "activeName s' = m" "\<exists>e. delete m s' = (Inl e, s')"
proof -
  show act: "activeName s' = m" using rename_state [OF assms(2)] by auto
  show "\<exists>e. delete m s' = (Inl e, s')"
  proof (cases "delete m s'")
    case (Pair r s'')
    then show ?thesis
      using act delete_state [of m s' s''] delete_error [of m s'] by (cases r) auto
  qed
qed

end

section \<open>The memory session\<close>

definition entryOk :: "memory_session \<Rightarrow> bytes \<times> bytes \<Rightarrow> bool" where
  "entryOk s nb \<longleftrightarrow>
     validateScriptName (fst nb) False = None \<and> callLoad s (snd nb) = None \<and>
     (MaxScriptLen (mopts s) > 0 \<longrightarrow> int (length (snd nb)) \<le> MaxScriptLen (mopts s))"

definition storeOk :: "memory_session \<Rightarrow> bool" where
  "storeOk s \<longleftrightarrow>
     distinct (map fst (scripts s)) \<and> list_all (entryOk s) (scripts s) \<and>
     (active s = [] \<or> active s \<in> fst ` set (scripts s)) \<and>
     (MaxScripts (mopts s) > 0 \<longrightarrow> int (length (scripts s)) \<le> MaxScripts (mopts s))"

lemmas store_ops = GetScript_def PutScript_def CheckScript_def SetActive_def DeleteScript_def RenameScript_def
  HaveSpace_def

lemma entryOk_updates [simp]:
  "entryOk (s\<lparr>scripts := xs\<rparr>) = entryOk s" "entryOk (s\<lparr>active := a\<rparr>) = entryOk s"
  by (simp_all add: entryOk_def callLoad_def fun_eq_iff)

lemma list_all_update: "list_all P xs \<Longrightarrow> P (k, v) \<Longrightarrow> list_all P (AList.update k v xs)"
  by (induction xs) auto

lemma list_all_delete: "list_all P xs \<Longrightarrow> list_all P (AList.delete k xs)"
  by (simp add: AList.delete_eq list_all_iff)

lemma length_update: "length (AList.update k v xs) = (if map_of xs k = None then Suc (length xs) else length xs)"
  by (induction xs) auto

lemma length_delete:
  "distinct (map fst xs) \<Longrightarrow> map_of xs k = Some v \<Longrightarrow> Suc (length (AList.delete k xs)) = length xs"
proof (induction xs)
  case (Cons x xs)
  show ?case
  proof (cases "fst x = k")
    case True
    then have "k \<notin> fst ` set xs" using Cons.prems(1) by auto
    then have "AList.delete k xs = xs" by (simp add: delete_id)
    then show ?thesis using True by (cases x) simp
  next
    case False
    then show ?thesis using Cons by (cases x) (auto simp: AList.delete_eq)
  qed
qed simp

lemma length_delete_le: "length (AList.delete k xs) \<le> length xs"
  by (simp add: AList.delete_eq)

lemma map_of_entryOk: "storeOk s \<Longrightarrow> map_of (scripts s) n = Some b \<Longrightarrow> entryOk s (n, b)"
  by (auto simp: storeOk_def list_all_iff dest: map_of_SomeD)

lemma names_update: "fst ` set (AList.update k v xs) = insert k (fst ` set xs)"
  by (simp add: dom_update)

lemma names_delete: "fst ` set (AList.delete k xs) = fst ` set xs - {k}"
  by (auto simp: AList.delete_eq)

lemma PutScript_cases:
  obtains e where "PutScript n b s = (Inl e, s)"
  | "PutScript n b s = (Inr (), s\<lparr>scripts := AList.update n b (scripts s)\<rparr>)" "entryOk s (n, b)"
    "MaxScripts (mopts s) > 0 \<longrightarrow> map_of (scripts s) n = None \<longrightarrow> int (length (scripts s)) < MaxScripts (mopts s)"
proof (cases "fst (PutScript n b s)")
  case (Inl e)
  then have "PutScript n b s = (Inl e, s)"
    by (auto simp: PutScript_def split: option.splits if_splits)
  then show ?thesis by (rule that(1))
next
  case (Inr u)
  then show ?thesis
    by (intro that(2)) (auto simp: PutScript_def entryOk_def split: option.splits if_splits)
qed

lemma storeOk_put: "storeOk s \<Longrightarrow> storeOk (snd (PutScript n b s))"
  by (rule PutScript_cases [of n b s])
    (auto simp: storeOk_def distinct_update list_all_update names_update length_update)

lemma storeOk_activate: "storeOk s \<Longrightarrow> storeOk (snd (SetActive n s))"
  by (auto simp: SetActive_def storeOk_def map_of_eq_None_iff simp del: not_None_eq split: option.split)

lemma storeOk_delete: "storeOk s \<Longrightarrow> storeOk (snd (DeleteScript n s))"
  using length_delete_le [of n "scripts s"]
  by (auto simp: DeleteScript_def storeOk_def distinct_delete list_all_delete names_delete split: option.split)

lemma storeOk_rename: "storeOk s \<Longrightarrow> storeOk (snd (RenameScript n m s))"
proof -
  assume ok: "storeOk s"
  show ?thesis
  proof (cases "\<exists>b. map_of (scripts s) n = Some b \<and> map_of (scripts s) m = None \<and> validateScriptName n False = None \<and>
      validateScriptName m False = None")
    case True
    then obtain b where b: "map_of (scripts s) n = Some b" "map_of (scripts s) m = None"
      "validateScriptName n False = None" "validateScriptName m False = None" by blast
    have "entryOk s (m, b)" using map_of_entryOk [OF ok b(1)] b(4) by (simp add: entryOk_def)
    moreover have "n \<noteq> m" using b by auto
    moreover have "length (AList.update m b (AList.delete n (scripts s))) = length (scripts s)"
      using length_delete [of "scripts s" n b] ok b \<open>n \<noteq> m\<close> by (simp add: length_update delete_conv storeOk_def)
    ultimately show ?thesis
      using ok b
      by (auto simp: RenameScript_def storeOk_def distinct_update distinct_delete list_all_update list_all_delete
          names_update names_delete)
  next
    case False
    then have "snd (RenameScript n m s) = s" by (auto simp: RenameScript_def split: option.splits)
    then show ?thesis using ok by simp
  qed
qed

interpretation memory: script_storage GetScript PutScript SetActive DeleteScript RenameScript
  "\<lambda>s. map_of (scripts s)" active storeOk
proof (unfold_locales, goal_cases)
  case (2 s n b)
  then show ?case using map_of_entryOk [of s n b] by (simp add: GetScript_def entryOk_def)
next
  case (3 s n)
  then show ?case by (simp add: GetScript_def split: option.split)
next
  case (10 n m s s')
  then show ?case by (auto simp: RenameScript_def update_conv delete_conv split: option.splits if_splits)
next
  case 12 then show ?case by (rule storeOk_put)
next
  case 13 then show ?case by (rule storeOk_activate)
next
  case 14 then show ?case by (rule storeOk_delete)
next
  case 15 then show ?case by (rule storeOk_rename)
qed (auto simp: GetScript_def PutScript_def SetActive_def DeleteScript_def RenameScript_def update_conv delete_conv
    split: option.splits if_splits)

section \<open>Sequences of operations\<close>

datatype request =
    ReqList
  | ReqGet bytes
  | ReqPut bytes bytes
  | ReqCheck bytes
  | ReqSetActive bytes
  | ReqDelete bytes
  | ReqRename bytes bytes
  | ReqHaveSpace bytes int

fun perform :: "request \<Rightarrow> memory_session \<Rightarrow> memory_session" where
  "perform ReqList s = snd (ListScripts s)"
| "perform (ReqGet n) s = snd (GetScript n s)"
| "perform (ReqPut n b) s = snd (PutScript n b s)"
| "perform (ReqCheck b) s = snd (CheckScript b s)"
| "perform (ReqSetActive n) s = snd (SetActive n s)"
| "perform (ReqDelete n) s = snd (DeleteScript n s)"
| "perform (ReqRename n m) s = snd (RenameScript n m s)"
| "perform (ReqHaveSpace n k) s = snd (HaveSpace n k s)"

lemma perform_quiet:
  "snd (ListScripts s) = s" "snd (GetScript n s) = s" "snd (CheckScript b s) = s" "snd (HaveSpace n k s) = s"
  by (simp_all add: ListScripts_def GetScript_def CheckScript_def HaveSpace_def split: option.split)

lemma storeOk_perform: "storeOk s \<Longrightarrow> storeOk (perform r s)"
  by (cases r) (simp_all add: perform_quiet storeOk_put storeOk_activate storeOk_delete storeOk_rename)

lemma mopts_perform [simp]: "mopts (perform r s) = mopts s"
  by (cases r) (auto simp: perform_quiet PutScript_def SetActive_def DeleteScript_def RenameScript_def split: option.split)

lemma mopts_fold [simp]: "mopts (fold perform rs s) = mopts s"
  by (induction rs arbitrary: s) simp_all

lemma storeOk_fold: "storeOk s \<Longrightarrow> storeOk (fold perform rs s)"
  by (induction rs arbitrary: s) (simp_all add: storeOk_perform)

lemma storeOk_new: "storeOk (NewMemorySession h et os)"
  by (simp add: NewMemorySession_def storeOk_def Let_def)

text \<open>
  The specification: the scripts by name and the name of the active one, empty when there is none.
\<close>

type_synonym store = "(bytes \<rightharpoonup> bytes) \<times> bytes"

definition abstraction :: "memory_session \<Rightarrow> store" where
  "abstraction s = (map_of (scripts s), active s)"

definition goodName :: "bytes \<Rightarrow> bool" where
  "goodName n \<longleftrightarrow> validateScriptName n False = None"

definition goodScript :: "memory_options \<Rightarrow> bytes \<Rightarrow> bool" where
  "goodScript os b \<longleftrightarrow>
     (MaxScriptLen os > 0 \<longrightarrow> int (length b) \<le> MaxScriptLen os) \<and>
     (case LoadFn os of None \<Rightarrow> False | Some f \<Rightarrow> f b = None)"

fun specStep :: "memory_options \<Rightarrow> request \<Rightarrow> store \<Rightarrow> store" where
  "specStep os (ReqPut n b) (m, a) =
     (if goodName n \<and> goodScript os b \<and> (n \<in> dom m \<or> MaxScripts os \<le> 0 \<or> int (card (dom m)) < MaxScripts os)
      then (m(n \<mapsto> b), a) else (m, a))"
| "specStep os (ReqSetActive n) (m, a) = (if n = [] \<or> goodName n \<and> n \<in> dom m then (m, n) else (m, a))"
| "specStep os (ReqDelete n) (m, a) = (if goodName n \<and> n \<noteq> a \<and> n \<in> dom m then (m(n := None), a) else (m, a))"
| "specStep os (ReqRename n k) (m, a) =
     (if goodName n \<and> goodName k \<and> n \<in> dom m \<and> k \<notin> dom m
      then (m(n := None, k := m n), if a = n then k else a) else (m, a))"
| "specStep os r st = st"

lemma card_scripts: "distinct (map fst xs) \<Longrightarrow> card (dom (map_of xs)) = length xs"
  by (simp add: dom_map_of_conv_image_fst card_image distinct_map distinct_card)

lemma validate_empty: "validateScriptName n True = None \<longleftrightarrow> n = [] \<or> goodName n"
  by (auto simp: validateScriptName_def goodName_def)

lemma callLoad_goodScript:
  "(MaxScriptLen (mopts s) > 0 \<longrightarrow> int (length b) \<le> MaxScriptLen (mopts s)) \<and> callLoad s b = None \<longleftrightarrow> goodScript (mopts s) b"
  by (auto simp: goodScript_def callLoad_def split: option.split)

lemma goodName_None: "goodName n \<Longrightarrow> validateScriptName n False = None"
  by (simp add: goodName_def)

lemma bad_name: "\<not> goodName n \<Longrightarrow> \<exists>e. validateScriptName n False = Some e"
  by (simp add: goodName_def)

lemma refines_put:
  assumes "storeOk s"
  shows "abstraction (perform (ReqPut n b) s) = specStep (mopts s) (ReqPut n b) (abstraction s)"
proof (cases "goodName n \<and> goodScript (mopts s) b")
  case True
  then have "validateScriptName n False = None" "callLoad s b = None"
    "\<not> (MaxScriptLen (mopts s) > 0 \<and> int (length b) > MaxScriptLen (mopts s))"
    using callLoad_goodScript [of s b] by (auto simp: goodName_def)
  then show ?thesis
    using True assms card_scripts [of "scripts s"]
    by (auto simp: PutScript_def abstraction_def update_conv storeOk_def domIff)
next
  case False
  then have "fst (PutScript n b s) \<noteq> Inr ()"
    using callLoad_goodScript [of s b] by (auto simp: PutScript_def goodName_def split: option.splits if_splits)
  then have "snd (PutScript n b s) = s"
    by (cases "PutScript n b s"; cases "fst (PutScript n b s)") (auto dest: memory.put_error)
  then show ?thesis using False by (auto simp: abstraction_def)
qed

lemma refines_perform:
  assumes "storeOk s"
  shows "abstraction (perform r s) = specStep (mopts s) r (abstraction s)"
proof (cases r)
  case (ReqPut n b)
  then show ?thesis using refines_put [OF assms] by simp
next
  case (ReqSetActive n)
  then show ?thesis
    using validate_empty [of n]
    by (auto simp: SetActive_def abstraction_def domIff simp del: not_None_eq split: option.split)
next
  case (ReqDelete n)
  then show ?thesis
    by (cases "goodName n") (auto simp: DeleteScript_def abstraction_def delete_conv goodName_None dest: bad_name)
next
  case (ReqRename n k)
  then show ?thesis
    by (cases "goodName n \<and> goodName k")
      (auto simp: RenameScript_def abstraction_def update_conv delete_conv goodName_None domIff
        dest!: bad_name split: option.split)
qed (simp_all add: perform_quiet abstraction_def)

lemma ListScripts_names:
  assumes "distinct (map fst (scripts s))"
  shows "\<exists>l. ListScripts s = (Inr l, s) \<and> map InfoName l = sorted_list_of_set (dom (map_of (scripts s))) \<and>
    (\<forall>x \<in> set l. InfoActive x = (InfoName x = active s))"
proof -
  let ?xs = "map (\<lambda>(n, _). \<lparr>InfoName = n, InfoActive = (n = active s)\<rparr>) (scripts s)"
  let ?l = "sort_key InfoName ?xs"
  have names: "map InfoName ?xs = map fst (scripts s)" by (simp add: case_prod_beta' comp_def)
  have "mset (map InfoName ?l) = mset (map fst (scripts s))" unfolding names [symmetric] by (simp only: mset_map mset_sort)
  then have "distinct (map InfoName ?l)" and "set (map InfoName ?l) = set (map fst (scripts s))"
    using mset_eq_imp_distinct_iff mset_eq_setD assms by blast+
  then have "distinct (map InfoName ?l)" "set (map InfoName ?l) = dom (map_of (scripts s))"
    by (simp_all only: dom_map_of_conv_image_fst set_map)
  then have "map InfoName ?l = sorted_list_of_set (dom (map_of (scripts s)))"
    by (intro sorted_distinct_set_unique) (simp_all add: finite_dom_map_of)
  then show ?thesis by (intro exI [of _ ?l]) (auto simp: ListScripts_def)
qed

section \<open>Properties\<close>

text \<open>A session whose loader accepts every script, with room for two scripts of three bytes.\<close>

definition exampleStore :: memory_session where
  "exampleStore =
     \<lparr>mopts = \<lparr>Implementation = [], Version = [], Language = [], Notify = [], SieveExtensions = [],
        SASLMechanisms = None, MaxRedirects = None, MaxScripts = 2, MaxScriptLen = 3, LoadFn = Some (\<lambda>_. None)\<rparr>,
      scripts = [], active = []\<rparr>"

lemma exampleNames: "validateScriptName ''a'' False = None" "validateScriptName ''b'' False = None"
  by (simp_all add: validateScriptName_def runes_def decodeRune_def ValidString_def badNameRune_def runeError_def)

text \<open>
  C10: the storage in memory implements its specification.  After any sequence of operations on
  a new session the scripts by name and the active name are those of the specification: a put
  stores a valid script under a valid name within the quotas, a deletion spares the active
  script, a rename moves a script to a free name and the activation with it, and an operation
  that fails changes nothing.
\<close>

theorem memory_store_refines_spec:
  "abstraction (fold perform rs (NewMemorySession h et os)) =
     fold (specStep (mopts (NewMemorySession h et os))) rs (Map.empty, [])"
proof -
  have "abstraction (fold perform rs s) = fold (specStep (mopts s)) rs (abstraction s)" if "storeOk s" for s
    using that by (induction rs arbitrary: s) (simp_all add: refines_perform storeOk_perform)
  from this [OF storeOk_new] show ?thesis
    by (simp add: abstraction_def NewMemorySession_def Let_def)
qed

text \<open>
  C17: the invariant of the storage.  In every state that a sequence of operations reaches, names
  are distinct and valid, every script is within the length limit and is accepted by the loader,
  the number of scripts is within its limit, and the active script exists.
\<close>

theorem memory_store_invariant:
  "storeOk (fold perform rs (NewMemorySession h et os))"
  by (intro storeOk_fold storeOk_new)

text \<open>
  C25: what is stored reads back.  A script that was put is returned under its name, a renamed
  one under the new name only, and when it was active it is active under the new name.
\<close>

theorem storage_round_trip:
  assumes "storeOk s" and "PutScript n b s = (Inr (), s1)" and "RenameScript n m s1 = (Inr (), s2)"
  shows "GetScript n s1 = (Inr b, s1) \<and> GetScript m s2 = (Inr b, s2) \<and> (\<exists>e. GetScript n s2 = (Inl e, s2)) \<and>
    active s2 = (if active s = n then m else active s)"
proof -
  have ok: "storeOk s1" using memory.invar_put [OF assms(1), of n b] assms(2) by simp
  have get: "GetScript k t = (r, t)" if "fst (GetScript k t) = r" for k t r
    using that perform_quiet(2) [of k t] by (cases "GetScript k t") simp
  have 1: "fst (GetScript n s1) = Inr b" by (rule memory.put_get(1) [OF assms(1,2)])
  then have 2: "fst (GetScript m s2) = Inr b" using memory.rename_get(1) [OF ok assms(3)] by simp
  obtain e where 3: "fst (GetScript n s2) = Inl e" using memory.rename_get(2) [OF ok assms(3)] by blast
  have "active s2 = (if active s = n then m else active s)"
    using memory.put_state [OF assms(2)] memory.rename_state [OF assms(3)] by auto
  then show ?thesis using get [OF 1] get [OF 2] get [OF 3] by blast
qed

theorem storage_round_trip_witness:
  "\<exists>s1 s2. PutScript ''a'' ''x'' exampleStore = (Inr (), s1) \<and> RenameScript ''a'' ''b'' s1 = (Inr (), s2) \<and>
     GetScript ''b'' s2 = (Inr ''x'', s2) \<and> (\<exists>e. GetScript ''a'' s2 = (Inl e, s2))"
proof -
  let ?s1 = "exampleStore\<lparr>scripts := [(''a'', ''x'')]\<rparr>" and ?s2 = "exampleStore\<lparr>scripts := [(''b'', ''x'')]\<rparr>"
  have "storeOk exampleStore" "PutScript ''a'' ''x'' exampleStore = (Inr (), ?s1)"
    "RenameScript ''a'' ''b'' ?s1 = (Inr (), ?s2)"
    by (simp_all add: storeOk_def PutScript_def RenameScript_def callLoad_def exampleNames exampleStore_def)
  from this(2,3) storage_round_trip [OF this] show ?thesis by blast
qed

text \<open>
  C26: the list of scripts is complete and sorted.  It has every stored name once, in the order of
  the strings, and marks as active exactly the active name.
\<close>

theorem list_scripts_complete:
  "let s = fold perform rs (NewMemorySession h et os) in
   \<exists>l. ListScripts s = (Inr l, s) \<and> map InfoName l = sorted_list_of_set (dom (map_of (scripts s))) \<and>
     map InfoActive l = map (\<lambda>n. n = active s) (map InfoName l)"
  using ListScripts_names [of "fold perform rs (NewMemorySession h et os)"]
    storeOk_fold [OF storeOk_new, of rs h et os]
  by (auto simp: storeOk_def Let_def)

end
