(* ===== verification/Wire_Laws.thy ===== *)
theory Wire_Laws
  imports Wire
begin

text \<open>
  The codec of the ManageSieve protocol: the encoder appends the wire form of each item, and the
  decoder reads the wire form back, whatever follows, when the item is within the limits.
\<close>

section \<open>What the encoder emits\<close>

named_theorems wire_simps

definition wireLiteral :: "bool \<Rightarrow> bytes \<Rightarrow> bytes" where
  "wireLiteral pl s = ''{'' @ Itoa (int (length s)) @ (if pl then ''+'' else []) @ ''}'' @ crlf @ s"

definition wireString :: "bool \<Rightarrow> bytes \<Rightarrow> bytes" where
  "wireString pl s = (if validQuoted s then [DQUOTE] @ quote s @ [DQUOTE] else wireLiteral pl s)"

definition ready :: "encoder \<Rightarrow> bool" where
  "ready e \<longleftrightarrow> encErr e = None \<and> \<not> encLiteral e"

definition emit :: "bytes \<Rightarrow> encoder \<Rightarrow> encoder" where
  "emit bs e = e\<lparr>encOut := encOut e @ bs\<rparr>"

lemma ready_simps [simp]: "ready NewEncoder" "ready (emit bs e) = ready e"
  by (simp_all add: ready_def NewEncoder_def emit_def)

lemma emit_simps [simp]:
  "emit [] e = e" "emit bs (emit cs e) = emit (cs @ bs) e" "encOut (emit bs e) = encOut e @ bs"
  "encErr (emit bs e) = encErr e" "encOut NewEncoder = []"
  by (simp_all add: emit_def NewEncoder_def)

lemma writeString_emit [wire_simps]: "ready e \<Longrightarrow> writeString s e = emit s e"
  by (simp add: ready_def writeString_def emit_def)

lemma encoder_emit [wire_simps]:
  assumes "ready e"
  shows "Atom s e = emit s e" "SP e = emit '' '' e" "CRLF e = (None, emit crlf e)"
  using assms by (simp_all add: Atom_def SP_def CRLF_def writeString_emit Let_def) (simp add: ready_def)

lemma encodeString_emit [wire_simps]:
  assumes "ready e"
  shows "encodeString pl s e = emit (wireString pl s) e"
proof (cases "validQuoted s")
  case True
  then show ?thesis
    using assms by (simp add: encodeString_def Quoted_def wireString_def ready_def writeString_def emit_def)
next
  case False
  have "Literal (int (length s)) pl e =
      (Some (int (length s)),
       (emit (''{'' @ Itoa (int (length s)) @ (if pl then ''+'' else []) @ ''}'' @ crlf) e)\<lparr>encLiteral := True\<rparr>)"
    using assms by (simp add: Literal_def writeString_emit Let_def) (simp add: ready_def)
  then show ?thesis
    using False assms
    by (simp add: encodeString_def literalWrite_def literalClose_def wireString_def wireLiteral_def)
      (simp add: ready_def emit_def)
qed

section \<open>Counting command bytes\<close>

definition counts :: "decoder \<Rightarrow> int option \<Rightarrow> int \<Rightarrow> bool" where
  "counts D cb n \<longleftrightarrow>
     (case cb of
        None \<Rightarrow> True
      | Some c \<Rightarrow> 0 \<le> c \<and> c + n \<le> maxInt64 \<and>
          (MaxNonLiteralCommandLen D > 0 \<longrightarrow> c + n \<le> MaxNonLiteralCommandLen D))"

definition bump :: "int option \<Rightarrow> int \<Rightarrow> int option" where
  "bump cb n = map_option (\<lambda>c. c + n) cb"

lemma bump_simps [simp]: "bump cb 0 = cb" "bump (bump cb m) n = bump cb (m + n)" "bump None n = None"
  by (cases cb; simp add: bump_def)+

lemma counts_bump:
  "0 \<le> m \<Longrightarrow> 0 \<le> n \<Longrightarrow> counts D cb (m + n) \<Longrightarrow> counts D cb m \<and> counts D (bump cb m) n"
  by (cases cb) (auto simp: counts_def bump_def)

lemma addCommandBytes_ok: "0 \<le> n \<Longrightarrow> counts D cb n \<Longrightarrow> addCommandBytes D cb n = Inr (bump cb n)"
  by (cases cb) (auto simp: counts_def bump_def addCommandBytes_def Let_def wrap64_id maxInt64_def)

section \<open>Reading items back\<close>

text \<open>What ends an atom on the wire.\<close>

definition stops :: "bytes \<Rightarrow> bool" where
  "stops rest \<longleftrightarrow> rest \<noteq> [] \<and> \<not> isAtomChar (hd rest)"

lemma SkipSP_stop: "b \<noteq> CHR '' '' \<Longrightarrow> SkipSP D (b # r) = (Inr (), b # r)"
  by simp

lemma atomLoop_read:
  assumes "list_all isAtomChar s" "stops rest" "acc @ s \<noteq> []"
    and "MaxAtomBytes D > 0 \<longrightarrow> int (length acc + length s) \<le> MaxAtomBytes D" "counts D cb (int (length s))"
  shows "atomLoop D acc cb (s @ rest) = (Inr (acc @ s, bump cb (int (length s))), rest)"
  using assms
proof (induction s arbitrary: acc cb)
  case Nil
  then show ?case by (cases rest) (auto simp: stops_def)
next
  case (Cons ch s)
  have c: "counts D cb 1 \<and> counts D (bump cb 1) (int (length s))"
    using counts_bump [of 1 "int (length s)" D cb] Cons.prems(5) by (simp add: add.commute)
  have "atomLoop D (acc @ [ch]) (bump cb 1) (s @ rest) = (Inr ((acc @ [ch]) @ s, bump (bump cb 1) (int (length s))), rest)"
    using Cons.prems c by (intro Cons.IH) auto
  then show ?case
    using Cons.prems c by (auto simp: addCommandBytes_ok add.commute)
qed

lemma quotedLoop_read:
  assumes "MaxQuotedBytes D > 0 \<longrightarrow> int (length acc + length s) \<le> MaxQuotedBytes D" "counts D cb (int (length s))"
  shows "quotedLoop D acc cb (quote s @ DQUOTE # rest) = (Inr (acc @ s, bump cb (int (length s))), rest)"
  using assms
proof (induction s arbitrary: acc cb)
  case Nil
  then show ?case by (simp add: quote_def)
next
  case (Cons ch s)
  have c: "counts D cb 1 \<and> counts D (bump cb 1) (int (length s))"
    using counts_bump [of 1 "int (length s)" D cb] Cons.prems(2) by (simp add: add.commute)
  have b: "quotedByte D acc cb = Inr (bump cb 1)"
    using Cons.prems(1) c by (auto simp: quotedByte_def addCommandBytes_ok)
  have "quotedLoop D (acc @ [ch]) (bump cb 1) (quote s @ DQUOTE # rest) =
      (Inr ((acc @ [ch]) @ s, bump (bump cb 1) (int (length s))), rest)"
    using Cons.prems(1) c by (intro Cons.IH) auto
  then show ?case
    using b by (simp add: quote_def add.commute)
qed

lemma Itoa_length: "Itoa (int n) = nat_to_dec n"
  by (simp add: Itoa_def)

lemma literalDigits_read:
  "literalDigits D (nat_to_dec n @ (if pl then ''+'' else []) @ CHR ''}'' # rest) = (Inr (nat_to_dec n), rest)"
proof -
  have "\<not> is_digit CHR ''+''" "\<not> is_digit CHR ''}''" by (simp_all add: is_digit_def)
  then show ?thesis
    using takeWhile_append_stop [of is_digit "nat_to_dec n" "CHR ''+''"]
      takeWhile_append_stop [of is_digit "nat_to_dec n" "CHR ''}''"]
    by (simp add: literalDigits_def Let_def)
qed

text \<open>A string that the decoder accepts.\<close>

definition literalFits :: "decoder \<Rightarrow> bytes \<Rightarrow> bool" where
  "literalFits D s \<longleftrightarrow> int (length s) \<le> maxUint32 \<and> (MaxLiteralBytes D > 0 \<longrightarrow> int (length s) \<le> MaxLiteralBytes D)"

definition fits :: "decoder \<Rightarrow> bytes \<Rightarrow> bool" where
  "fits D s \<longleftrightarrow>
     (if validQuoted s then MaxQuotedBytes D > 0 \<longrightarrow> int (length s) \<le> MaxQuotedBytes D else literalFits D s)"

lemma literalSize_read:
  assumes "int n \<le> maxUint32" "MaxLiteralBytes D > 0 \<longrightarrow> int n \<le> MaxLiteralBytes D" "counts D cb (int n)"
  shows "literalSize D cb (nat_to_dec n) = Inr (int n, bump cb (int n))"
proof -
  have "Atoi (nat_to_dec n) = Some (int n)"
    using Atoi_Itoa [of "int n"] assms(1) by (simp add: Itoa_length maxUint32_def maxInt64_def)
  then show ?thesis
    using assms by (auto simp: literalSize_def addCommandBytes_ok maxUint32_def maxInt64_def)
qed

lemma ExpectCRLF_read [simp]: "ExpectCRLF D (CR # LF # rest) = (Inr (), rest)"
  by (simp add: ExpectCRLF_def)

lemma readFull_read [simp]: "readFull D (length s) (s @ rest) = (Inr s, rest)"
  by (simp add: readFull_def)

lemma wireString_head: "\<exists>b r. wireString pl s = b # r \<and> (b = DQUOTE \<or> b = CHR ''{'')"
  by (simp add: wireString_def wireLiteral_def)

lemma readString_literal:
  assumes "literalFits D s" "counts D cb (int (length s))"
  shows "readString D cb (wireLiteral pl s @ rest) = (Inr (s, bump cb (int (length s))), rest)"
proof -
  let ?r = "(if pl then ''+'' else []) @ CHR ''}'' # crlf @ s @ rest"
  have "readString D cb (wireLiteral pl s @ rest) = readLiteral D cb (CHR ''{'' # nat_to_dec (length s) @ ?r)"
    by (simp add: wireLiteral_def readString_def PeekByte_def Itoa_length)
  also have "\<dots> = (Inr (s, bump cb (int (length s))), rest)"
    using literalDigits_read [of D "length s" pl "crlf @ s @ rest"]
      literalSize_read [of "length s" D cb] assms
    by (simp add: readLiteral_def literalFits_def)
  finally show ?thesis .
qed

lemma readString_read:
  assumes "fits D s" "counts D cb (int (length s))"
  shows "readString D cb (wireString pl s @ rest) = (Inr (s, bump cb (int (length s))), rest)"
proof (cases "validQuoted s")
  case True
  then have "readString D cb (wireString pl s @ rest) = quotedLoop D [] cb (quote s @ DQUOTE # rest)"
    by (simp add: wireString_def readString_def PeekByte_def readQuoted_def)
  then show ?thesis
    using quotedLoop_read [of D "[]" s cb rest] assms True by (simp add: fits_def)
next
  case False
  then show ?thesis using readString_literal [of D s cb pl rest] assms by (simp add: wireString_def fits_def)
qed

text \<open>An item on the wire: a string in either form, or an atom.\<close>

definition item :: "decoder \<Rightarrow> bytes \<Rightarrow> bytes \<Rightarrow> bool" where
  "item D bs s \<longleftrightarrow>
     (\<exists>pl. bs = wireString pl s \<and> fits D s \<or> bs = wireLiteral pl s \<and> literalFits D s) \<or>
     bs = s \<and> s \<noteq> [] \<and> list_all isAtomChar s \<and> (MaxAtomBytes D > 0 \<longrightarrow> int (length s) \<le> MaxAtomBytes D)"

lemma isAtomChar_specials [simp]:
  "\<not> isAtomChar CHR '' ''" "\<not> isAtomChar DQUOTE" "\<not> isAtomChar CHR ''{''" "\<not> isAtomChar CR" "\<not> isAtomChar LF"
  "\<not> isAtomChar CHR ''(''" "\<not> isAtomChar CHR '')''"
  by code_simp+

lemma isAtomChar_not: "isAtomChar b \<Longrightarrow> b \<noteq> CHR '' '' \<and> b \<noteq> DQUOTE \<and> b \<noteq> CHR ''{'' \<and> b \<noteq> CR \<and> b \<noteq> LF \<and> b \<noteq> CHR ''('' \<and> b \<noteq> CHR '')''"
  using isAtomChar_specials by blast

lemma item_head: "item D bs s \<Longrightarrow> \<exists>b r. bs = b # r \<and> b \<noteq> CHR '' '' \<and> b \<noteq> CR \<and> b \<noteq> LF \<and> b \<noteq> CHR '')'' \<and> b \<noteq> CHR ''(''"
proof (cases "\<exists>pl. bs = wireString pl s \<or> bs = wireLiteral pl s")
  case True
  then obtain pl where "bs = wireString pl s \<or> bs = wireLiteral pl s" by blast
  then obtain b r where "bs = b # r" "b = DQUOTE \<or> b = CHR ''{''" using wireString_head [of pl s] by (auto simp: wireLiteral_def)
  then show ?thesis by auto
next
  case False
  moreover assume "item D bs s"
  ultimately have "bs = s" "s \<noteq> []" "list_all isAtomChar s" by (auto simp: item_def)
  then show ?thesis by (cases s) (auto dest: isAtomChar_not)
qed

lemma readAtom_read:
  assumes "s \<noteq> []" "list_all isAtomChar s" "MaxAtomBytes D > 0 \<longrightarrow> int (length s) \<le> MaxAtomBytes D"
    and "stops rest" "counts D cb (int (length s))"
  shows "readAtom D cb (s @ rest) = (Inr (s, bump cb (int (length s))), rest)"
proof -
  obtain b r where s: "s = b # r" using assms(1) by (cases s) auto
  then have "b \<noteq> CHR '' ''" using assms(2) by (auto dest: isAtomChar_not)
  then have "SkipSP D (s @ rest) = (Inr (), s @ rest)" using s by simp
  then show ?thesis
    using atomLoop_read [of s rest "[]" D cb] assms by (simp add: readAtom_def)
qed

lemma readToken_read:
  assumes "item D bs s" "stops rest" "counts D cb (int (length s))"
  shows "readToken D cb (bs @ rest) = (Inr (s, bump cb (int (length s))), rest)"
proof -
  obtain b r where b: "bs = b # r" "b \<noteq> CHR '' ''" using item_head [OF assms(1)] by blast
  then have tok: "readToken D cb (bs @ rest) =
      (if b = DQUOTE \<or> b = CHR ''{'' then readString D cb (bs @ rest) else readAtom D cb (bs @ rest))"
    by (simp add: readToken_def PeekByte_def)
  show ?thesis
  proof (cases "\<exists>pl. bs = wireString pl s \<and> fits D s \<or> bs = wireLiteral pl s \<and> literalFits D s")
    case True
    then obtain pl where pl: "bs = wireString pl s \<and> fits D s \<or> bs = wireLiteral pl s \<and> literalFits D s" by blast
    then have "b = DQUOTE \<or> b = CHR ''{''" using b wireString_head [of pl s] by (auto simp: wireLiteral_def)
    then show ?thesis using tok pl readString_read readString_literal assms(3) by auto
  next
    case False
    then have a: "bs = s" "s \<noteq> []" "list_all isAtomChar s" "MaxAtomBytes D > 0 \<longrightarrow> int (length s) \<le> MaxAtomBytes D"
      using assms(1) by (auto simp: item_def)
    then have "b \<noteq> DQUOTE" "b \<noteq> CHR ''{''" using b by (auto dest: isAtomChar_not)
    then show ?thesis using tok a readAtom_read assms(2,3) by simp
  qed
qed

lemma readToken_space: "readToken D cb (CHR '' '' # bs) = readToken D cb bs"
  by (simp add: readToken_def)

section \<open>Commands\<close>

text \<open>The arguments of a command, each after a space.\<close>

definition wireArgs :: "bytes list \<Rightarrow> bytes" where
  "wireArgs bss = concat (map (\<lambda>bs. CHR '' '' # bs) bss)"

lemma wireArgs_simps [simp]: "wireArgs [] = []" "wireArgs (bs # bss) = CHR '' '' # bs @ wireArgs bss"
  by (simp_all add: wireArgs_def)

definition total :: "bytes list \<Rightarrow> int" where
  "total ss = int (sum_list (map length ss))"

lemma total_simps [simp]: "total [] = 0" "total (s # ss) = int (length s) + total ss"
  by (simp_all add: total_def)

lemma total_nonneg [simp]: "0 \<le> total ss"
  by (simp add: total_def)

lemma stops_simps [simp]: "stops (wireArgs bss @ CR # r)" "stops (wireArgs bss @ CHR '')'' # r)" "stops (CHR '' '' # r)" "stops (CR # r)"
  by (cases bss; simp add: stops_def)+

lemma readArgs_read:
  assumes "list_all2 (item D) bss ss" "counts D cb (total ss)"
    and "MaxCommandArgs D > 0 \<longrightarrow> int (length args + length ss) \<le> MaxCommandArgs D"
  shows "readArgs D cb args (wireArgs bss @ crlf @ rest) = (Inr (args @ ss), rest)"
  using assms
proof (induction bss ss arbitrary: cb args rule: list_all2_induct)
  case Nil
  then show ?case by (simp add: readArgs.simps)
next
  case (Cons bs bss s ss)
  have c: "counts D cb (int (length s)) \<and> counts D (bump cb (int (length s))) (total ss)"
    using counts_bump [of "int (length s)" "total ss" D cb] Cons.prems(1) by simp
  have tok: "readToken D cb (CHR '' '' # bs @ wireArgs bss @ crlf @ rest) =
      (Inr (s, bump cb (int (length s))), wireArgs bss @ crlf @ rest)"
    using readToken_read [OF Cons.hyps(1), of "wireArgs bss @ crlf @ rest" cb] c by (simp add: readToken_space)
  have "readArgs D (bump cb (int (length s))) (args @ [s]) (wireArgs bss @ crlf @ rest) = (Inr ((args @ [s]) @ ss), rest)"
    using Cons.prems(2) c by (intro Cons.IH) auto
  then show ?case
    using tok Cons.prems(2) by (subst readArgs.simps) auto
qed

text \<open>A command that the decoder accepts.\<close>

definition atomOk :: "decoder \<Rightarrow> bytes \<Rightarrow> bool" where
  "atomOk D s \<longleftrightarrow> s \<noteq> [] \<and> list_all isAtomChar s \<and> (MaxAtomBytes D > 0 \<longrightarrow> int (length s) \<le> MaxAtomBytes D)"

lemma readAtom_ok:
  "atomOk D s \<Longrightarrow> stops rest \<Longrightarrow> counts D cb (int (length s)) \<Longrightarrow>
     readAtom D cb (s @ rest) = (Inr (s, bump cb (int (length s))), rest)"
  by (simp add: atomOk_def readAtom_read)

definition commandOk :: "decoder \<Rightarrow> bytes \<Rightarrow> bytes list \<Rightarrow> bool" where
  "commandOk D name ss \<longleftrightarrow>
     atomOk D name \<and> counts D (Some 0) (total (name # ss)) \<and>
     (MaxCommandArgs D > 0 \<longrightarrow> int (length ss) \<le> MaxCommandArgs D)"

lemma ReadCommand_read:
  assumes "commandOk D name ss" "list_all2 (item D) bss ss"
  shows "ReadCommand U D (name @ wireArgs bss @ crlf @ rest) = (Inr (ToUpper U name, ss), rest)"
proof -
  have c: "counts D (Some 0) (int (length name)) \<and> counts D (bump (Some 0) (int (length name))) (total ss)"
    using counts_bump [of "int (length name)" "total ss" D "Some 0"] assms(1) by (simp add: commandOk_def)
  have "readAtom D (Some 0) (name @ wireArgs bss @ crlf @ rest) =
      (Inr (name, bump (Some 0) (int (length name))), wireArgs bss @ crlf @ rest)"
    using readAtom_ok [of D name "wireArgs bss @ crlf @ rest" "Some 0"] assms(1) c by (simp add: commandOk_def)
  then show ?thesis
    using readArgs_read [OF assms(2), of "bump (Some 0) (int (length name))" "[]" rest] assms(1) c
    by (simp add: ReadCommand_def commandOk_def)
qed

section \<open>Responses\<close>

lemma counts_None [simp]: "counts D None n"
  by (simp add: counts_def)

lemma ReadAtom_ok: "atomOk D s \<Longrightarrow> stops rest \<Longrightarrow> ReadAtom D (s @ rest) = (Inr s, rest)"
  by (simp add: ReadAtom_def readAtom_ok)

lemma ReadString_read: "fits D s \<Longrightarrow> ReadString D (wireString pl s @ rest) = (Inr s, rest)"
  by (simp add: ReadString_def readString_read)

lemma ReadString_space: "ReadString D (CHR '' '' # bs) = ReadString D bs"
  by (simp add: ReadString_def readString_def)

lemma ReadAtom_space: "ReadAtom D (CHR '' '' # bs) = ReadAtom D bs"
  by (simp add: ReadAtom_def readAtom_def)

lemma ReadToken_read: "item D bs s \<Longrightarrow> stops rest \<Longrightarrow> ReadToken D (bs @ rest) = (Inr s, rest)"
  by (simp add: ReadToken_def readToken_read)

lemma item_string: "fits D s \<Longrightarrow> item D (wireString pl s) s"
  by (auto simp: item_def)

lemma codeArgs_read:
  assumes "list_all (fits D) ss"
  shows "codeArgs D args (wireArgs (map (wireString pl) ss) @ CHR '')'' # rest) = (Inr (args @ ss), rest)"
  using assms
proof (induction ss arbitrary: args)
  case Nil
  then show ?case by (subst codeArgs.simps) simp
next
  case (Cons s ss)
  let ?r = "wireArgs (map (wireString pl) ss) @ CHR '')'' # rest"
  obtain b r where b: "wireString pl s = b # r" "b = DQUOTE \<or> b = CHR ''{''" using wireString_head by blast
  have "ReadToken D (wireString pl s @ ?r) = (Inr s, ?r)"
    using Cons.prems by (intro ReadToken_read item_string) simp_all
  moreover have "codeArgs D (args @ [s]) ?r = (Inr ((args @ [s]) @ ss), rest)" using Cons.prems by (intro Cons.IH) simp
  ultimately show ?case
    using b by (subst codeArgs.simps) auto
qed

text \<open>The wire form of a status response.\<close>

definition wireStatus :: "status_response \<Rightarrow> bytes" where
  "wireStatus st =
     SType st @
     (if SCode st \<noteq> [] then '' ('' @ SCode st @ wireArgs (map (wireString False) (SCodeArgs st)) @ '')'' else []) @
     (if SText st \<noteq> [] then '' '' @ wireString False (SText st) else []) @ crlf"

definition statusOk :: "unicode_tables \<Rightarrow> decoder \<Rightarrow> status_response \<Rightarrow> bool" where
  "statusOk U D st \<longleftrightarrow>
     SType st \<in> {StatusOK, StatusNO, StatusBYE} \<and> ToUpper U (SType st) = SType st \<and> atomOk D (SType st) \<and>
     (if SCode st = [] then SCodeArgs st = []
      else atomOk D (SCode st) \<and> ToUpper U (SCode st) = SCode st \<and> list_all (fits D) (SCodeArgs st)) \<and>
     fits D (SText st)"

lemma statusText_read:
  assumes "fits D t"
  shows "statusText D (out\<lparr>SText := []\<rparr>) ((if t \<noteq> [] then wireString False t else []) @ crlf @ rest) = (Inr (out\<lparr>SText := t\<rparr>), rest)"
proof (cases "t = []")
  case True
  then show ?thesis by (simp add: statusText_def PeekByte_def statusLineEnd_def)
next
  case False
  obtain b r where b: "wireString False t = b # r" "b = DQUOTE \<or> b = CHR ''{''" using wireString_head by blast
  have "ReadToken D (wireString False t @ crlf @ rest) = (Inr t, crlf @ rest)"
    using assms by (intro ReadToken_read item_string) simp_all
  then show ?thesis
    using False b by (auto simp: statusText_def PeekByte_def statusLineEnd_def)
qed

lemma SkipSP_text:
  "SkipSP D ((if t \<noteq> [] then '' '' @ wireString False t else []) @ crlf @ rest) =
     (Inr (), (if t \<noteq> [] then wireString False t else []) @ crlf @ rest)"
proof -
  obtain b r where "wireString False t = b # r" "b = DQUOTE \<or> b = CHR ''{''" using wireString_head by blast
  then show ?thesis by auto
qed

lemma ReadStatusLine_read:
  assumes "statusOk U D st"
  shows "ReadStatusLine U D (wireStatus st @ rest) = (Inr st, rest)"
proof -
  let ?t = "(if SText st \<noteq> [] then '' '' @ wireString False (SText st) else []) @ crlf @ rest"
  let ?t1 = "(if SText st \<noteq> [] then wireString False (SText st) else []) @ crlf @ rest"
  let ?out = "\<lparr>SType = SType st, SCode = [], SCodeArgs = [], SText = []\<rparr>"
  have st: "atomOk D (SType st)" "ToUpper U (SType st) = SType st" "SType st \<in> {StatusOK, StatusNO, StatusBYE}"
    "fits D (SText st)" using assms by (auto simp: statusOk_def)
  show ?thesis
  proof (cases "SCode st = []")
    case True
    have line: "wireStatus st @ rest = SType st @ ?t" using True by (simp add: wireStatus_def)
    have atom: "ReadAtom D (wireStatus st @ rest) = (Inr (SType st), ?t)"
      unfolding line by (rule ReadAtom_ok [OF st(1)]) simp
    have eq: "?out\<lparr>SText := SText st\<rparr> = st" using True assms by (simp add: statusOk_def)
    show ?thesis
    proof (cases "SText st = []")
      case True
      then show ?thesis
        using atom st eq by (simp add: ReadStatusLine_def PeekByte_def statusLineEnd_def Let_def)
    next
      case False
      obtain b r where b: "wireString False (SText st) = b # r" "b = DQUOTE \<or> b = CHR ''{''" using wireString_head by blast
      have "statusText D ?out ?t1 = (Inr st, rest)" using statusText_read [OF st(4), of ?out rest] eq by simp
      then show ?thesis
        using atom st False b by (auto simp: ReadStatusLine_def PeekByte_def Let_def)
    qed
  next
    case False
    let ?args = "wireArgs (map (wireString False) (SCodeArgs st)) @ CHR '')'' # ?t"
    let ?out1 = "?out\<lparr>SCode := SCode st, SCodeArgs := SCodeArgs st\<rparr>"
    have code: "atomOk D (SCode st)" "ToUpper U (SCode st) = SCode st" "list_all (fits D) (SCodeArgs st)"
      using False assms by (auto simp: statusOk_def)
    have line: "wireStatus st @ rest = SType st @ CHR '' '' # CHR ''('' # SCode st @ ?args"
      using False by (simp add: wireStatus_def)
    have atom: "ReadAtom D (wireStatus st @ rest) = (Inr (SType st), CHR '' '' # CHR ''('' # SCode st @ ?args)"
      unfolding line by (rule ReadAtom_ok [OF st(1)]) simp
    have name: "ReadAtom D (SCode st @ ?args) = (Inr (SCode st), ?args)"
      by (rule ReadAtom_ok [OF code(1)]) simp
    have "statusText D ?out1 ?t1 = (Inr st, rest)" using statusText_read [OF st(4), of ?out1 rest] by simp
    then have "statusCode U D ?out (SCode st @ ?args) = (Inr st, rest)"
      using name codeArgs_read [OF code(3), of "[]" False ?t] code(2) SkipSP_text [of D "SText st" rest]
      by (simp add: statusCode_def Let_def)
    then show ?thesis
      using atom st by (simp add: ReadStatusLine_def PeekByte_def Let_def)
  qed
qed

section \<open>Commands as the encoder writes them\<close>

lemma encOut_encodeStrings:
  "ready e \<Longrightarrow> fold (\<lambda>arg e. encodeString pl arg (SP e)) args e = emit (wireArgs (map (wireString pl) args)) e"
  by (induction args arbitrary: e) (simp_all add: wire_simps)

text \<open>
  C18: commands survive the wire.  A command that the encoder writes, with its arguments as
  quoted strings or as literals of either kind, is read by the decoder as that command with
  exactly those arguments, whatever bytes follow, when name, arguments and their number are
  within the limits of the decoder.
\<close>

theorem wire_command_round_trip:
  assumes "commandOk D name ss" "list_all (fits D) ss"
  shows "ReadCommand U D
      (encOut (snd (CRLF (fold (\<lambda>arg e. encodeString pl arg (SP e)) ss (Atom name NewEncoder)))) @ rest) =
    (Inr (ToUpper U name, ss), rest)"
proof -
  have "list_all2 (item D) (map (wireString pl) ss) ss"
    using assms(2) by (auto simp: list_all2_conv_all_nth list_all_length intro: item_string)
  then show ?thesis
    using ReadCommand_read [OF assms(1), of "map (wireString pl) ss" U rest] by (simp add: wire_simps encOut_encodeStrings)
qed

definition exampleDecoder :: decoder where
  "exampleDecoder =
     \<lparr>MaxLiteralBytes = 100, MaxAtomBytes = 10, MaxQuotedBytes = 10, MaxCommandArgs = 2, MaxNonLiteralCommandLen = 20,
      streamEnd = IoEOF\<rparr>"

definition asciiTables :: unicode_tables where
  "asciiTables = \<lparr>tableIsDigit = (\<lambda>_. False), tableToLower = id, tableToUpper = id, tableFolds = (\<lambda>_ _. False)\<rparr>"

theorem wire_command_round_trip_witness:
  "ReadCommand asciiTables exampleDecoder
     (encOut (snd (CRLF (fold (\<lambda>arg e. encodeString True arg (SP e)) [[DQUOTE], crlf] (Atom ''NOOP'' NewEncoder)))) @ ''X'') =
   (Inr (ToUpper asciiTables ''NOOP'', [[DQUOTE], crlf]), ''X'')"
proof (rule wire_command_round_trip)
  show "commandOk exampleDecoder ''NOOP'' [[DQUOTE], crlf]"
    by (simp add: commandOk_def atomOk_def counts_def exampleDecoder_def isAtomChar_def maxInt64_def)
  show "list_all (fits exampleDecoder) [[DQUOTE], crlf]"
    by (simp add: fits_def literalFits_def exampleDecoder_def maxUint32_def)
qed

end
