(* ===== verification/Server_Laws.thy ===== *)
theory Server_Laws
  imports Server Storage_Laws Wire_Laws
begin

text \<open>
  What a connection of the ManageSieve server does, whatever the client sends.

  The inductive relation \<open>store_step\<close> is one call of the storage.  The locale \<open>conn_relation\<close> is
  the interface between the command handlers and the state they share: a relation that every
  elementary change of a connection respects (output, input, a TLS handshake, authorization, a
  call of the storage by an authenticated connection, the end of a session) is respected by
  every command and by the whole loop.  It is interpreted with the relations that the theorems
  need.
\<close>

section \<open>Calls of the storage\<close>

inductive store_step :: "'s backend \<Rightarrow> 's \<Rightarrow> 's \<Rightarrow> bool" for B where
  step_open: "store_step B w (snd (BOpen B own w))"
| step_close: "store_step B w (BClose B h w)"
| step_list: "store_step B w (snd (BListScripts B h w))"
| step_get: "store_step B w (snd (BGetScript B n h w))"
| step_put: "store_step B w (snd (BPutScript B n b h w))"
| step_check: "store_step B w (snd (BCheckScript B b h w))"
| step_activate: "store_step B w (snd (BSetActive B n h w))"
| step_delete: "store_step B w (snd (BDeleteScript B n h w))"
| step_rename: "store_step B w (snd (BRenameScript B n m h w))"
| step_space: "store_step B w (snd (BHaveSpace B n k h w))"

definition callsStorage :: "'s backend \<Rightarrow> ('s, 'a) session_op \<Rightarrow> bool" where
  "callsStorage B f \<longleftrightarrow> (\<forall>h w. store_step B w (snd (f h w)))"

lemma callsStorage_ops:
  "callsStorage B (BListScripts B)" "callsStorage B (BGetScript B n)" "callsStorage B (BPutScript B n b)"
  "callsStorage B (BCheckScript B b)" "callsStorage B (BSetActive B n)" "callsStorage B (BDeleteScript B n)"
  "callsStorage B (BRenameScript B n m)" "callsStorage B (BHaveSpace B n k)"
  by (simp_all add: callsStorage_def store_step.intros)

section \<open>Reading and writing\<close>

lemma sendLine_emit: "ready e \<Longrightarrow> sendLine e c = (Inr (), c\<lparr>written := written c @ encOut e @ crlf\<rparr>)"
  by (simp add: sendLine_def wire_simps)

text \<open>The status that \<open>writeStatus\<close> sends: a missing type is OK, and arguments need a code.\<close>

definition sent :: "status_response \<Rightarrow> status_response" where
  "sent st = st\<lparr>SType := (if SType st = [] then StatusOK else SType st), SCodeArgs := (if SCode st = [] then [] else SCodeArgs st)\<rparr>"

lemma encodeStatus_emit: "ready (encodeStatus st)" "encOut (encodeStatus st) @ crlf = wireStatus (sent st)"
  by (simp_all add: encodeStatus_def Let_def wire_simps encOut_encodeStrings wireStatus_def sent_def)

lemma writeStatus_emit: "writeStatus st c = (Inr (), c\<lparr>written := written c @ wireStatus (sent st)\<rparr>)"
  using encodeStatus_emit [of st] by (simp add: writeStatus_def sendLine_emit)

lemma sendLines_emit:
  assumes "\<And>x. ready (f x)"
  shows "sendLines f xs c = (Inr (), c\<lparr>written := written c @ concat (map (\<lambda>x. encOut (f x) @ crlf) xs)\<rparr>)"
  by (induction xs arbitrary: c) (simp_all add: bindC_def sendLine_emit assms)

lemma ready_lines: "ready (encodeCapability ci)" "ready (encodeScriptInfo it)" "ready (StringServer s NewEncoder)"
  by (simp_all add: encodeCapability_def encodeScriptInfo_def Let_def wire_simps split: option.split)

text \<open>The capability lines of a connection.\<close>

definition capabilityLines :: "'s server \<Rightarrow> 's conn \<Rightarrow> bytes" where
  "capabilityLines srv c = concat (map (\<lambda>x. encOut (encodeCapability x) @ crlf) (capabilityItems srv c))"

lemma writeCapabilityResponse_emit:
  "writeCapabilityResponse srv st c = (Inr (), c\<lparr>written := written c @ capabilityLines srv c @ wireStatus (sent st)\<rparr>)"
  by (simp add: writeCapabilityResponse_def capabilityLines_def bindC_def sendLines_emit ready_lines writeStatus_emit)

lemma liftRead_state: "liftRead m c = (r, c') \<Longrightarrow> c' = c\<lparr>rd := snd (m (rd c))\<rparr>"
  by (auto simp: liftRead_def split: prod.splits sum.splits)

section \<open>No read lengthens the input\<close>

definition shrinks :: "'a rd \<Rightarrow> bool" where
  "shrinks m \<longleftrightarrow> (\<forall>bs. length (snd (m bs)) \<le> length bs)"

lemma shrinks_SkipSP: "shrinks (SkipSP D)"
  unfolding shrinks_def
proof
  show "length (snd (SkipSP D bs)) \<le> length bs" for bs
    by (induction bs) (auto simp: endOf_def)
qed

lemma shrinks_ExpectCRLF: "shrinks (ExpectCRLF D)"
  by (auto simp: shrinks_def ExpectCRLF_def endOf_def split: list.split)

lemma shrinks_atomLoop: "length (snd (atomLoop D acc cb bs)) \<le> length bs"
proof (induction bs arbitrary: acc cb)
  case (Cons ch r)
  then show ?case by (simp add: le_SucI split: sum.split)
qed (simp add: endOf_def)

lemma shrinks_quotedLoop: "length (snd (quotedLoop D acc cb bs)) \<le> length bs"
proof (induction "length bs" arbitrary: bs acc cb rule: less_induct)
  case less
  show ?case
  proof (cases bs)
    case (Cons ch r)
    have "length (snd (quotedLoop D acc' cb' r)) \<le> length r" for acc' cb' using less Cons by simp
    moreover have "length (snd (quotedLoop D acc' cb' r2)) \<le> length r2" if "r = x # r2" for acc' cb' x r2
      using less Cons that by simp
    ultimately show ?thesis using Cons by (cases r) (simp_all add: endOf_def le_SucI split: sum.split)
  qed (simp add: endOf_def)
qed

lemma shrinks_bind:
  assumes "shrinks m" "\<And>x. shrinks (k x)"
  shows "shrinks (\<lambda>bs. case m bs of (Inl e, r) \<Rightarrow> (f e, r) | (Inr x, r) \<Rightarrow> k x r)"
  unfolding shrinks_def
proof
  fix bs
  obtain x r where m: "m bs = (x, r)" by (cases "m bs")
  then have "length r \<le> length bs" using assms(1) by (metis shrinks_def snd_conv)
  moreover have "length (snd (k y r)) \<le> length r" for y using assms(2) by (simp add: shrinks_def)
  ultimately show "length (snd (case m bs of (Inl e, r) \<Rightarrow> (f e, r) | (Inr x, r) \<Rightarrow> k x r)) \<le> length bs"
    using m order_trans by (cases x) fastforce+
qed

lemma shrinks_readAtom: "shrinks (readAtom D cb)"
  using shrinks_bind [OF shrinks_SkipSP, of "\<lambda>_. atomLoop D [] cb" Inl D] shrinks_atomLoop
  by (simp add: shrinks_def readAtom_def)

lemma shrinks_literalDigits: "length (snd (literalDigits D bs)) \<le> length bs"
proof -
  have "length (snd (literalDigits D bs)) \<le> length (dropWhile is_digit bs)"
    by (auto simp: literalDigits_def endOf_def Let_def split: list.split)
  then show ?thesis using length_dropWhile_le [of is_digit bs] by linarith
qed

lemma shrinks_readFull: "shrinks (readFull D n)"
  by (simp add: shrinks_def readFull_def)

lemma shrinks_readLiteral: "shrinks (readLiteral D cb)"
proof -
  have tl: "shrinks (\<lambda>bs. literalDigits D (tl bs))"
    unfolding shrinks_def using shrinks_literalDigits by (metis diff_le_self le_trans length_tl)
  have full: "shrinks (\<lambda>r. case readFull D n r of (Inl e, r3) \<Rightarrow> (Inl e, r3) | (Inr buf, r3) \<Rightarrow> (Inr (buf, cb'), r3))" for n and cb' :: "int option"
    using shrinks_bind [OF shrinks_readFull, of "\<lambda>buf r. (Inr (buf, cb'), r)" Inl D n] by (simp add: shrinks_def)
  have rest: "shrinks (\<lambda>r. case literalSize D cb ds of Inl e \<Rightarrow> (Inl e, r) | Inr (sz, cb') \<Rightarrow>
      (case ExpectCRLF D r of (Inl e, r2) \<Rightarrow> (Inl e, r2) | (Inr _, r2) \<Rightarrow>
        (case readFull D (nat sz) r2 of (Inl e, r3) \<Rightarrow> (Inl e, r3) | (Inr buf, r3) \<Rightarrow> (Inr (buf, cb'), r3))))" for ds
    using shrinks_bind [OF shrinks_ExpectCRLF full]
    by (cases "literalSize D cb ds") (auto simp: shrinks_def split: prod.split)
  show ?thesis
    unfolding readLiteral_def using shrinks_bind [OF tl rest] by (simp add: shrinks_def)
qed

lemma shrinks_Cons: "shrinks m \<Longrightarrow> length (snd (m (b # r))) \<le> Suc (length r)"
  unfolding shrinks_def by (drule spec [of _ "b # r"]) simp

lemma shrinks_readString: "shrinks (readString D cb)"
proof -
  have "shrinks (\<lambda>r. case PeekByte D r of (Inl e, r1) \<Rightarrow> (Inl e, r1) | (Inr b, r1) \<Rightarrow>
      if b = DQUOTE then readQuoted D cb r1 else if b = CHR ''{'' then readLiteral D cb r1 else (Inl WExpectedString, r1))"
    using shrinks_Cons [OF shrinks_readLiteral [of D cb]] shrinks_quotedLoop [of D "[]" cb]
    by (auto simp: shrinks_def PeekByte_def endOf_def readQuoted_def split: list.split intro: le_SucI)
  from shrinks_bind [OF shrinks_SkipSP this, of Inl D] show ?thesis
    by (simp add: shrinks_def readString_def)
qed

lemma shrinks_ReadString: "shrinks (ReadString D)"
proof -
  have "snd (ReadString D bs) = snd (readString D None bs)" for bs
    by (auto simp: ReadString_def split: prod.split sum.split)
  then show ?thesis using shrinks_readString [of D None] by (simp add: shrinks_def)
qed

lemma shrinks_readToken: "shrinks (readToken D cb)"
proof -
  have "shrinks (\<lambda>r. case PeekByte D r of (Inl e, r1) \<Rightarrow> (Inl e, r1) | (Inr b, r1) \<Rightarrow>
      if b = DQUOTE \<or> b = CHR ''{'' then readString D cb r1 else readAtom D cb r1)"
    using shrinks_Cons [OF shrinks_readString [of D cb]] shrinks_Cons [OF shrinks_readAtom [of D cb]]
    by (auto simp: shrinks_def PeekByte_def endOf_def split: list.split)
  from shrinks_bind [OF shrinks_SkipSP this, of Inl D] show ?thesis
    by (simp add: shrinks_def readToken_def)
qed

lemma shrinks_readArgs: "length (snd (readArgs D cb args bs)) \<le> length bs"
proof (induction D cb args bs rule: readArgs.induct)
  case (1 D cb args bs)
  show ?case
  proof (cases bs)
    case Nil
    then show ?thesis by (simp add: readArgs.simps endOf_def)
  next
    case (Cons b r)
    obtain x r1 where t: "readToken D cb bs = (x, r1)" by (cases "readToken D cb bs")
    then have le: "length r1 \<le> length bs" using shrinks_readToken [of D cb] by (metis shrinks_def snd_conv)
    have crlf: "length (snd (ExpectCRLF D bs)) \<le> length bs" using shrinks_ExpectCRLF by (simp add: shrinks_def)
    have "length (snd (readArgs D cb' (args @ [arg]) r1)) \<le> length r1"
      if "x = Inr (arg, cb')" "\<not> (b = CR \<or> b = LF)" "\<not> (MaxCommandArgs D > 0 \<and> int (length args) \<ge> MaxCommandArgs D)" for arg cb'
      using 1 [of b r] Cons t that by simp
    then show ?thesis
      using le crlf t Cons order_trans
      by (subst readArgs.simps) (fastforce split: sum.split prod.split)
  qed
qed

lemma shrinks_ReadCommand: "shrinks (ReadCommand U D)"
  unfolding shrinks_def
proof
  fix bs
  obtain x r where a: "readAtom D (Some 0) bs = (x, r)" by (cases "readAtom D (Some 0) bs")
  have r: "length r \<le> length bs" using shrinks_readAtom [of D "Some 0"] a by (metis shrinks_def snd_conv)
  show "length (snd (ReadCommand U D bs)) \<le> length bs"
  proof (cases x)
    case (Inr y)
    then have "snd (ReadCommand U D bs) = snd (readArgs D (snd y) [] r)"
      using a by (simp add: ReadCommand_def split: prod.split sum.split)
    then show ?thesis using shrinks_readArgs [of D "snd y" "[]" r] r by simp
  next
    case (Inl e)
    then show ?thesis using a r by (simp add: ReadCommand_def)
  qed
qed

lemma ReadCommand_length: "ReadCommand U D bs = (Inr x, r) \<Longrightarrow> length r < length bs"
proof -
  assume "ReadCommand U D bs = (Inr x, r)"
  then obtain y r1 args where "readAtom D (Some 0) bs = (Inr y, r1)" "readArgs D (snd y) [] r1 = (Inr args, r)"
    by (auto simp: ReadCommand_def split: prod.splits sum.splits)
  then show ?thesis
    using readAtom_length shrinks_readArgs [of D "snd y" "[]" r1] by (metis le_less_trans snd_conv)
qed

lemma authLoop_challenge:
  "step hist = SaslChallenge ch \<Longrightarrow> authLoop srv step hist c =
     bindC (sendLine (StringServer (EncodeToString ch) NewEncoder)) (\<lambda>_ c1.
       bindC (liftRead (ReadString (dec srv c1))) (\<lambda>inp c2.
         bindC (liftRead (ExpectCRLF (dec srv c2))) (\<lambda>_.
           if inp = ''*'' then refuse ''Authentication cancelled''
           else (case decodeB64 inp of
                   None \<Rightarrow> refuse ''Malformed SASL response''
                 | Some resp \<Rightarrow> authLoop srv step (hist @ [resp]))) c2) c1) c"
  by (simp add: authLoop.simps [of srv step hist c] bindC_def split: prod.split sum.split option.split)

text \<open>The connection after at most \<open>n\<close> rounds of the loop.\<close>

fun rounds :: "nat \<Rightarrow> 's server \<Rightarrow> 's conn \<Rightarrow> 's conn" where
  "rounds 0 srv c = c"
| "rounds (Suc n) srv c =
     (case serveStep srv c of (Return, c') \<Rightarrow> c' | (Continue, c') \<Rightarrow> rounds n srv c')"

section \<open>Relations that every command respects\<close>

definition stays :: "('s conn \<Rightarrow> 's conn \<Rightarrow> bool) \<Rightarrow> ('s, 'a) conn_op \<Rightarrow> 's conn \<Rightarrow> bool" where
  "stays R m c \<longleftrightarrow> R c (snd (m c))"

locale conn_relation =
  fixes srv :: "'s server" and R :: "'s conn \<Rightarrow> 's conn \<Rightarrow> bool"
  assumes R_refl: "R c c"
    and R_trans: "R c1 c2 \<Longrightarrow> R c2 c3 \<Longrightarrow> R c1 c3"
    and R_write: "R c (c\<lparr>written := written c @ bs\<rparr>)"
    and R_read: "length r \<le> length (rd c) \<Longrightarrow> R c (c\<lparr>rd := r\<rparr>)"
    and R_handshake: "state c = ConnStateNotAuthenticated \<Longrightarrow> upgrades c = Inr r # us \<Longrightarrow>
      R c (c\<lparr>rd := r, upgrades := us, isTLS := True\<rparr>)"
    and R_handshake_error: "state c = ConnStateNotAuthenticated \<Longrightarrow> upgrades c = Inl (e, n, r) # us \<Longrightarrow>
      R c (c\<lparr>rd := take n (rd c) @ r, upgrades := us\<rparr>)"
    and R_authorize: "state c = ConnStateNotAuthenticated \<Longrightarrow> allowPlain srv c \<Longrightarrow> Authorize srv own c = (x, c') \<Longrightarrow> R c c'"
    and R_store: "state c = ConnStateAuthenticated \<Longrightarrow> session c = Some h \<Longrightarrow> store_step (backend srv) (world c) w \<Longrightarrow>
      R c (c\<lparr>world := w\<rparr>)"
    and R_unauthenticate: "state c = ConnStateAuthenticated \<Longrightarrow>
      w = world c \<or> store_step (backend srv) (world c) w \<Longrightarrow>
      R c (c\<lparr>world := w, session := None, owner := [], state := ConnStateNotAuthenticated\<rparr>)"
    and R_logout: "R c (c\<lparr>state := ConnStateLogout\<rparr>)"
begin

lemma R_write2: "R c d \<Longrightarrow> R c (d\<lparr>written := written d @ bs\<rparr>)"
  by (rule R_trans [OF _ R_write])

lemma R_writeStatus: "R c d \<Longrightarrow> R c (snd (writeStatus st d))"
  by (simp add: writeStatus_emit R_write2)

lemma R_capabilities: "R c d \<Longrightarrow> R c (snd (writeCapabilityResponse srv st d))"
  by (simp add: writeCapabilityResponse_emit R_write2)

lemma R_liftRead: "shrinks m \<Longrightarrow> liftRead m c = (x, c') \<Longrightarrow> R c c'"
  using R_read [of "snd (m (rd c))" c] by (auto simp: shrinks_def dest!: liftRead_state)

lemma stays_bindC:
  assumes "stays R m c" "\<And>x c'. m c = (Inr x, c') \<Longrightarrow> stays R (k x) c'"
  shows "stays R (bindC m k) c"
proof -
  obtain r c' where m: "m c = (r, c')" by (cases "m c")
  then have "R c c'" using assms(1) by (simp add: stays_def)
  then show ?thesis
    using m assms(2) [of _ c'] by (cases r) (auto simp: stays_def bindC_def intro: R_trans)
qed

lemma R_bindC:
  "R c (snd (m c)) \<Longrightarrow> (\<And>x c'. m c = (Inr x, c') \<Longrightarrow> R c' (snd (k x c'))) \<Longrightarrow> R c (snd (bindC m k c))"
  using stays_bindC [of m c k] by (simp add: stays_def)

lemma stays_simple:
  "stays R (refuse txt) c" "stays R (failC e) c" "stays R (writeStatus st) c" "stays R writeOK c"
  "stays R (writeCapabilityResponse srv st) c"
  by (simp_all add: stays_def refuse_def failC_def writeOK_def R_refl R_writeStatus R_capabilities)

lemma stays_sendLines: "(\<And>x. ready (f x)) \<Longrightarrow> stays R (sendLines f xs) c"
  by (simp add: stays_def sendLines_emit R_write)

lemma stays_sendLine: "ready e \<Longrightarrow> stays R (sendLine e) c"
  by (simp add: stays_def sendLine_emit R_write)

lemma stays_onSession:
  assumes "state c = ConnStateAuthenticated" "callsStorage (backend srv) f"
  shows "stays R (onSession f) c"
proof (cases "session c")
  case (Some h)
  have "store_step (backend srv) (world c) (snd (f h (world c)))" using assms(2) by (simp add: callsStorage_def)
  from R_store [OF assms(1) Some this] show ?thesis
    by (cases "f h (world c)") (simp add: stays_def onSession_def Some)
qed (simp add: stays_def onSession_def R_refl)

lemma stays_liftRead: "shrinks m \<Longrightarrow> stays R (liftRead m) c"
  by (cases "liftRead m c") (simp add: stays_def R_liftRead)

lemma stays_tryC: "stays R m c \<Longrightarrow> stays R (tryC m) c"
  by (cases "m c") (simp add: stays_def tryC_def)

lemma stays_writeWarningsOrOK: "stays R (writeWarningsOrOK r) c"
  by (simp add: writeWarningsOrOK_def stays_simple split: sum.split conn_error.split)

lemma stays_authLoop:
  "state c = ConnStateNotAuthenticated \<Longrightarrow> allowPlain srv c \<Longrightarrow> stays R (authLoop srv step hist) c"
proof (induction "length (rd c)" arbitrary: c hist rule: less_induct)
  case less
  show ?case
  proof (cases "step hist")
    case (SaslError e)
    then show ?thesis by (simp add: stays_def authLoop.simps R_refl)
  next
    case (SaslDone ch own)
    have "R c (snd (Authorize srv own c))" using R_authorize [OF less(2,3)] by (metis prod.collapse)
    then have "stays R (bindC (Authorize srv own) (\<lambda>_. writeCapabilityResponse srv st)) c" for st
      by (intro stays_bindC stays_simple) (simp add: stays_def)
    then show ?thesis using SaslDone by (simp add: stays_def authLoop.simps [of srv step hist c])
  next
    case (SaslChallenge ch)
    have again: "stays R (authLoop srv step h) c3"
      if "liftRead (ReadString D) c1 = (Inr inp, c2)" "liftRead (ExpectCRLF D') c2 = (Inr u, c3)"
        "c1 = c\<lparr>written := bs\<rparr>" for D D' c1 c2 c3 inp u bs h
      using less(2,3) that liftRead_state [OF that(1)] liftRead_state [OF that(2)]
        ReadString_length [OF liftRead_rd [OF that(1)]] ExpectCRLF_length [OF liftRead_rd [OF that(2)]]
      by (intro less(1)) (auto simp: allowPlain_def)
    have "stays R (if inp = ''*'' then refuse ''Authentication cancelled''
        else (case decodeB64 inp of None \<Rightarrow> refuse ''Malformed SASL response''
              | Some resp \<Rightarrow> authLoop srv step (hist @ [resp]))) c3"
      if "liftRead (ReadString D) c1 = (Inr inp, c2)" "liftRead (ExpectCRLF D') c2 = (Inr u, c3)"
        "c1 = c\<lparr>written := bs\<rparr>" for D D' c1 c2 c3 inp u bs
      using again [OF that] by (simp add: stays_simple split: option.split)
    note next_round = this [unfolded stays_def]
    define c1 where "c1 = c\<lparr>written := written c @ encOut (StringServer (EncodeToString ch) NewEncoder) @ crlf\<rparr>"
    have "R c1 (snd (authLoop srv step hist c))"
      unfolding authLoop_challenge [of step hist ch srv c, OF SaslChallenge] bindC_def [of "sendLine _"]
        sendLine_emit [OF ready_lines(3)] c1_def [symmetric] prod.case sum.case
      by (intro R_bindC stays_liftRead [unfolded stays_def] shrinks_ReadString shrinks_ExpectCRLF)
        (rule next_round, assumption, assumption, rule c1_def)
    then show ?thesis unfolding stays_def using R_write R_trans c1_def by metis
  qed
qed

lemma stays_handleAuthenticate: "stays R (handleAuthenticate srv args) c"
proof -
  have "R c (snd (authLoop srv step hist c))"
    if "state c = ConnStateNotAuthenticated" "isTLS c \<or> InsecureAuth (soptions srv)" for step hist
    using stays_authLoop [OF that(1), of step hist] that(2) by (simp add: stays_def allowPlain_def)
  then show ?thesis
    by (auto simp: stays_def handleAuthenticate_def refuse_def failC_def R_refl split: list.split option.split sum.split)
qed

lemma stays_handleStartTLS: "stays R (handleStartTLS srv args) c"
proof -
  have "stays R (\<lambda>c1. case upgrades c1 of
          [] \<Rightarrow> (Inl (WireFailed (WIo IoEOF)), c1)
        | Inl (e, n, r) # us \<Rightarrow> (Inl e, c1\<lparr>rd := take n (rd c1) @ r, upgrades := us\<rparr>)
        | Inr stream # us \<Rightarrow>
            writeCapabilityResponse srv (statusOf StatusOK []) (c1\<lparr>rd := stream, upgrades := us, isTLS := True\<rparr>)) d"
    if "state d = ConnStateNotAuthenticated" for d
    using that
    by (auto simp: stays_def R_refl R_capabilities R_handshake R_handshake_error split: list.split sum.split)
  note handshake = this
  show ?thesis
  proof (cases "args = [] \<and> state c = ConnStateNotAuthenticated \<and> TLSConfig (soptions srv)")
    case True
    then show ?thesis
      using stays_bindC [OF stays_simple(4) handshake, of c] by (simp add: stays_def handleStartTLS_def writeOK_def writeStatus_emit)
  qed (auto simp: stays_def handleStartTLS_def refuse_def failC_def R_refl)
qed

lemma stays_handleUnauthenticate: "state c = ConnStateAuthenticated \<Longrightarrow> stays R (handleUnauthenticate srv) c"
  unfolding stays_def handleUnauthenticate_def Let_def
  by (intro R_capabilities R_unauthenticate) (simp_all add: step_close split: option.split)

lemma stays_handleStored:
  assumes "state c = ConnStateAuthenticated"
  shows "stays R (handleStored srv name args) c"
proof -
  note call = stays_onSession [OF assms]
  have ok: "stays R (thenOK (onSession f)) c" if "callsStorage (backend srv) f" for f
    unfolding thenOK_def by (intro stays_bindC stays_simple call that)
  have "stays R (handleListScripts srv args) c"
    by (simp add: handleListScripts_def)
      (intro impI conjI stays_bindC stays_simple stays_sendLines call callsStorage_ops ready_lines)
  moreover have "stays R (handleGetScript srv args) c"
    unfolding handleGetScript_def
    by (auto split: list.split intro!: stays_bindC stays_simple stays_sendLine call callsStorage_ops ready_lines)
  moreover have "stays R (handlePutScript srv args) c"
    unfolding handlePutScript_def
    by (auto split: list.split intro!: stays_bindC stays_tryC stays_writeWarningsOrOK stays_simple call callsStorage_ops)
  moreover have "stays R (handleCheckScript srv args) c"
    unfolding handleCheckScript_def
    by (auto split: list.split intro!: stays_bindC stays_tryC stays_writeWarningsOrOK stays_simple call callsStorage_ops)
  ultimately show ?thesis
    using stays_handleUnauthenticate [OF assms]
    by (simp add: handleStored_def stays_simple ok callsStorage_ops split: list.split option.split)
qed

lemma R_logoutOK: "R c (snd (writeOK (c\<lparr>state := ConnStateLogout\<rparr>)))"
  unfolding writeOK_def by (rule R_writeStatus, rule R_logout)

lemma stays_handleCommand: "stays R (handleCommand srv name args) c"
  unfolding stays_def handleCommand_def Let_def
  by (simp add: R_logoutOK stays_simple [unfolded stays_def] stays_handleAuthenticate [unfolded stays_def]
      stays_handleStartTLS [unfolded stays_def] stays_handleStored [unfolded stays_def] split: list.split)

end

text \<open>A relation that a panic respects too is respected by the loop.\<close>

locale conn_loop = conn_relation +
  assumes R_crash: "R c (c\<lparr>crashed := True\<rparr>)"
begin

lemma R_afterCommand: "R c (snd rc) \<Longrightarrow> R c (snd (afterCommand rc))"
  by (auto simp: afterCommand_def sayBye_def R_writeStatus R_trans [OF _ R_crash] split: prod.split sum.split conn_error.split)

lemma R_serveStep: "R c (snd (serveStep srv c))"
proof -
  obtain r c1 where l: "liftRead (ReadCommand (suni srv) (dec srv c)) c = (r, c1)" by (cases "liftRead (ReadCommand (suni srv) (dec srv c)) c")
  have c1: "R c c1" by (rule R_liftRead [OF shrinks_ReadCommand l])
  have cmd: "R c (snd (afterCommand (handleCommand srv name args c1)))" for name args
    using R_trans [OF c1] stays_handleCommand [of name args c1] by (intro R_afterCommand) (auto simp: stays_def)
  show ?thesis
    using c1 cmd R_writeStatus [OF c1] 
    by (auto simp: serveStep_def l sayBye_def split: sum.split conn_error.split wire_error.split io_error.split)
qed

lemma R_serveLoop: "serveLoop n srv c = Some c' \<Longrightarrow> R c c'"
proof (induction n arbitrary: c)
  case (Suc n)
  obtain nx d where st: "serveStep srv c = (nx, d)" by (cases "serveStep srv c")
  then have "R c d" using R_serveStep [of c] by simp
  then show ?case using Suc st by (cases nx) (auto intro: R_trans)
qed simp

lemma R_rounds: "R c (rounds n srv c)"
proof (induction n arbitrary: c)
  case (Suc n)
  obtain nx d where st: "serveStep srv c = (nx, d)" by (cases "serveStep srv c")
  then have "R c d" using R_serveStep [of c] by simp
  then show ?case using st R_trans [OF _ Suc] by (cases nx) auto
qed (simp add: R_refl)

end

end
