(* ===== verification/Server_Theorems.thy ===== *)
theory Server_Theorems
  imports Server_Laws
begin

text \<open>
  The theorems on a connection of the ManageSieve server: authentication needs TLS, storage needs
  authentication, \<open>STARTTLS\<close> drops pipelined plaintext, every command is answered, and serving
  ends.  The relations that interpret \<open>conn_loop\<close> come first.
\<close>

section \<open>Interpretations\<close>

text \<open>An authenticated connection has a session, and TLS unless the options waive it.\<close>

definition connOk :: "'s server \<Rightarrow> 's conn \<Rightarrow> bool" where
  "connOk srv c \<longleftrightarrow> state c = ConnStateAuthenticated \<longrightarrow> session c \<noteq> None \<and> allowPlain srv c"

text \<open>Nothing was ever authorized, no TLS is there and no handshake to come succeeds.\<close>

definition plaintext :: "'s server \<Rightarrow> 's conn \<Rightarrow> bool" where
  "plaintext srv c \<longleftrightarrow>
     \<not> InsecureAuth (soptions srv) \<and> \<not> isTLS c \<and> list_all isl (upgrades c) \<and> state c \<noteq> ConnStateAuthenticated \<and> session c = None"

text \<open>What is still to be read, now and after the handshakes to come.\<close>

definition pending :: "'s conn \<Rightarrow> nat" where
  "pending c =
     length (rd c) + sum_list (map (\<lambda>u. case u of Inl (e, n, r) \<Rightarrow> length r | Inr r \<Rightarrow> length r) (upgrades c))"

lemma Authorize_cases:
  assumes "Authorize srv own c = (x, c')"
  obtains (failed) e where "x = Inl e" "c' = c\<lparr>world := snd (BOpen (backend srv) (if own = [] then owner c else own) (world c))\<rparr>"
  | (opened) h w where "x = Inr ()"
      "c' = c\<lparr>world := w, session := Some h, owner := (if own = [] then owner c else own), state := ConnStateAuthenticated\<rparr>"
      "w = snd (BOpen (backend srv) (if own = [] then owner c else own) (world c)) \<or>
       (\<exists>old. session c = Some old \<and> w = BClose (backend srv) old (snd (BOpen (backend srv) (if own = [] then owner c else own) (world c))))"
proof -
  let ?own = "if own = [] then owner c else own"
  obtain y w where o: "BOpen (backend srv) ?own (world c) = (y, w)" by (cases "BOpen (backend srv) ?own (world c)")
  show thesis
  proof (cases y)
    case (Inl e)
    have "x = Inl e" "c' = c\<lparr>world := snd (BOpen (backend srv) ?own (world c))\<rparr>"
      using assms o Inl by (simp_all add: Authorize_def Let_def)
    then show thesis by (rule failed)
  next
    case (Inr h)
    have "x = Inr ()"
      "c' = c\<lparr>world := (case session c of None \<Rightarrow> w | Some old \<Rightarrow> BClose (backend srv) old w), session := Some h,
        owner := ?own, state := ConnStateAuthenticated\<rparr>"
      using assms o Inr by (simp_all add: Authorize_def Let_def)
    then show thesis by (rule opened) (simp add: o split: option.split)
  qed
qed

interpretation guarded: conn_loop srv "\<lambda>c c'. connOk srv c \<longrightarrow> connOk srv c'" for srv :: "'s server"
proof
  show "connOk srv c \<longrightarrow> connOk srv c'"
    if "state c = ConnStateNotAuthenticated" "allowPlain srv c" "Authorize srv own c = (x, c')" for c c' :: "'s conn" and own x
    using that(3,1,2) by (cases rule: Authorize_cases) (auto simp: connOk_def allowPlain_def)
qed (auto simp: connOk_def allowPlain_def)

interpretation unopened: conn_loop srv "\<lambda>c c'. plaintext srv c \<longrightarrow> plaintext srv c' \<and> world c' = world c" for srv :: "'s server"
  by standard (auto simp: plaintext_def allowPlain_def)

interpretation budget: conn_loop srv "\<lambda>c c'. pending c' \<le> pending c" for srv :: "'s server"
proof
  show "pending c' \<le> pending c" if "Authorize srv own c = (x, c')" for c c' :: "'s conn" and own x
    using that by (cases rule: Authorize_cases) (auto simp: pending_def)
qed (auto simp: pending_def)

interpretation transcript: conn_loop srv "\<lambda>c c'. \<exists>bs. written c' = written c @ bs" for srv :: "'s server"
proof
  show "\<exists>bs. written c' = written c @ bs" if "Authorize srv own c = (x, c')" for c c' :: "'s conn" and own x
    using that by (cases rule: Authorize_cases) auto
qed auto

interpretation steady: conn_relation srv "\<lambda>c c'. crashed c' = crashed c" for srv :: "'s server"
proof
  show "crashed c' = crashed c" if "Authorize srv own c = (x, c')" for c c' :: "'s conn" and own x
    using that by (cases rule: Authorize_cases) auto
qed auto

text \<open>A backend that opens one session in memory for every owner.\<close>

definition memoryBackend :: "memory_session backend" where
  "memoryBackend =
     \<lparr>BOpen = (\<lambda>own w. (Inr own, w)), BClose = (\<lambda>h w. w), BListScripts = (\<lambda>h. ListScripts),
      BGetScript = (\<lambda>n h. GetScript n), BPutScript = (\<lambda>n b h. PutScript n b), BCheckScript = (\<lambda>b h. CheckScript b),
      BSetActive = (\<lambda>n h. SetActive n), BDeleteScript = (\<lambda>n h. DeleteScript n),
      BRenameScript = (\<lambda>n m h. RenameScript n m), BHaveSpace = (\<lambda>n k h. HaveSpace n k)\<rparr>"

lemma memoryBackend_ops [simp]:
  "BOpen memoryBackend own w = (Inr own, w)" "BClose memoryBackend h w = w" "BListScripts memoryBackend h w = ListScripts w"
  "BGetScript memoryBackend n h w = GetScript n w" "BPutScript memoryBackend n b h w = PutScript n b w"
  "BCheckScript memoryBackend b h w = CheckScript b w" "BSetActive memoryBackend n h w = SetActive n w"
  "BDeleteScript memoryBackend n h w = DeleteScript n w" "BRenameScript memoryBackend n m h w = RenameScript n m w"
  "BHaveSpace memoryBackend n k h w = HaveSpace n k w"
  by (simp_all add: memoryBackend_def)

lemma memory_step: "store_step memoryBackend w w' \<Longrightarrow> storeOk w \<Longrightarrow> storeOk w'"
  by (induction rule: store_step.induct)
    (simp_all add: perform_quiet memory.invar_put memory.invar_activate memory.invar_delete memory.invar_rename)

definition storesIn :: "'s backend \<Rightarrow> ('s \<Rightarrow> bool) \<Rightarrow> bool" where
  "storesIn B P \<longleftrightarrow> (\<forall>w w'. store_step B w w' \<longrightarrow> P w \<longrightarrow> P w')"

lemma storesInD: "storesIn B P \<Longrightarrow> store_step B w w' \<Longrightarrow> P w \<Longrightarrow> P w'"
  unfolding storesIn_def by blast

lemma storesIn_Authorize:
  assumes "storesIn (backend srv) P" "P (world c)" "Authorize srv own c = (x, c')"
  shows "P (world c')"
  using assms(3)
proof (cases rule: Authorize_cases)
  case failed
  then show ?thesis using storesInD [OF assms(1) step_open assms(2)] by simp
next
  case (opened h w)
  note opn = storesInD [OF assms(1) step_open assms(2), of "if own = [] then owner c else own"]
  from opened(3) show ?thesis
  proof (elim disjE exE conjE)
    fix old
    assume "w = BClose (backend srv) old (snd (BOpen (backend srv) (if own = [] then owner c else own) (world c)))"
    then show ?thesis using storesInD [OF assms(1) step_close opn, of old] opened(2) by simp
  qed (simp add: opened(2) opn)
qed

interpretation stored: conn_loop srv "\<lambda>c c'. storesIn (backend srv) P \<longrightarrow> P (world c) \<longrightarrow> P (world c')"
  for srv :: "'s server" and P
  by standard (simp_all add: storesIn_Authorize, blast intro: storesInD, (blast intro: storesInD)?)

section \<open>Answers\<close>

text \<open>The operation does not panic; it succeeds only after it sent a status line.\<close>

definition calm :: "('s, 'a) conn_op \<Rightarrow> 's conn \<Rightarrow> bool" where
  "calm m c \<longleftrightarrow> fst (m c) \<noteq> Inl ConnPanic"

definition endsWithStatus :: "'s conn \<Rightarrow> 's conn \<Rightarrow> bool" where
  "endsWithStatus c c' \<longleftrightarrow> (\<exists>bs st. written c' = written c @ bs @ wireStatus (sent st))"

definition answers :: "('s, unit) conn_op \<Rightarrow> 's conn \<Rightarrow> bool" where
  "answers m c \<longleftrightarrow> (\<forall>c'. m c = (Inr (), c') \<longrightarrow> endsWithStatus c c')"

text \<open>The storage and the SASL mechanisms return errors, they do not panic.\<close>

definition quietBackend :: "'s backend \<Rightarrow> 's \<Rightarrow> bool" where
  "quietBackend B w \<longleftrightarrow>
     (\<forall>h. fst (BOpen B h w) \<noteq> Inl ConnPanic \<and> fst (BListScripts B h w) \<noteq> Inl ConnPanic) \<and>
     (\<forall>n h. fst (BGetScript B n h w) \<noteq> Inl ConnPanic \<and> fst (BCheckScript B n h w) \<noteq> Inl ConnPanic \<and>
        fst (BSetActive B n h w) \<noteq> Inl ConnPanic \<and> fst (BDeleteScript B n h w) \<noteq> Inl ConnPanic) \<and>
     (\<forall>n m h. fst (BPutScript B n m h w) \<noteq> Inl ConnPanic \<and> fst (BRenameScript B n m h w) \<noteq> Inl ConnPanic) \<and>
     (\<forall>n k h. fst (BHaveSpace B n k h w) \<noteq> Inl ConnPanic)"

definition quietAuths :: "'s server \<Rightarrow> bool" where
  "quietAuths srv \<longleftrightarrow>
     (\<forall>(m, f) \<in> set (auths srv). case f of Inl e \<Rightarrow> e \<noteq> ConnPanic | Inr step \<Rightarrow> \<forall>hist. step hist \<noteq> SaslError ConnPanic)"

definition quietUpgrades :: "'s conn \<Rightarrow> bool" where
  "quietUpgrades c \<longleftrightarrow> list_all (\<lambda>u. case u of Inl (e, _) \<Rightarrow> e \<noteq> ConnPanic | Inr _ \<Rightarrow> True) (upgrades c)"

definition quiet :: "'s server \<Rightarrow> 's conn \<Rightarrow> bool" where
  "quiet srv c \<longleftrightarrow> quietBackend (backend srv) (world c) \<and> quietAuths srv \<and> quietUpgrades c"

lemma calm_bindC: "calm m c \<Longrightarrow> (\<And>x c'. m c = (Inr x, c') \<Longrightarrow> calm (k x) c') \<Longrightarrow> calm (bindC m k) c"
  by (auto simp: calm_def bindC_def split: prod.split sum.split)

lemma calm_simple [simp]:
  "calm (refuse txt) c" "calm (writeStatus st) c" "calm writeOK c" "calm (writeCapabilityResponse srv st) c"
  "calm (liftRead m) c" "calm (tryC m') c"
  by (simp_all add: calm_def refuse_def failC_def noError_def writeStatus_emit writeOK_def writeCapabilityResponse_emit
      liftRead_def tryC_def split: prod.split sum.split)

lemma calm_sending [simp]: "ready e \<Longrightarrow> calm (sendLine e) c" "(\<And>x. ready (f x)) \<Longrightarrow> calm (sendLines f xs) c"
  by (simp_all add: calm_def sendLine_emit sendLines_emit)

lemma calm_onSession: "session c \<noteq> None \<Longrightarrow> (\<And>h. fst (f h (world c)) \<noteq> Inl ConnPanic) \<Longrightarrow> calm (onSession f) c"
proof -
  assume s: "session c \<noteq> None" and f: "\<And>h. fst (f h (world c)) \<noteq> Inl ConnPanic"
  obtain h where "session c = Some h" using s by auto
  then show "calm (onSession f) c" using f [of h] by (cases "f h (world c)") (simp add: calm_def onSession_def)
qed

lemma calm_writeWarningsOrOK: "r \<noteq> Inl ConnPanic \<Longrightarrow> calm (writeWarningsOrOK r) c"
  by (auto simp: writeWarningsOrOK_def calm_def writeOK_def writeStatus_emit failC_def split: sum.split conn_error.split)

lemma calm_authLoop:
  assumes "quietBackend (backend srv) (world c)" "\<And>hist. step hist \<noteq> SaslError ConnPanic"
  shows "calm (authLoop srv step hist) c"
  using assms(1)
proof (induction "length (rd c)" arbitrary: c hist rule: less_induct)
  case less
  show ?case
  proof (cases "step hist")
    case (SaslError e)
    then show ?thesis using assms(2) [of hist] by (simp add: calm_def authLoop.simps)
  next
    case (SaslDone ch own)
    have "calm (Authorize srv own) c"
    proof (cases "Authorize srv own c")
      case (Pair x c')
      then show ?thesis using less(2)
        by (auto simp: calm_def Authorize_def Let_def quietBackend_def split: prod.splits sum.splits) (metis fst_conv)
    qed
    then have "calm (bindC (Authorize srv own) (\<lambda>_. writeCapabilityResponse srv st)) c" for st
      by (rule calm_bindC) simp
    then show ?thesis using SaslDone by (simp add: calm_def authLoop.simps [of srv step hist c])
  next
    case (SaslChallenge ch)
    have "fst (authLoop srv step h c3) \<noteq> Inl ConnPanic" if "length (rd c3) < length (rd c)" "world c3 = world c" for h c3
      using less(1) [OF that(1), of h] less(2) that(2) by (simp add: calm_def)
    then show ?thesis
      unfolding calm_def authLoop_challenge [of step hist ch srv c, OF SaslChallenge]
      by (auto simp: bindC_def sendLine_emit ready_lines refuse_def failC_def noError_def liftRead_def
          split: prod.split sum.split option.split dest!: ReadString_length ExpectCRLF_length)
  qed
qed

lemma calm_handleAuthenticate: "quietBackend (backend srv) (world c) \<Longrightarrow> quietAuths srv \<Longrightarrow> calm (handleAuthenticate srv args) c"
proof -
  assume q: "quietBackend (backend srv) (world c)" "quietAuths srv"
  have "fst (authLoop srv step hist c) \<noteq> Inl ConnPanic" if "map_of (auths srv) m = Some (Inr step)" for m step hist
    using calm_authLoop [OF q(1), of step hist] q(2) map_of_SomeD [OF that] by (force simp: calm_def quietAuths_def)
  moreover have "map_of (auths srv) m \<noteq> Some (Inl ConnPanic)" for m
    using q(2) by (force simp: quietAuths_def dest!: map_of_SomeD)
  ultimately show ?thesis
    by (auto simp: calm_def handleAuthenticate_def refuse_def failC_def noError_def split: list.split option.split sum.split)
qed

lemma calm_handleStartTLS:
  "quietUpgrades c \<Longrightarrow> calm (handleStartTLS srv args) c"
  by (auto simp: quietUpgrades_def calm_def handleStartTLS_def bindC_def writeOK_def writeStatus_emit writeCapabilityResponse_emit
      refuse_def failC_def noError_def split: list.split sum.split)

lemma calm_handleStored:
  assumes q: "quietBackend (backend srv) (world c)" and s: "session c \<noteq> None"
  shows "calm (handleStored srv name args) c"
proof -
  have ok: "calm (thenOK (onSession f)) c" if "\<And>h. fst (f h (world c)) \<noteq> Inl ConnPanic" for f
    unfolding thenOK_def by (intro calm_bindC calm_onSession s that) simp
  have "calm (handleListScripts srv args) c"
    using q s by (auto simp: handleListScripts_def quietBackend_def ready_lines intro!: calm_bindC calm_onSession)
  moreover have "calm (handleGetScript srv args) c"
    using q s by (auto simp: handleGetScript_def quietBackend_def ready_lines split: list.split intro!: calm_bindC calm_onSession)
  moreover have warn: "calm (bindC (tryC (onSession f)) writeWarningsOrOK) c" if "\<And>h. fst (f h (world c)) \<noteq> Inl ConnPanic" for f
    using calm_onSession [OF s, of f, OF that]
    by (intro calm_bindC calm_writeWarningsOrOK) (auto simp: calm_def tryC_def split: prod.splits)
  then have "calm (handlePutScript srv args) c" "calm (handleCheckScript srv args) c"
    using q by (simp_all add: handlePutScript_def handleCheckScript_def quietBackend_def split: list.split)
  moreover have "calm (handleUnauthenticate srv) c"
    by (simp add: calm_def handleUnauthenticate_def Let_def writeCapabilityResponse_emit)
  ultimately show ?thesis
    using ok q by (simp add: handleStored_def quietBackend_def split: list.split option.split)
qed

lemma calm_handleCommand:
  assumes "quiet srv c" "connOk srv c"
  shows "calm (handleCommand srv name args) c"
  using assms calm_handleAuthenticate [of srv c args] calm_handleStartTLS [of c srv args] calm_handleStored [of srv c _ args]
    calm_simple(1-4)
  by (auto simp: quiet_def connOk_def handleCommand_def Let_def calm_def writeOK_def writeStatus_emit
      writeCapabilityResponse_emit refuse_def failC_def noError_def split: list.split)

text \<open>Success comes with a status line.\<close>

lemma endsWithStatus_later: "written c' = written c @ bs \<Longrightarrow> endsWithStatus c' c'' \<Longrightarrow> endsWithStatus c c''"
  unfolding endsWithStatus_def by (metis append.assoc)

lemma answers_bindC:
  assumes "stays (\<lambda>c c'. \<exists>bs. written c' = written c @ bs) m c" "\<And>x c'. m c = (Inr x, c') \<Longrightarrow> answers (k x) c'"
  shows "answers (bindC m k) c"
  unfolding answers_def
proof (intro allI impI)
  fix c''
  assume "bindC m k c = (Inr (), c'')"
  then obtain x c' where m: "m c = (Inr x, c')" and "k x c' = (Inr (), c'')"
    by (auto simp: bindC_def split: prod.splits sum.splits)
  then have "endsWithStatus c' c''" using assms(2) by (simp add: answers_def)
  moreover obtain bs where "written c' = written c @ bs" using assms(1) m by (auto simp: stays_def)
  ultimately show "endsWithStatus c c''" by (rule endsWithStatus_later [rotated])
qed

lemma answers_simple [simp]:
  "answers (refuse txt) c" "answers (failC e) c" "answers (writeStatus st) c" "answers writeOK c"
  "answers (writeCapabilityResponse srv st) c" "answers (writeWarningsOrOK r) c"
  by (auto simp: answers_def refuse_def failC_def endsWithStatus_def writeStatus_emit writeOK_def
      writeCapabilityResponse_emit writeWarningsOrOK_def split: sum.splits conn_error.splits)

lemma answers_authLoop: "answers (authLoop srv step hist) c"
proof (induction "length (rd c)" arbitrary: c hist rule: less_induct)
  case less
  show ?case
  proof (cases "step hist")
    case (SaslError e)
    then show ?thesis by (simp add: answers_def authLoop.simps)
  next
    case (SaslDone ch own)
    have "stays (\<lambda>c c'. \<exists>bs. written c' = written c @ bs) (Authorize srv own) c"
      unfolding stays_def by (cases "Authorize srv own c") (auto elim!: Authorize_cases)
    then have "answers (bindC (Authorize srv own) (\<lambda>_. writeCapabilityResponse srv st)) c" for st
      by (rule answers_bindC) simp
    then show ?thesis using SaslDone by (simp add: answers_def authLoop.simps [of srv step hist c])
  next
    case (SaslChallenge ch)
    have "endsWithStatus c c'"
      if "authLoop srv step h c3 = (Inr (), c')" "length (rd c3) < length (rd c)" "written c3 = written c @ bs" for h c3 c' bs
      using less [OF that(2), of h] that(1) endsWithStatus_later [OF that(3)] by (simp add: answers_def)
    then show ?thesis
      unfolding answers_def authLoop_challenge [of step hist ch srv c, OF SaslChallenge]
      by (auto simp: bindC_def sendLine_emit ready_lines refuse_def failC_def liftRead_def
          split: prod.splits sum.splits option.splits if_splits dest!: ReadString_length ExpectCRLF_length)
  qed
qed

lemma answers_handleStored:
  assumes "state c = ConnStateAuthenticated"
  shows "answers (handleStored srv name args) c"
proof -
  note call = transcript.stays_onSession [OF assms, of srv]
  have ok: "answers (thenOK (onSession f)) c" if "callsStorage (backend srv) f" for f
    unfolding thenOK_def by (intro answers_bindC answers_simple call that)
  have "answers (handleListScripts srv args) c" "answers (handleGetScript srv args) c"
    unfolding handleListScripts_def handleGetScript_def
    by (auto split: list.split
        intro!: answers_bindC call callsStorage_ops transcript.stays_sendLines transcript.stays_sendLine ready_lines)
  moreover have "answers (handlePutScript srv args) c" "answers (handleCheckScript srv args) c"
    unfolding handlePutScript_def handleCheckScript_def
    by (auto split: list.split intro!: answers_bindC transcript.stays_tryC call callsStorage_ops)
  moreover have "answers (handleUnauthenticate srv) c"
    by (auto simp: answers_def handleUnauthenticate_def Let_def writeCapabilityResponse_emit endsWithStatus_def)
  ultimately show ?thesis
    by (simp add: handleStored_def ok callsStorage_ops split: list.split option.split)
qed

lemma answers_handleStartTLS: "answers (handleStartTLS srv args) c"
  by (auto simp: answers_def handleStartTLS_def bindC_def writeOK_def writeStatus_emit writeCapabilityResponse_emit
      refuse_def failC_def endsWithStatus_def split: list.splits sum.splits if_splits) (metis append.assoc)

lemma answersD: "answers m c \<Longrightarrow> m c = (Inr (), c') \<Longrightarrow> endsWithStatus c c'"
  by (simp add: answers_def)

lemma answers_handleAuthenticate: "answers (handleAuthenticate srv args) c"
  unfolding answers_def handleAuthenticate_def refuse_def failC_def
  by (auto split: list.splits option.splits sum.splits if_splits intro: answersD [OF answers_authLoop])

lemma answers_handleCommand: "answers (handleCommand srv name args) c"
  unfolding answers_def
proof (intro allI impI)
  fix c'
  assume "handleCommand srv name args c = (Inr (), c')"
  moreover have "endsWithStatus c d" if "writeOK (c\<lparr>state := ConnStateLogout\<rparr>) = (Inr (), d)" for d
    using answersD [OF answers_simple(4) that] by (simp add: endsWithStatus_def)
  ultimately show "endsWithStatus c c'"
    unfolding handleCommand_def Let_def
    by (auto split: list.splits if_splits dest: answersD [OF answers_handleAuthenticate] answersD [OF answers_handleStartTLS]
        answersD [OF answers_handleStored] answersD [OF answers_simple(1)] answersD [OF answers_simple(3)]
        answersD [OF answers_simple(4)] answersD [OF answers_simple(5)])
qed

lemma serveStep_command:
  "ReadCommand (suni srv) (dec srv c) (rd c) = (Inr (name, args), r) \<Longrightarrow>
     serveStep srv c = afterCommand (handleCommand srv name args (c\<lparr>rd := r\<rparr>))"
  by (simp add: serveStep_def liftRead_def)

text \<open>The names of the protocol are upper case already.\<close>

lemma ToUpper_names [simp]:
  "ToUpper U ''STARTTLS'' = ''STARTTLS''" "ToUpper U ''LISTSCRIPTS'' = ''LISTSCRIPTS''" "ToUpper U ''GETSCRIPT'' = ''GETSCRIPT''"
  "ToUpper U ''PUTSCRIPT'' = ''PUTSCRIPT''" "ToUpper U ''CHECKSCRIPT'' = ''CHECKSCRIPT''" "ToUpper U ''SETACTIVE'' = ''SETACTIVE''"
  "ToUpper U ''DELETESCRIPT'' = ''DELETESCRIPT''" "ToUpper U ''RENAMESCRIPT'' = ''RENAMESCRIPT''"
  "ToUpper U ''HAVESPACE'' = ''HAVESPACE''" "ToUpper U ''NOOP'' = ''NOOP''" "ToUpper U ''LOGOUT'' = ''LOGOUT''"
  "ToUpper U ''OK'' = ''OK''" "ToUpper U ''NO'' = ''NO''" "ToUpper U ''BYE'' = ''BYE''"
  by (simp_all add: ToUpper_def upperByte_def isASCII_def is_lower_def)

section \<open>Ending\<close>

lemma afterCommand_pending: "pending (snd (afterCommand rc)) = pending (snd rc)"
  by (auto simp: afterCommand_def sayBye_def writeStatus_emit pending_def split: prod.split sum.split conn_error.split)

lemma serveStep_pending: "serveStep srv c = (Continue, c') \<Longrightarrow> pending c' < pending c"
proof -
  assume s: "serveStep srv c = (Continue, c')"
  obtain x r where rd: "ReadCommand (suni srv) (dec srv c) (rd c) = (x, r)" by (cases "ReadCommand (suni srv) (dec srv c) (rd c)")
  show ?thesis
  proof (cases x)
    case (Inl e)
    then show ?thesis using s rd by (auto simp: serveStep_def liftRead_def split: wire_error.splits io_error.splits)
  next
    case (Inr na)
    obtain name args where na: "na = (name, args)" by (cases na)
    let ?rc = "handleCommand srv name args (c\<lparr>rd := r\<rparr>)"
    have "pending c' = pending (snd ?rc)"
      using s serveStep_command [of srv c name args r] rd Inr na afterCommand_pending [of ?rc] by simp
    also have "\<dots> \<le> pending (c\<lparr>rd := r\<rparr>)" using budget.stays_handleCommand [of srv name args "c\<lparr>rd := r\<rparr>"] by (simp add: stays_def)
    also have "\<dots> < pending c" using ReadCommand_length [of "suni srv" "dec srv c" "rd c" na r] rd Inr by (simp add: pending_def)
    finally show ?thesis .
  qed
qed

lemma serveLoop_returns: "pending c < n \<Longrightarrow> \<exists>c'. serveLoop n srv c = Some c'"
proof (induction n arbitrary: c)
  case (Suc n)
  obtain nx d where s: "serveStep srv c = (nx, d)" by (cases "serveStep srv c")
  then show ?case
    using Suc serveStep_pending [of srv c d] by (cases nx) auto
qed simp

lemma serveLoop_more: "serveLoop n srv c = Some d \<Longrightarrow> serveLoop (n + k) srv c = Some d"
  by (induction n arbitrary: c) (auto split: prod.splits serve_next.splits)

section \<open>Theorems\<close>

definition exampleServer :: "memory_session server" where
  "exampleServer =
     \<lparr>soptions = NewOptions \<lparr>TLSConfig = True, InsecureAuth = False, EnableUnauthenticate = False, AuthTimeout = 0,
        IdleTimeout = 0, SMaxLiteralBytes = 0, SMaxAtomBytes = 0, SMaxQuotedBytes = 0, SMaxCommandArgs = 0,
        SMaxNonLiteralCommandLen = 0\<rparr>,
      backend = memoryBackend, auths = [], CapabilitiesFn = None, suni = exampleTables\<rparr>"

text \<open>A connection whose client sends \<open>stream\<close>, then closes.\<close>

definition exampleConn :: "bytes \<Rightarrow> memory_session conn" where
  "exampleConn stream = newConn stream IoEOF [] False exampleStore"

lemma exampleServer_options:
  "\<not> InsecureAuth (soptions exampleServer)" "TLSConfig (soptions exampleServer)"
  "backend exampleServer = memoryBackend" "auths exampleServer = []" "suni exampleServer = exampleTables"
  "connDecoder (soptions exampleServer) en =
     \<lparr>MaxLiteralBytes = 33554432, MaxAtomBytes = 1024, MaxQuotedBytes = 1024, MaxCommandArgs = 32,
      MaxNonLiteralCommandLen = 16384, streamEnd = en\<rparr>"
  by (simp_all add: exampleServer_def NewOptions_def connDecoder_def)

text \<open>
  C3: authentication is only over TLS.  Whatever a client sends and whatever the handshakes and
  the storage return, after any number of commands a connection in the authenticated state has a
  session, and it runs over TLS unless the options allow authentication without.
\<close>

theorem authentication_over_tls_only:
  "connOk srv (rounds n srv (newConn stream en ups tls w))"
  using guarded.R_rounds [of srv "newConn stream en ups tls w" n] by (simp add: connOk_def newConn_def)

text \<open>
  C9: a client without TLS does not reach the storage.  When the options do not allow insecure
  authentication and every TLS handshake that the client starts fails, no sequence of bytes, in
  whatever order the failed handshakes leave it to the reader, authenticates the connection, and
  the state behind all storage is what it was when the connection was opened.
\<close>

theorem plaintext_never_reaches_storage:
  assumes "\<not> InsecureAuth (soptions srv)" "list_all isl ups"
  shows "state (rounds n srv (newConn stream en ups False w)) \<noteq> ConnStateAuthenticated \<and>
    world (rounds n srv (newConn stream en ups False w)) = w"
  using unopened.R_rounds [of srv "newConn stream en ups False w" n] assms by (simp add: plaintext_def newConn_def)

theorem plaintext_never_reaches_storage_witness:
  "list_all isl [Inl (WireFailed (WIo IoEOF), 9 :: nat, ''SETACTIVE a'')] \<and>
   state (rounds 3 exampleServer (newConn ''STARTTLS'' IoEOF [Inl (WireFailed (WIo IoEOF), 9, ''SETACTIVE a'')] False exampleStore))
     \<noteq> ConnStateAuthenticated \<and>
   world (rounds 3 exampleServer (newConn ''STARTTLS'' IoEOF [Inl (WireFailed (WIo IoEOF), 9, ''SETACTIVE a'')] False exampleStore))
     = exampleStore"
  using plaintext_never_reaches_storage [OF exampleServer_options(1)] by simp

text \<open>
  C16: serving ends.  With fuel for one round more than there are bytes to read, over the
  connection and all handshakes to come, the loop returns, more fuel gives the same result, and
  the connection is closed.
\<close>

theorem serve_ends: "\<exists>c'. closed c' \<and> (\<forall>k. serve (Suc (pending c) + k) srv c = Some c')"
proof -
  obtain c1 where g: "writeCapabilityResponse srv (statusOf StatusOK []) c = (Inr (), c1)" and "pending c1 = pending c"
    by (simp add: writeCapabilityResponse_emit pending_def)
  then obtain c2 where c2: "serveLoop (Suc (pending c)) srv c1 = Some c2" using serveLoop_returns [of c1 "Suc (pending c)" srv] by auto
  have "serve (Suc (pending c) + k) srv c = Some (Conn_Close srv c2)" for k
    unfolding serve_def g using serveLoop_more [OF c2, of k] by simp
  moreover have "closed (Conn_Close srv c2)" by (simp add: Conn_Close_def)
  ultimately show ?thesis by blast
qed

text \<open>
  C8: every command is answered.  When the storage, the mechanisms and the handshakes return
  errors rather than panic, a round that reads a command ends with a status line as the last
  thing sent, and the server has not panicked.
\<close>

theorem every_command_is_answered:
  assumes "quiet srv c" "connOk srv c" "ReadCommand (suni srv) (dec srv c) (rd c) = (Inr (name, args), r)"
  shows "endsWithStatus c (snd (serveStep srv c)) \<and> crashed (snd (serveStep srv c)) = crashed c"
proof -
  let ?c = "c\<lparr>rd := r\<rparr>"
  obtain x d where h: "handleCommand srv name args ?c = (x, d)" by (cases "handleCommand srv name args ?c")
  have "quiet srv ?c" "connOk srv ?c" using assms by (simp_all add: quiet_def quietUpgrades_def connOk_def allowPlain_def)
  then have np: "x \<noteq> Inl ConnPanic" using calm_handleCommand [of srv ?c name args] h by (simp add: calm_def)
  obtain bs where w: "written d = written c @ bs"
    using transcript.stays_handleCommand [of srv name args ?c] h by (auto simp: stays_def)
  have cr: "crashed d = crashed c" using steady.stays_handleCommand [of srv name args ?c] h by (simp add: stays_def)
  have st: "endsWithStatus c (snd (writeStatus st d))" for st
    using w by (auto simp: endsWithStatus_def writeStatus_emit)
  have "endsWithStatus c d" if "x = Inr ()"
    using answersD [OF answers_handleCommand, of srv name args ?c d] h that by (simp add: endsWithStatus_def)
  then show ?thesis
    using np cr st w unfolding serveStep_command [OF assms(3)] h
    by (auto simp: afterCommand_def sayBye_def writeStatus_emit split: sum.split conn_error.split)
qed

lemma noError_noPanic [simp]: "noError code txt \<noteq> ConnPanic"
  by (simp add: noError_def)

lemma validateScriptName_noPanic: "validateScriptName n e = Some x \<Longrightarrow> x \<noteq> ConnPanic"
  by (auto simp: validateScriptName_def split: if_splits)

lemma memory_quiet:
  assumes "LoadFn (mopts w) = Some f"
  shows "quietBackend memoryBackend w"
proof -
  have load: "callLoad w b = Some x \<Longrightarrow> x \<noteq> ConnPanic" for b x using assms by (cases "f b") (auto simp: callLoad_def)
  have "fst (ListScripts w) \<noteq> Inl ConnPanic" by (simp add: ListScripts_def)
  moreover have "fst (GetScript n w) \<noteq> Inl ConnPanic" for n
    by (auto simp: GetScript_def split: option.split dest: validateScriptName_noPanic)
  moreover have "fst (CheckScript b w) \<noteq> Inl ConnPanic" for b
    by (auto simp: CheckScript_def split: option.split dest: load)
  moreover have "fst (SetActive n w) \<noteq> Inl ConnPanic" for n
    by (auto simp: SetActive_def split: option.split dest: validateScriptName_noPanic)
  moreover have "fst (DeleteScript n w) \<noteq> Inl ConnPanic" for n
    by (auto simp: DeleteScript_def split: option.split dest: validateScriptName_noPanic)
  moreover have "fst (PutScript n b w) \<noteq> Inl ConnPanic" for n b
    by (auto simp: PutScript_def split: option.split dest: validateScriptName_noPanic load)
  moreover have "fst (RenameScript n m w) \<noteq> Inl ConnPanic" for n m
    by (auto simp: RenameScript_def split: option.split dest: validateScriptName_noPanic)
  moreover have "fst (HaveSpace n k w) \<noteq> Inl ConnPanic" for n k
    by (auto simp: HaveSpace_def split: option.split dest: validateScriptName_noPanic)
  ultimately show ?thesis unfolding quietBackend_def by simp
qed

lemma exampleQuiet: "quiet exampleServer (exampleConn stream)"
  unfolding quiet_def exampleServer_options exampleConn_def newConn_def quietAuths_def quietUpgrades_def
  by (simp add: memory_quiet exampleStore_def)

theorem every_command_is_answered_witness:
  "endsWithStatus (exampleConn (''NOOP'' @ crlf)) (snd (serveStep exampleServer (exampleConn (''NOOP'' @ crlf)))) \<and>
   crashed (snd (serveStep exampleServer (exampleConn (''NOOP'' @ crlf)))) = crashed (exampleConn (''NOOP'' @ crlf))"
proof (rule every_command_is_answered [OF exampleQuiet])
  show "connOk exampleServer (exampleConn (''NOOP'' @ crlf))" by (simp add: connOk_def exampleConn_def newConn_def)
  have "commandOk (dec exampleServer (exampleConn (''NOOP'' @ crlf))) ''NOOP'' []"
    unfolding exampleServer_options by (simp add: commandOk_def atomOk_def counts_def isAtomChar_def maxInt64_def)
  from ReadCommand_read [OF this, of "[]" "suni exampleServer" "[]"]
  show "ReadCommand (suni exampleServer) (dec exampleServer (exampleConn (''NOOP'' @ crlf))) (rd (exampleConn (''NOOP'' @ crlf))) =
    (Inr (ToUpper exampleTables ''NOOP'', []), [])"
    by (simp add: exampleConn_def newConn_def exampleServer_options)
qed

lemma ReadCommand_starttls:
  assumes "commandOk (dec srv c) ''STARTTLS'' []"
  shows "ReadCommand (suni srv) (dec srv c) (''STARTTLS'' @ crlf @ r) = (Inr (''STARTTLS'', []), r)"
  using ReadCommand_read [OF assms, of "[]" "suni srv" r] by simp

lemma starttls_step:
  assumes "commandOk (dec srv c) ''STARTTLS'' []"
  shows "serveStep srv (c\<lparr>rd := ''STARTTLS'' @ crlf @ r\<rparr>) = afterCommand (handleCommand srv ''STARTTLS'' [] (c\<lparr>rd := r\<rparr>))"
  using ReadCommand_starttls [OF assms, of r] by (simp add: serveStep_command)

text \<open>
  C19: \<open>STARTTLS\<close> drops what was pipelined behind it in plaintext.  When the handshake succeeds,
  what the connection does and becomes does not depend on the bytes that follow the command before
  the handshake: it goes on over TLS with the decrypted stream and nothing else.
\<close>

theorem starttls_discards_plaintext:
  assumes "state c = ConnStateNotAuthenticated" "TLSConfig (soptions srv)" "commandOk (dec srv c) ''STARTTLS'' []"
    and "upgrades c = Inr stream # us"
  shows "serveStep srv (c\<lparr>rd := ''STARTTLS'' @ crlf @ injected\<rparr>) = serveStep srv (c\<lparr>rd := ''STARTTLS'' @ crlf\<rparr>) \<and>
    rd (snd (serveStep srv (c\<lparr>rd := ''STARTTLS'' @ crlf @ injected\<rparr>))) = stream \<and>
    isTLS (snd (serveStep srv (c\<lparr>rd := ''STARTTLS'' @ crlf @ injected\<rparr>)))"
  using starttls_step [OF assms(3), of injected] starttls_step [OF assms(3), of "[]"] assms
  by (simp add: handleCommand_def handleStartTLS_def bindC_def writeOK_def writeStatus_emit writeCapabilityResponse_emit
      afterCommand_def)

lemma exampleStartTLS: "commandOk (dec exampleServer (c\<lparr>upgrades := us\<rparr>)) ''STARTTLS'' []"
  unfolding exampleServer_options by (simp add: commandOk_def atomOk_def counts_def isAtomChar_def maxInt64_def)

theorem starttls_discards_plaintext_witness:
  "rd (snd (serveStep exampleServer ((exampleConn [])\<lparr>upgrades := [Inr ''NOOP''], rd := ''STARTTLS'' @ crlf @ ''LOGOUT'' @ crlf\<rparr>)))
     = ''NOOP''"
proof (rule starttls_discards_plaintext [THEN conjunct2, THEN conjunct1])
  show "commandOk (dec exampleServer ((exampleConn [])\<lparr>upgrades := [Inr ''NOOP'']\<rparr>)) ''STARTTLS'' []" by (rule exampleStartTLS)
qed (simp_all add: exampleServer_options exampleConn_def newConn_def)

text \<open>
  C38: a failed \<open>STARTTLS\<close> keeps what was pipelined behind it.  After a handshake that fails
  without a timeout the reader is the old one: what it had buffered behind the command is what
  the server reads next, before what the transport delivers then, and TLS is as it was.
\<close>

theorem failed_starttls_keeps_plaintext:
  assumes "state c = ConnStateNotAuthenticated" "TLSConfig (soptions srv)" "commandOk (dec srv c) ''STARTTLS'' []"
    and "upgrades c = Inl (WireFailed e, length injected, r) # us" "\<not> isTimeoutError (WireFailed e)"
  shows "fst (serveStep srv (c\<lparr>rd := ''STARTTLS'' @ crlf @ injected\<rparr>)) = Continue \<and>
    rd (snd (serveStep srv (c\<lparr>rd := ''STARTTLS'' @ crlf @ injected\<rparr>))) = injected @ r \<and>
    isTLS (snd (serveStep srv (c\<lparr>rd := ''STARTTLS'' @ crlf @ injected\<rparr>))) = isTLS c"
  using starttls_step [OF assms(3), of injected] assms
  by (simp add: handleCommand_def handleStartTLS_def bindC_def writeOK_def writeStatus_emit
      afterCommand_def)

theorem failed_starttls_keeps_plaintext_witness:
  "rd (snd (serveStep exampleServer
     ((exampleConn [])\<lparr>upgrades := [Inl (WireFailed (WIo IoEOF), 8, [])], rd := ''STARTTLS'' @ crlf @ ''LOGOUT'' @ crlf\<rparr>))) =
   (''LOGOUT'' @ crlf) @ []"
proof (rule failed_starttls_keeps_plaintext [THEN conjunct2, THEN conjunct1])
  show "commandOk (dec exampleServer ((exampleConn [])\<lparr>upgrades := [Inl (WireFailed (WIo IoEOF), 8, [])]\<rparr>)) ''STARTTLS'' []"
    by (rule exampleStartTLS)
  show "\<not> isTimeoutError (WireFailed (WIo IoEOF))" by (simp add: isTimeoutError_def)
qed (simp_all add: exampleServer_options exampleConn_def newConn_def)

end
