(* ===== verification/Client_Laws.thy ===== *)
theory Client_Laws
  imports Client Server_Theorems
begin

text \<open>
  A client and a server connected to each other: what a call of the client returns and does to
  the storage behind the server is what the operation of the storage returns and does.

  The locale \<open>remote_storage\<close> is what the client relies on: the line of a request is answered with
  the lines of the storage's result, and the storage changes as the operation changes it.  It is
  interpreted on \<open>serverNet\<close>, the network whose other end is a connection of the server model.
\<close>

section \<open>Requests and answers\<close>

datatype answer = Done | Script bytes | Listing "script_info list"

definition answerOf :: "('a \<Rightarrow> answer) \<Rightarrow> (conn_error + 'a) \<times> 's \<Rightarrow> (conn_error + answer) \<times> 's" where
  "answerOf f rs = (case rs of (Inl e, s) \<Rightarrow> (Inl e, s) | (Inr x, s) \<Rightarrow> (Inr (f x), s))"

fun storeAnswer :: "request \<Rightarrow> memory_session \<Rightarrow> (conn_error + answer) \<times> memory_session" where
  "storeAnswer ReqList s = answerOf Listing (ListScripts s)"
| "storeAnswer (ReqGet n) s = answerOf Script (GetScript n s)"
| "storeAnswer (ReqPut n b) s = answerOf (\<lambda>_. Done) (PutScript n b s)"
| "storeAnswer (ReqCheck b) s = answerOf (\<lambda>_. Done) (CheckScript b s)"
| "storeAnswer (ReqSetActive n) s = answerOf (\<lambda>_. Done) (SetActive n s)"
| "storeAnswer (ReqDelete n) s = answerOf (\<lambda>_. Done) (DeleteScript n s)"
| "storeAnswer (ReqRename n m) s = answerOf (\<lambda>_. Done) (RenameScript n m s)"
| "storeAnswer (ReqHaveSpace n k) s = answerOf (\<lambda>_. Done) (HaveSpace n k s)"

definition bytesReader :: "bytes \<Rightarrow> reader" where
  "bytesReader b = \<lparr>chunks = [b], readFails = False\<rparr>"

fun clientAnswer :: "'p net \<Rightarrow> request \<Rightarrow> ('p, answer) client_op" where
  "clientAnswer net ReqList c = answerOf Listing (Client_ListScripts net c)"
| "clientAnswer net (ReqGet n) c = answerOf Script (Client_GetScript net n c)"
| "clientAnswer net (ReqPut n b) c = answerOf (\<lambda>_. Done) (Client_PutScript net n (bytesReader b) (int (length b)) c)"
| "clientAnswer net (ReqCheck b) c = answerOf (\<lambda>_. Done) (Client_CheckScript net (bytesReader b) (int (length b)) c)"
| "clientAnswer net (ReqSetActive n) c = answerOf (\<lambda>_. Done) (Client_SetActive net n c)"
| "clientAnswer net (ReqDelete n) c = answerOf (\<lambda>_. Done) (Client_DeleteScript net n c)"
| "clientAnswer net (ReqRename n m) c = answerOf (\<lambda>_. Done) (Client_RenameScript net n m c)"
| "clientAnswer net (ReqHaveSpace n k) c = answerOf (\<lambda>_. Done) (Client_HaveSpace net n k c)"

section \<open>The line of a request\<close>

fun requestName :: "request \<Rightarrow> bytes" where
  "requestName ReqList = ''LISTSCRIPTS''"
| "requestName (ReqGet n) = ''GETSCRIPT''"
| "requestName (ReqPut n b) = ''PUTSCRIPT''"
| "requestName (ReqCheck b) = ''CHECKSCRIPT''"
| "requestName (ReqSetActive n) = ''SETACTIVE''"
| "requestName (ReqDelete n) = ''DELETESCRIPT''"
| "requestName (ReqRename n m) = ''RENAMESCRIPT''"
| "requestName (ReqHaveSpace n k) = ''HAVESPACE''"

text \<open>Its arguments, each with the form it is sent in.\<close>

fun requestArgs :: "request \<Rightarrow> (bytes \<times> bytes) list" where
  "requestArgs ReqList = []"
| "requestArgs (ReqGet n) = [(wireString True n, n)]"
| "requestArgs (ReqPut n b) = [(wireString True n, n), (wireLiteral True b, b)]"
| "requestArgs (ReqCheck b) = [(wireLiteral True b, b)]"
| "requestArgs (ReqSetActive n) = [(wireString True n, n)]"
| "requestArgs (ReqDelete n) = [(wireString True n, n)]"
| "requestArgs (ReqRename n m) = [(wireString True n, n), (wireString True m, m)]"
| "requestArgs (ReqHaveSpace n k) = [(wireString True n, n), (Itoa k, Itoa k)]"

definition requestLine :: "request \<Rightarrow> bytes" where
  "requestLine q = requestName q @ wireArgs (map fst (requestArgs q)) @ crlf"

text \<open>
  The request is within the limits of the server, its script is not empty, and its size is one
  that the client sends.
\<close>

definition requestOk :: "decoder \<Rightarrow> request \<Rightarrow> bool" where
  "requestOk D q \<longleftrightarrow>
     commandOk D (requestName q) (map snd (requestArgs q)) \<and>
     list_all (\<lambda>(bs, s). item D bs s) (requestArgs q) \<and>
     (case q of ReqPut n b \<Rightarrow> b \<noteq> [] | ReqHaveSpace n k \<Rightarrow> 0 \<le> k \<and> k \<le> maxInt64 | _ \<Rightarrow> True)"

section \<open>The lines of an answer\<close>

definition okLine :: bytes where
  "okLine = wireStatus (sent (statusOf StatusOK []))"

fun answerLines :: "conn_error + answer \<Rightarrow> bytes" where
  "answerLines (Inl (MsError st)) = wireStatus (sent st)"
| "answerLines (Inl _) = []"
| "answerLines (Inr Done) = okLine"
| "answerLines (Inr (Script b)) = wireString False b @ crlf @ okLine"
| "answerLines (Inr (Listing infos)) = concat (map (\<lambda>it. encOut (encodeScriptInfo it) @ crlf) infos) @ okLine"

text \<open>The answer is within the limits of the client.\<close>

fun answerOk :: "unicode_tables \<Rightarrow> decoder \<Rightarrow> conn_error + answer \<Rightarrow> bool" where
  "answerOk U D (Inl (MsError st)) \<longleftrightarrow> statusOk U D st \<and> SType st \<noteq> StatusOK"
| "answerOk U D (Inl _) \<longleftrightarrow> False"
| "answerOk U D (Inr Done) \<longleftrightarrow> True"
| "answerOk U D (Inr (Script b)) \<longleftrightarrow> fits D b"
| "answerOk U D (Inr (Listing infos)) \<longleftrightarrow> list_all (\<lambda>it. fits D (InfoName it)) infos"

section \<open>The client\<close>

lemma endLine_emit:
  "ready e \<Longrightarrow> deliver net (cbuf c @ encOut e @ crlf) (peer c) = (r, p) \<Longrightarrow>
     endLine net e c = (Inr (), c\<lparr>cbuf := [], cin := cin c @ r, peer := p\<rparr>)"
  by (simp add: endLine_def wire_simps)

definition argForm :: "command_arg \<Rightarrow> bytes" where
  "argForm a = (case a of strArg v \<Rightarrow> wireString True v | numArg n \<Rightarrow> Itoa n)"

lemma encodeArgs_emit: "ready e \<Longrightarrow> fold encodeArg args e = emit (wireArgs (map argForm args)) e"
proof (induction args arbitrary: e)
  case (Cons a args)
  then show ?case by (cases a) (simp_all add: encodeArg_def argForm_def wire_simps)
qed simp

lemma writeSimpleCommand_emit:
  assumes "ToUpper (nuni net) name = name" "deliver net (cbuf c @ name @ wireArgs (map argForm args) @ crlf) (peer c) = (r, p)"
  shows "writeSimpleCommandLocked net name args c = (Inr (), c\<lparr>cbuf := [], cin := cin c @ r, peer := p\<rparr>)"
  unfolding writeSimpleCommandLocked_def
  using assms by (intro endLine_emit) (simp_all add: encodeArgs_emit wire_simps)

lemma sendScript_emit:
  assumes "ready e" "deliver net (cbuf c @ encOut e @ wireLiteral True b @ crlf) (peer c) = (r, p)"
  shows "sendScript net (bytesReader b) (int (length b)) e c = (Inr (), c\<lparr>cbuf := [], cin := cin c @ r, peer := p\<rparr>)"
proof -
  let ?e = "emit (''{'' @ Itoa (int (length b)) @ ''+'' @ ''}'' @ crlf) e"
  have "Literal (int (length b)) True e = (Some (int (length b)), ?e\<lparr>encLiteral := True\<rparr>)"
    using assms(1) by (simp add: Literal_def writeString_emit Let_def) (simp add: ready_def)
  then have "sendScript net (bytesReader b) (int (length b)) e c = endLine net ((emit b ?e)\<lparr>encLiteral := False\<rparr>) c"
    by (simp add: sendScript_def bytesReader_def literalWrite_def literalClose_def emit_def)
  moreover have "ready ((emit b ?e)\<lparr>encLiteral := False\<rparr>)" using assms(1) by (simp add: ready_def emit_def)
  ultimately show ?thesis
    using assms(2) endLine_emit [of "(emit b ?e)\<lparr>encLiteral := False\<rparr>" net c r p] by (simp add: emit_def wireLiteral_def)
qed

lemma okStatus: "sent (statusOf StatusOK []) = statusOf StatusOK []" "statusOk U (clientDecoder en) (statusOf StatusOK [])"
  by (simp_all add: sent_def statusOf_def statusOk_def StatusOK_def atomOk_def clientDecoder_def fits_def literalFits_def
      maxUint32_def isAtomChar_def)

lemma expectOK_read:
  assumes "statusOk (nuni net) (cdec c) st" "cin c = wireStatus st @ rest"
  shows "expectOK net c = (if SType st \<noteq> StatusOK then Inl (MsError st) else Inr (), c\<lparr>cin := rest\<rparr>)"
  using ReadStatusLine_read [OF assms(1), of rest] assms(2) by (simp add: expectOK_def bindK_def recv_def failK_def)

lemma answerLine_read:
  assumes "answerOk (nuni net) (cdec c) (Inl e)" "cin c = answerLines (Inl e) @ rest"
  shows "expectOK net c = (Inl e, c\<lparr>cin := rest\<rparr>)"
proof -
  obtain st where e: "e = MsError st" "statusOk (nuni net) (cdec c) st" "SType st \<noteq> StatusOK"
    using assms(1) by (cases e) auto
  have "sent st = st" using e(2) by (cases st) (auto simp: statusOk_def sent_def atomOk_def split: if_splits)
  then show ?thesis using expectOK_read [OF e(2), of rest] assms(2) e by simp
qed

lemma okLine_read: "cin c = okLine @ rest \<Longrightarrow> expectOK net c = (Inr (), c\<lparr>cin := rest\<rparr>)"
  using expectOK_read [of net c "statusOf StatusOK []" rest] okStatus by (simp add: okLine_def statusOf_def)

lemma simpleAnswer_read:
  assumes "answerOk (nuni net) (cdec c) r" "r = Inr Done \<or> (\<exists>e. r = Inl e)" "cin c = answerLines r"
  shows "answerOf (\<lambda>_. Done) (expectOK net c) = (r, c\<lparr>cin := []\<rparr>)"
  using assms okLine_read [of c "[]" net] answerLine_read [of net c _ "[]"] by (auto simp: answerOf_def)

lemma EqualFold_same: "EqualFold U s s"
proof -
  have "equalFoldRunes U rs rs" for rs by (induction rs) (simp_all add: foldRune_def Let_def)
  then show ?thesis by (simp add: EqualFold_def)
qed

lemma scriptInfo_read:
  assumes "fits D (InfoName it)" "atomOk D ''ACTIVE''"
  shows "ReadScriptOrStatus U D (encOut (encodeScriptInfo it) @ crlf @ rest) = (Inr (Inl it), rest)"
proof -
  obtain b r where b: "wireString False (InfoName it) = b # r" "b = DQUOTE \<or> b = CHR ''{''" using wireString_head by blast
  have rs: "ReadString D (wireString False (InfoName it) @ x) = (Inr (InfoName it), x)" for x
    using ReadString_read [OF assms(1)] by simp
  have active: "ReadAtom D (CHR '' '' # ''ACTIVE'' @ crlf @ rest) = (Inr ''ACTIVE'', crlf @ rest)"
    unfolding ReadAtom_space by (rule ReadAtom_ok [OF assms(2)]) simp
  have "EqualFold U ''ACTIVE'' ''ACTIVE''" by (rule EqualFold_same)
  then show ?thesis
    using b rs [of "crlf @ rest"] rs [of "CHR '' '' # ''ACTIVE'' @ crlf @ rest"] active
    by (cases it) (auto simp: ReadScriptOrStatus_def encodeScriptInfo_def Let_def wire_simps PeekByte_def)
qed

lemma okLine_script: "ReadScriptOrStatus U (clientDecoder en) (okLine @ rest) = (Inr (Inr (statusOf StatusOK [])), rest)"
proof -
  have ok: "okLine = ''OK'' @ crlf" by (simp add: okLine_def okStatus(1)) (simp add: wireStatus_def statusOf_def StatusOK_def)
  have "PeekByte (clientDecoder en) (okLine @ rest) = (Inr (CHR ''O''), okLine @ rest)" unfolding ok by (simp add: PeekByte_def)
  moreover have "ReadStatusLine U (clientDecoder en) (okLine @ rest) = (Inr (statusOf StatusOK []), rest)"
    using ReadStatusLine_read [OF okStatus(2) [of U en], of rest] by (simp add: okLine_def okStatus(1))
  ultimately show ?thesis by (simp add: ReadScriptOrStatus_def)
qed

lemma listLoop_read:
  assumes "list_all (\<lambda>it. fits (cdec c) (InfoName it)) infos"
    and "cin c = concat (map (\<lambda>it. encOut (encodeScriptInfo it) @ crlf) infos) @ okLine"
  shows "listLoop net acc c = (Inr (acc @ infos), c\<lparr>cin := []\<rparr>)"
  using assms
proof (induction infos arbitrary: acc c)
  case Nil
  then show ?case
    using okLine_script [of "nuni net" "cinEnd c" "[]"] by (simp add: listLoop.simps [of net acc c] recv_def statusOf_def)
next
  case (Cons it infos)
  let ?r = "concat (map (\<lambda>it. encOut (encodeScriptInfo it) @ crlf) infos) @ okLine"
  have "atomOk (cdec c) ''ACTIVE''" by (simp add: atomOk_def clientDecoder_def isAtomChar_def)
  then have "recv (ReadScriptOrStatus (nuni net)) c = (Inr (Inl it), c\<lparr>cin := ?r\<rparr>)"
    using scriptInfo_read [of "cdec c" it "nuni net" ?r] Cons.prems by (simp add: recv_def)
  then show ?case
    using Cons.IH [of "c\<lparr>cin := ?r\<rparr>" "acc @ [it]"] Cons.prems by (simp add: listLoop.simps [of net acc c])
qed

lemma scriptAnswer_read:
  assumes "answerOk (nuni net) (cdec c) r" "(\<exists>b. r = Inr (Script b)) \<or> (\<exists>e. r = Inl e)" "cin c = answerLines r"
  shows "answerOf Script (bindK (recv PeekByte) (\<lambda>b.
           if b \<noteq> DQUOTE \<and> b \<noteq> CHR ''{'' then
             bindK (recv (ReadStatusLine (nuni net))) (\<lambda>st. failK (MsError st))
           else
             bindK (recv ReadString) (\<lambda>script.
               bindK (recv ExpectCRLF) (\<lambda>_.
                 bindK (expectOK net) (\<lambda>_. Pair (Inr script))))) c) = (r, c\<lparr>cin := []\<rparr>)"
  using assms(2)
proof (elim disjE exE)
  fix s
  assume r: "r = Inr (Script s)"
  obtain b t where b: "wireString False s = b # t" "b = DQUOTE \<or> b = CHR ''{''" using wireString_head by blast
  have "recv PeekByte c = (Inr b, c)" using assms(3) r b by (simp add: recv_def PeekByte_def)
  moreover have "recv ReadString c = (Inr s, c\<lparr>cin := crlf @ okLine\<rparr>)"
    using assms r ReadString_read [of "cdec c" s False "crlf @ okLine"] by (simp add: recv_def)
  moreover have "recv ExpectCRLF (c\<lparr>cin := crlf @ okLine\<rparr>) = (Inr (), c\<lparr>cin := okLine\<rparr>)" by (simp add: recv_def)
  ultimately show ?thesis
    using b okLine_read [of "c\<lparr>cin := okLine\<rparr>" "[]" net] r by (auto simp: bindK_def answerOf_def)
next
  fix e
  assume r: "r = Inl e"
  obtain st where e: "e = MsError st" "statusOk (nuni net) (cdec c) st" using assms(1) r by (cases e) auto
  have st: "sent st = st" using e(2) by (cases st) (auto simp: statusOk_def sent_def atomOk_def split: if_splits)
  obtain b t where b: "SType st = b # t" "isAtomChar b" using e(2) by (cases "SType st") (auto simp: statusOk_def atomOk_def)
  have "recv PeekByte c = (Inr b, c)" using assms(3) r e st b by (simp add: recv_def PeekByte_def wireStatus_def)
  moreover have "recv (ReadStatusLine (nuni net)) c = (Inr st, c\<lparr>cin := []\<rparr>)"
    using assms(3) r e st ReadStatusLine_read [OF e(2), of "[]"] by (simp add: recv_def)
  ultimately show ?thesis
    using b isAtomChar_not [of b] r e by (simp add: bindK_def failK_def answerOf_def)
qed

text \<open>A client between two calls: everything that arrived is read.\<close>

definition idle :: "'p client \<Rightarrow> bool" where
  "idle c \<longleftrightarrow> cstate c = ConnStateAuthenticated \<and> cin c = [] \<and> cbuf c = []"

text \<open>The kind of answer that a request has.\<close>

definition answers_kind :: "request \<Rightarrow> conn_error + answer \<Rightarrow> bool" where
  "answers_kind q r \<longleftrightarrow>
     (case r of
        Inl e \<Rightarrow> True
      | Inr a \<Rightarrow> (case q of ReqList \<Rightarrow> \<exists>l. a = Listing l | ReqGet n \<Rightarrow> \<exists>b. a = Script b | _ \<Rightarrow> a = Done))"

lemma storeAnswer_kind: "answers_kind q (fst (storeAnswer q s))"
  by (cases q) (auto simp: answers_kind_def answerOf_def split: prod.splits sum.splits)

lemma listAnswer_read:
  assumes "answerOk (nuni net) (cdec c) r" "(\<exists>l. r = Inr (Listing l))" "cin c = answerLines r"
  shows "answerOf Listing (listLoop net [] c) = (r, c\<lparr>cin := []\<rparr>)"
  using assms listLoop_read [of c _ net "[]"] by (auto simp: answerOf_def)

lemma clientAnswer_read:
  assumes idle: "idle c" and d: "deliver net (requestLine q) (peer c) = (answerLines r, p')"
    and q: "case q of ReqHaveSpace n k \<Rightarrow> 0 \<le> k | ReqList \<Rightarrow> \<exists>l. r = Inr (Listing l) | _ \<Rightarrow> True"
    and ok: "answerOk (nuni net) (cdec c) r" and kind: "answers_kind q r"
  shows "clientAnswer net q c = (r, c\<lparr>peer := p'\<rparr>)"
proof -
  define c1 where "c1 = c\<lparr>cbuf := [], cin := cin c @ answerLines r, peer := p'\<rparr>"
  have c1: "cin c1 = answerLines r" "answerOk (nuni net) (cdec c1) r" and c2: "c1\<lparr>cin := []\<rparr> = c\<lparr>peer := p'\<rparr>"
    using idle ok by (cases c; simp add: c1_def idle_def)+
  have auth: "requireAuthenticatedLocked c = (Inr (), c)" using idle by (simp add: requireAuthenticatedLocked_def idle_def)
  have cmd: "writeSimpleCommandLocked net name args c = (Inr (), c1)"
    if "requestLine q = name @ wireArgs (map argForm args) @ crlf" "ToUpper (nuni net) name = name" for name args
    unfolding c1_def using idle d that by (intro writeSimpleCommand_emit) (simp_all add: idle_def)
  have script: "sendScript net (bytesReader b) (int (length b)) e c = (Inr (), c1)"
    if "requestLine q = encOut e @ wireLiteral True b @ crlf" "ready e" for b e
    unfolding c1_def using idle d that by (intro sendScript_emit) (simp_all add: idle_def)
  have run: "runSimpleAuthenticated net name args c = expectOK net c1"
    if "requestLine q = name @ wireArgs (map argForm args) @ crlf" "ToUpper (nuni net) name = name" for name args
    unfolding runSimpleAuthenticated_def bindK_def auth using cmd [OF that] by simp
  have plain: "answerOf (\<lambda>_. Done) (expectOK net c1) = (r, c1\<lparr>cin := []\<rparr>)" if "r = Inr Done \<or> (\<exists>e. r = Inl e)"
    using simpleAnswer_read [OF c1(2) that c1(1)] .
  note names = requestLine_def argForm_def
  have "clientAnswer net q c = (r, c1\<lparr>cin := []\<rparr>)"
  proof (cases q)
    case ReqList
    then show ?thesis
      using cmd [of "''LISTSCRIPTS''" "[]"] listAnswer_read [OF c1(2) _ c1(1)] q
      by (simp add: Client_ListScripts_def bindK_def auth names)
  next
    case (ReqGet n)
    then have "(\<exists>b. r = Inr (Script b)) \<or> (\<exists>e. r = Inl e)" using kind by (cases r) (auto simp: answers_kind_def)
    then have "answerOf Script (Client_GetScript net n c) = (r, c1\<lparr>cin := []\<rparr>)"
      unfolding Client_GetScript_def bindK_def [of requireAuthenticatedLocked] auth prod.case sum.case
        bindK_def [of "writeSimpleCommandLocked _ _ _"] cmd [of "''GETSCRIPT''" "[strArg n]", unfolded ReqGet names, simplified]
      using scriptAnswer_read [OF c1(2) _ c1(1)] by blast
    then show ?thesis using ReqGet by simp
  next
    case (ReqPut n b)
    then show ?thesis
      using script [of "SP (StringClient n (SP (Atom ''PUTSCRIPT'' NewEncoder)))" b] plain kind
      by (cases r) (auto simp: Client_PutScript_def bindK_def auth names wire_simps answers_kind_def)
  next
    case (ReqCheck b)
    then show ?thesis
      using script [of "SP (Atom ''CHECKSCRIPT'' NewEncoder)" b] plain kind
      by (cases r) (auto simp: Client_CheckScript_def bindK_def auth names wire_simps answers_kind_def)
  next
    case (ReqSetActive n)
    then show ?thesis
      using run [of "''SETACTIVE''" "[strArg n]"] plain kind by (cases r) (simp_all add: Client_SetActive_def names answers_kind_def)
  next
    case (ReqDelete n)
    then show ?thesis
      using run [of "''DELETESCRIPT''" "[strArg n]"] plain kind by (cases r) (simp_all add: Client_DeleteScript_def names answers_kind_def)
  next
    case (ReqRename n m)
    then show ?thesis
      using run [of "''RENAMESCRIPT''" "[strArg n, strArg m]"] plain kind
      by (cases r) (simp_all add: Client_RenameScript_def names answers_kind_def)
  next
    case (ReqHaveSpace n k)
    then show ?thesis
      using run [of "''HAVESPACE''" "[strArg n, numArg k]"] plain kind q
      by (cases r) (simp_all add: Client_HaveSpace_def names answers_kind_def)
  qed
  then show ?thesis using c2 by simp
qed

text \<open>A sequence of calls on the storage, and by a client.\<close>

fun localSession :: "request list \<Rightarrow> memory_session \<Rightarrow> (conn_error + answer) list \<times> memory_session" where
  "localSession [] s = ([], s)"
| "localSession (q # qs) s =
     (case storeAnswer q s of (r, s1) \<Rightarrow> (case localSession qs s1 of (rs, s2) \<Rightarrow> (r # rs, s2)))"

fun remoteSession :: "'p net \<Rightarrow> request list \<Rightarrow> 'p client \<Rightarrow> (conn_error + answer) list \<times> 'p client" where
  "remoteSession net [] c = ([], c)"
| "remoteSession net (q # qs) c =
     (case clientAnswer net q c of (r, c1) \<Rightarrow> (case remoteSession net qs c1 of (rs, c2) \<Rightarrow> (r # rs, c2)))"

text \<open>Every request is within the limits of the server, every answer within those of the client.\<close>

fun sessionOk :: "decoder \<Rightarrow> unicode_tables \<Rightarrow> decoder \<Rightarrow> request list \<Rightarrow> memory_session \<Rightarrow> bool" where
  "sessionOk D U E [] s \<longleftrightarrow> True"
| "sessionOk D U E (q # qs) s \<longleftrightarrow>
     requestOk D q \<and> answerOk U E (fst (storeAnswer q s)) \<and> sessionOk D U E qs (snd (storeAnswer q s))"

locale remote_storage =
  fixes net :: "'p net" and store :: "'p \<Rightarrow> memory_session" and up :: "'p \<Rightarrow> bool" and limits :: decoder
  assumes delivers: "up p \<Longrightarrow> requestOk limits q \<Longrightarrow> \<exists>p'.
      deliver net (requestLine q) p = (answerLines (fst (storeAnswer q (store p))), p') \<and>
      store p' = snd (storeAnswer q (store p)) \<and> up p'"
begin

lemma remote_call:
  assumes "idle c" "up (peer c)" "requestOk limits q"
    and ok: "answerOk (nuni net) (cdec c) (fst (storeAnswer q (store (peer c))))"
  shows "\<exists>c'. clientAnswer net q c = (fst (storeAnswer q (store (peer c))), c') \<and> idle c' \<and> up (peer c') \<and>
    cdec c' = cdec c \<and> store (peer c') = snd (storeAnswer q (store (peer c)))"
proof -
  let ?r = "fst (storeAnswer q (store (peer c)))"
  obtain p' where p': "deliver net (requestLine q) (peer c) = (answerLines ?r, p')" "up p'"
      "store p' = snd (storeAnswer q (store (peer c)))"
    using delivers [OF assms(2,3)] by blast
  have "case q of ReqHaveSpace n k \<Rightarrow> 0 \<le> k | ReqList \<Rightarrow> \<exists>l. ?r = Inr (Listing l) | _ \<Rightarrow> True"
    using assms(3) by (cases q) (simp_all add: requestOk_def ListScripts_def answerOf_def)
  from clientAnswer_read [OF assms(1) p'(1) this ok storeAnswer_kind] show ?thesis
    using p' assms(1) by (simp add: idle_def)
qed

lemma remote_session:
  assumes "idle c" "up (peer c)" "sessionOk limits (nuni net) (cdec c) qs (store (peer c))"
  shows "fst (remoteSession net qs c) = fst (localSession qs (store (peer c))) \<and>
    store (peer (snd (remoteSession net qs c))) = snd (localSession qs (store (peer c)))"
  using assms
proof (induction qs arbitrary: c)
  case (Cons q qs)
  then obtain c' where c': "clientAnswer net q c = (fst (storeAnswer q (store (peer c))), c')" "idle c'" "up (peer c')"
      "cdec c' = cdec c" "store (peer c') = snd (storeAnswer q (store (peer c)))"
    using remote_call [of c q] by auto
  then show ?case using Cons.IH [of c'] Cons.prems(3) by (simp add: case_prod_beta)
qed simp

end

section \<open>The server\<close>

lemma storeAnswer_error:
  assumes "LoadFn (mopts s) = Some f" "fst (storeAnswer q s) = Inl e"
  obtains st where "e = MsError st"
proof -
  have name: "validateScriptName n b = Some x \<Longrightarrow> \<exists>st. x = MsError st" for n b x
    by (auto simp: validateScriptName_def noError_def split: if_splits)
  have load: "callLoad s b = Some x \<Longrightarrow> \<exists>st. x = MsError st" for b x
    using assms(1) by (cases "f b") (auto simp: callLoad_def noError_def)
  have "\<exists>st. e = MsError st"
    using assms(2)
    by (cases q) (auto simp: answerOf_def store_ops HaveSpace_def ListScripts_def noError_def
        split: prod.splits sum.splits option.splits if_splits dest!: name load)
  then show thesis using that by blast
qed

lemma handleCommand_answer:
  assumes "backend srv = memoryBackend" "state p = ConnStateAuthenticated" "session p = Some h"
    and "case q of ReqPut n b \<Rightarrow> b \<noteq> [] | ReqHaveSpace n k \<Rightarrow> 0 \<le> k \<and> k \<le> maxInt64 | _ \<Rightarrow> True"
    and "storeAnswer q (world p) = (r, w)" "\<And>e. r = Inl e \<Longrightarrow> \<exists>st. e = MsError st"
  shows "handleCommand srv (requestName q) (map snd (requestArgs q)) p =
    (case r of Inl e \<Rightarrow> (Inl e, p\<lparr>world := w\<rparr>) | Inr a \<Rightarrow> (Inr (), p\<lparr>world := w, written := written p @ answerLines r\<rparr>))"
proof -
  note defs = handleCommand_def handleStored_def Let_def onSession_def bindC_def thenOK_def okLine_def
    writeOK_def writeStatus_emit answerOf_def
  show ?thesis
  proof (cases q)
    case ReqList
    then show ?thesis
      using assms by (auto simp: defs handleListScripts_def ListScripts_def sendLines_emit ready_lines)
  next
    case (ReqGet n)
    then show ?thesis
      using assms by (auto simp: defs handleGetScript_def sendLine_emit ready_lines wire_simps split: prod.splits sum.splits)
  next
    case (ReqHaveSpace n k)
    then have "Atoi (Itoa k) = Some k" using assms(4) by (intro Atoi_Itoa) simp_all
    then show ?thesis using assms ReqHaveSpace by (auto simp: defs split: prod.splits sum.splits)
  next
    case (ReqPut n b)
    then show ?thesis
      using assms by (auto simp: defs handlePutScript_def tryC_def writeWarningsOrOK_def failC_def split: prod.splits sum.splits)
  next
    case (ReqCheck b)
    then show ?thesis
      using assms by (auto simp: defs handleCheckScript_def tryC_def writeWarningsOrOK_def failC_def split: prod.splits sum.splits)
  qed (insert assms, auto simp: defs split: prod.splits sum.splits)
qed

text \<open>A network whose other end is a connection of the server: one round for each line.\<close>

definition serverNet :: "'s server \<Rightarrow> 's conn net" where
  "serverNet srv =
     \<lparr>deliver = (\<lambda>bs p. let p' = snd (serveStep srv (p\<lparr>rd := rd p @ bs\<rparr>)) in (drop (length (written p)) (written p'), p')),
      handshake = (\<lambda>p. (Inl (WireFailed (WIo IoEOF)), p)), AllowInsecureAuth = False, nuni = suni srv\<rparr>"

definition serverUp :: "memory_session server \<Rightarrow> io_error \<Rightarrow> memory_session conn \<Rightarrow> bool" where
  "serverUp srv en p \<longleftrightarrow>
     backend srv = memoryBackend \<and> rd p = [] \<and> rdEnd p = en \<and> state p = ConnStateAuthenticated \<and> session p \<noteq> None \<and>
     LoadFn (mopts (world p)) \<noteq> None"

lemma store_options:
  "mopts (snd (ListScripts s)) = mopts s" "mopts (snd (GetScript n s)) = mopts s" "mopts (snd (PutScript n b s)) = mopts s"
  "mopts (snd (CheckScript b s)) = mopts s" "mopts (snd (SetActive n s)) = mopts s" "mopts (snd (DeleteScript n s)) = mopts s"
  "mopts (snd (RenameScript n m s)) = mopts s" "mopts (snd (HaveSpace n k s)) = mopts s"
  by (simp_all add: store_ops HaveSpace_def ListScripts_def split: option.split)

lemma answerOf_snd: "snd (answerOf f rs) = snd rs"
  by (simp add: answerOf_def split: prod.split sum.split)

lemma storeAnswer_options: "mopts (snd (storeAnswer q s)) = mopts s"
  by (cases q) (simp_all add: answerOf_snd store_options)

lemma ToUpper_request [simp]: "ToUpper U (requestName q) = requestName q"
  by (cases q) simp_all

lemma serveStep_answer:
  assumes up: "serverUp srv en p" and q: "requestOk (connDecoder (soptions srv) en) q"
  shows "serveStep srv (p\<lparr>rd := requestLine q\<rparr>) =
    (Continue, p\<lparr>world := snd (storeAnswer q (world p)), written := written p @ answerLines (fst (storeAnswer q (world p)))\<rparr>)"
proof -
  obtain h f where p: "backend srv = memoryBackend" "rd p = []" "rdEnd p = en" "state p = ConnStateAuthenticated"
      "session p = Some h" "LoadFn (mopts (world p)) = Some f"
    using up by (auto simp: serverUp_def)
  obtain r w where a: "storeAnswer q (world p) = (r, w)" by (cases "storeAnswer q (world p)")
  have e: "\<exists>st. e = MsError st" if "r = Inl e" for e using storeAnswer_error [OF p(6), of q e] a that by auto
  have shape: "case q of ReqPut n b \<Rightarrow> b \<noteq> [] | ReqHaveSpace n k \<Rightarrow> 0 \<le> k \<and> k \<le> maxInt64 | _ \<Rightarrow> True"
    using q by (simp add: requestOk_def)
  have "list_all2 (item (connDecoder (soptions srv) en)) (map fst (requestArgs q)) (map snd (requestArgs q))"
    using q by (simp add: requestOk_def list_all2_conv_all_nth list_all_length case_prod_beta)
  then have "ReadCommand (suni srv) (connDecoder (soptions srv) en) (requestLine q) = (Inr (requestName q, map snd (requestArgs q)), [])"
    using ReadCommand_read [of "connDecoder (soptions srv) en" "requestName q" "map snd (requestArgs q)" "map fst (requestArgs q)" "suni srv" "[]"] q
    by (simp add: requestOk_def requestLine_def)
  then have "serveStep srv (p\<lparr>rd := requestLine q\<rparr>) = afterCommand (handleCommand srv (requestName q) (map snd (requestArgs q)) p)"
    using serveStep_command [of srv "p\<lparr>rd := requestLine q\<rparr>" "requestName q" "map snd (requestArgs q)" "[]"] p(2,3)
    by (cases p) simp
  also have "\<dots> = (Continue, p\<lparr>world := w, written := written p @ answerLines r\<rparr>)"
    using handleCommand_answer [OF p(1,4,5) shape a e] p(4) e
    by (cases r) (auto simp: afterCommand_def writeStatus_emit)
  finally show ?thesis using a by simp
qed

interpretation served: remote_storage "serverNet srv" world "serverUp srv en" "connDecoder (soptions srv) en"
  for srv :: "memory_session server" and en
proof
  fix p q
  assume up: "serverUp srv en p" and q: "requestOk (connDecoder (soptions srv) en) q"
  let ?a = "storeAnswer q (world p)"
  let ?p = "p\<lparr>world := snd ?a, written := written p @ answerLines (fst ?a)\<rparr>"
  have "rd p = []" using up by (simp add: serverUp_def)
  then have "deliver (serverNet srv) (requestLine q) p = (answerLines (fst ?a), ?p)"
    using serveStep_answer [OF up q] by (simp add: serverNet_def Let_def)
  moreover have "serverUp srv en ?p" using up by (simp add: serverUp_def storeAnswer_options)
  ultimately show "\<exists>p'. deliver (serverNet srv) (requestLine q) p = (answerLines (fst ?a), p') \<and>
      world p' = snd ?a \<and> serverUp srv en p'" by auto
qed

section \<open>Theorem\<close>

lemma fits_short:
  assumes "length s \<le> 1024" "MaxQuotedBytes D = 1024" "MaxLiteralBytes D = 33554432"
  shows "fits D s"
  using assms by (simp add: fits_def literalFits_def maxUint32_def)

lemma statusOk_short:
  assumes "code = [] \<or> atomOk (clientDecoder en) code \<and> ToUpper U code = code" "length t \<le> 1024"
  shows "statusOk U (clientDecoder en) \<lparr>SType = StatusNO, SCode = code, SCodeArgs = [], SText = t\<rparr>"
  using assms fits_short [of t "clientDecoder en"]
  by (auto simp: statusOk_def StatusNO_def atomOk_def clientDecoder_def isAtomChar_def)

text \<open>
  C2: a session of the client is a session on the storage.  For a client connected to the
  server with the storage in memory, every sequence of calls within the limits of both ends
  returns, call by call, what the operations of the storage return, errors with their response
  codes included, and leaves the storage as they leave it.
\<close>

theorem client_session_is_storage_session:
  assumes "idle c" "serverUp srv en (peer c)"
    and "sessionOk (connDecoder (soptions srv) en) (suni srv) (cdec c) qs (world (peer c))"
  shows "fst (remoteSession (serverNet srv) qs c) = fst (localSession qs (world (peer c))) \<and>
    world (peer (snd (remoteSession (serverNet srv) qs c))) = snd (localSession qs (world (peer c)))"
  using served.remote_session [of c srv en qs] assms by (simp add: serverNet_def)

lemma exampleActive: "validateScriptName ''a'' True = None"
  using exampleNames(1) by (simp add: validateScriptName_def)

definition exampleClient :: "memory_session conn client" where
  "exampleClient =
     \<lparr>cin = [], cinEnd = IoEOF, cbuf = [], peer = (exampleConn [])\<lparr>state := ConnStateAuthenticated, session := Some ''u''\<rparr>,
      ctls = True, cstate = ConnStateAuthenticated, caps = noCapabilities, cshut = False\<rparr>"

theorem client_session_is_storage_session_witness:
  "fst (remoteSession (serverNet exampleServer) [ReqPut ''a'' ''x'', ReqSetActive ''a'', ReqDelete ''a''] exampleClient) =
     [Inr Done, Inr Done, Inl (noError ''ACTIVE'' ''Script is active'')] \<and>
   scripts (world (peer (snd (remoteSession (serverNet exampleServer)
     [ReqPut ''a'' ''x'', ReqSetActive ''a'', ReqDelete ''a''] exampleClient)))) = [(''a'', ''x'')]"
proof -
  let ?D = "connDecoder (soptions exampleServer) IoEOF"
  let ?qs = "[ReqPut ''a'' ''x'', ReqSetActive ''a'', ReqDelete ''a'']"
  have w: "world (peer exampleClient) = exampleStore" by (simp add: exampleClient_def exampleConn_def newConn_def)
  have run: "localSession ?qs exampleStore =
      ([Inr Done, Inr Done, Inl (noError ''ACTIVE'' ''Script is active'')],
       exampleStore\<lparr>scripts := [(''a'', ''x'')], active := ''a''\<rparr>)"
    by (simp add: answerOf_def store_ops exampleNames exampleActive callLoad_def exampleStore_def)
  have "idle exampleClient" by (simp add: idle_def exampleClient_def)
  moreover have "serverUp exampleServer IoEOF (peer exampleClient)"
    by (simp add: serverUp_def exampleClient_def exampleConn_def newConn_def exampleServer_options exampleStore_def)
  moreover have "sessionOk ?D (suni exampleServer) (cdec exampleClient) ?qs exampleStore"
  proof -
    have D: "MaxQuotedBytes ?D = 1024" "MaxLiteralBytes ?D = 33554432" "MaxAtomBytes ?D = 1024" "MaxCommandArgs ?D = 32"
      "MaxNonLiteralCommandLen ?D = 16384" by (simp_all add: exampleServer_options)
    note short = fits_short [OF _ D(1,2)]
    have "requestOk ?D (ReqPut ''a'' ''x'')" "requestOk ?D (ReqSetActive ''a'')" "requestOk ?D (ReqDelete ''a'')"
      using short [of "''a''"]
      by (auto simp: requestOk_def commandOk_def atomOk_def counts_def D item_def literalFits_def maxUint32_def maxInt64_def isAtomChar_def)
    moreover have "answerOk U (cdec exampleClient) (Inl (noError ''ACTIVE'' ''Script is active''))" for U
      using statusOk_short [of "''ACTIVE''" IoEOF U "''Script is active''"] 
      by (simp add: noError_def exampleClient_def StatusNO_def StatusOK_def atomOk_def clientDecoder_def isAtomChar_def
          ToUpper_def upperByte_def isASCII_def is_lower_def)
    ultimately show ?thesis
      by (simp add: answerOf_def store_ops exampleNames exampleActive callLoad_def exampleStore_def)
  qed
  ultimately show ?thesis
    using client_session_is_storage_session [of exampleClient exampleServer IoEOF ?qs] unfolding w run by simp
qed

end
