(* ===== verification/Sasl.thy ===== *)
theory Sasl
  imports Client Server_Theorems
begin

text \<open>
  \<open>managesieve/server/auth.go\<close> and \<open>managesieve/sasl/scram.go\<close>: the mechanisms that a server
  enables.

  What go-sasl makes of the responses of PLAIN, and what a conversation of the scram package
  answers to the messages so far, are parameters.  A nil response reads as the empty string.
\<close>

section \<open>PLAIN\<close>

datatype plain_outcome = PlainError conn_error | PlainChallenge bytes | PlainCredentials bytes bytes bytes

type_synonym plain_server = "bytes option list \<Rightarrow> plain_outcome"

definition PlainAuth :: "plain_server \<Rightarrow> (bytes \<Rightarrow> bytes \<Rightarrow> bytes \<Rightarrow> conn_error + bytes) \<Rightarrow> conn_error + sasl_server" where
  "PlainAuth plain fn =
     Inr (\<lambda>hist.
       case plain hist of
         PlainError e \<Rightarrow> SaslError e
       | PlainChallenge ch \<Rightarrow> SaslChallenge ch
       | PlainCredentials identity0 username password \<Rightarrow>
           (case fn identity0 username password of Inl e \<Rightarrow> SaslError e | Inr own \<Rightarrow> SaslDone [] own))"

section \<open>SCRAM-SHA-1\<close>

record scram_conversation =
  convStep :: "bytes list \<Rightarrow> conn_error + bytes"
  convDone :: "bytes list \<Rightarrow> bool"
  convValid :: "bytes list \<Rightarrow> bool"
  convUsername :: "bytes list \<Rightarrow> bytes"

definition messages :: "bytes option list \<Rightarrow> bytes list" where
  "messages hist = map (\<lambda>r. case r of None \<Rightarrow> [] | Some b \<Rightarrow> b) hist"

definition NewSCRAMSHA1Server :: "conn_error + scram_conversation \<Rightarrow> conn_error + scram_conversation" where
  "NewSCRAMSHA1Server srv = (case srv of Inl e \<Rightarrow> Inl e | Inr conv \<Rightarrow> Inr conv)"

text \<open>\<open>Next\<close>: challenge, whether the exchange is done, error.\<close>

definition SCRAMSHA1Server_Next :: "scram_conversation \<Rightarrow> bytes option list \<Rightarrow> bytes \<times> bool \<times> conn_error option" where
  "SCRAMSHA1Server_Next conv hist =
     (case convStep conv (messages hist) of
        Inl e \<Rightarrow> ([], False, Some e)
      | Inr out \<Rightarrow>
          if convDone conv (messages hist) \<and> \<not> convValid conv (messages hist)
          then ([], True, Some (OtherError ''managesieve/sasl: SCRAM validation failed''))
          else (out, convDone conv (messages hist), None))"

definition authorizingSCRAMServer_Next :: "scram_conversation \<Rightarrow> sasl_server" where
  "authorizingSCRAMServer_Next conv hist =
     (case SCRAMSHA1Server_Next conv hist of
        (challenge, fin, Some e) \<Rightarrow> SaslError e
      | (challenge, False, None) \<Rightarrow> SaslChallenge challenge
      | (challenge, True, None) \<Rightarrow> SaslDone challenge (convUsername conv (messages hist)))"

definition SCRAMSHA1Auth :: "conn_error + scram_conversation \<Rightarrow> conn_error + sasl_server" where
  "SCRAMSHA1Auth srv = (case NewSCRAMSHA1Server srv of Inl e \<Rightarrow> Inl e | Inr conv \<Rightarrow> Inr (authorizingSCRAMServer_Next conv))"

definition EnableAuth :: "bytes \<Rightarrow> conn_error + sasl_server \<Rightarrow> 's server \<Rightarrow> 's server" where
  "EnableAuth name f srv = srv\<lparr>auths := AList.update name f (auths srv)\<rparr>"

text \<open>The client of the mechanism.\<close>

definition scramClient :: "scram_conversation \<Rightarrow> sasl_client" where
  "scramClient conv =
     \<lparr>scStart = (case convStep conv [[]] of Inl e \<Rightarrow> Inl e | Inr out \<Rightarrow> Inr (''SCRAM-SHA-1'', Some out)),
      scNext = (\<lambda>hist. convStep conv ([] # messages hist))\<rparr>"

section \<open>What authorizes\<close>

text \<open>An exchange that ends was validated, and authorizes the user of the conversation.\<close>

lemma scram_done_valid:
  assumes "authorizingSCRAMServer_Next conv hist = SaslDone ch own"
  shows "convDone conv (messages hist) \<and> convValid conv (messages hist) \<and> own = convUsername conv (messages hist)"
  using assms by (auto simp: authorizingSCRAMServer_Next_def SCRAMSHA1Server_Next_def split: sum.splits if_splits bool.splits)

text \<open>PLAIN authorizes the owner that the application returns for the credentials.\<close>

lemma plain_done_accepted:
  assumes "PlainAuth plain fn = Inr step" "step hist = SaslDone ch own"
  shows "\<exists>i u p. plain hist = PlainCredentials i u p \<and> fn i u p = Inr own"
proof -
  have "(case plain hist of PlainError e \<Rightarrow> SaslError e | PlainChallenge ch \<Rightarrow> SaslChallenge ch
      | PlainCredentials i u p \<Rightarrow> (case fn i u p of Inl e \<Rightarrow> SaslError e | Inr own \<Rightarrow> SaslDone [] own)) = SaslDone ch own"
    using assms by (auto simp: PlainAuth_def)
  then show ?thesis by (cases "plain hist") (auto split: sum.splits)
qed

text \<open>A mechanism enabled under a name that is not in upper case is never found.\<close>

lemma lowercase_mechanism_unreachable:
  assumes "auths srv = []" "ToUpper (suni srv) mech \<noteq> name" "state c = ConnStateNotAuthenticated" "isTLS c"
  shows "handleAuthenticate (EnableAuth name f srv) [mech] c = refuse ''SASL mechanism not supported'' c"
  using assms by (simp add: handleAuthenticate_def EnableAuth_def)

end
