(* ===== verification/Spec2Isabelle.thy ===== *)
theory Spec2Isabelle
  imports Lexer_Write Parser_Laws Matching_Laws Dates_Laws Body_Laws Loader_Gates Interp_Theorems Client_Laws Sasl
begin

text \<open>
  Verification of go-sieve: an interpreter for the Sieve mail filtering language (RFC 5228 and
  extensions) with a ManageSieve (RFC 5804) server and client.

  \<^bold>\<open>The program.\<close>  A script is lexed (\<open>lexer/\<close>), parsed (\<open>parser/\<close>), loaded into typed commands and
  tests (\<open>interp/load*.go\<close>) and executed on a message (\<open>interp/\<close>); \<open>sieve.go\<close> is the facade.
  \<open>managesieve/internal/wire\<close> encodes and decodes the protocol, \<open>managesieve/server\<close> serves
  connections on a storage, \<open>memory.go\<close> is a storage that checks scripts with the loader, and
  \<open>managesieve/client\<close> is the client.

  \<^bold>\<open>Conventions.\<close>  Go strings and byte slices are character lists.  A Go \<open>int\<close> is an \<open>int\<close>, wrapped with
  \<open>wrap64\<close> where it can overflow; \<open>uint32\<close> is a \<open>32 word\<close>; a slice that can be nil is an option.
  Errors and panics are the left side of a sum.  A method that changes its receiver takes and
  returns the state: \<open>'a exec\<close> works on \<open>runtime\<close>, \<open>'a load\<close> on \<open>script\<close>, \<open>'a rd\<close> on the bytes to be
  read, \<open>conn_op\<close> and \<open>client_op\<close> on a connection.  What go-message, net/mail, time, regexp, the
  Unicode tables, go-sasl, scram, TLS and the embedding application supply is a parameter: a
  field of \<open>host\<close>, \<open>unicode_tables\<close>, \<open>backend\<close>, \<open>net\<close> and the like.

  \<^bold>\<open>Lexer and parser.\<close>  \<open>Lexer\<close> has every token reader of \<open>lex.go\<close> with positions and limits, \<open>Lexer_Write\<close>
  the printer of \<open>write.go\<close> (round trips, positions, token limit), \<open>Lexer_Stream\<close> the cursor of
  \<open>stream.go\<close>.  \<open>Parser\<close> is the recursive descent of \<open>parse.go\<close> on fuel, twice the number of tokens
  and two: \<open>Parser_Total\<close> shows that it is never used up, \<open>Parser_Laws\<close> nesting bounds, that
  printing and parsing are inverse, and canonical forms.

  \<^bold>\<open>Strings and data.\<close>  \<open>Go_Strings\<close> is what the code uses of strings, utf8 and strconv.  \<open>Relational\<close>,
  \<open>Flags\<close>, \<open>Variables\<close>, \<open>Encoded_Chars\<close> and \<open>Dates\<close> are the files of those names, \<open>Runtime\<close> the data
  of an execution and \<open>expandVars\<close>; \<open>Runtime_Laws\<close> shows that checked references expand and that a
  variable reads back, \<open>Dates_Laws\<close> the day count and the zones.

  \<^bold>\<open>Tests and actions.\<close>  \<open>Matching\<close> is \<open>match.go\<close>, \<open>test_string.go\<close> and \<open>matchertest.go\<close>, \<open>Body\<close> the body
  test, \<open>Mime\<close> the tree of parts, \<open>Tests\<close> every test, \<open>Actions\<close> every action but \<open>replace\<close> and
  \<open>enclose\<close>.  \<open>Matching_Laws\<close> relates \<open>:matches\<close> to wildcard matching, \<open>Body_Laws\<close> the streaming number
  reader to the string version.  \<open>Mime\<close> parses on fuel, one more than the length of the message
  body: enough when a part is shorter than its parent.

  \<^bold>\<open>Loader.\<close>  \<open>Program\<close> has the commands and tests, \<open>Load_Spec\<close> the argument matching of \<open>load_generic.go\<close>,
  \<open>Load_Tests\<close> and \<open>Loader\<close> the loaders; \<open>Loader_Laws\<close> and \<open>Loader_Gates\<close> show that a loaded script
  uses only extensions it may use, apart from the constructs of \<open>waived\<close>, whose loaders check none.

  \<^bold>\<open>Execution.\<close>  \<open>Interp\<close> is \<open>control.go\<close>, \<open>include.go\<close>, \<open>script.go\<close> and the loop of \<open>mime.go\<close>, on fuel for
  nested includes; \<open>includeMaxDepth\<close> is enough.  \<open>Interp_Laws\<close> has the locale \<open>exec_relation\<close>: a
  relation that each elementary action respects is respected by every script.  \<open>Interp_Theorems\<close>
  uses it for the accounting of the message, the fuel and the scope of includes.  A panic is a result
  of its own that nothing recovers: scopes and the stack of parts are left as they are when it passes.

  \<^bold>\<open>ManageSieve.\<close>  \<open>Wire\<close> is the codec, \<open>Wire_Laws\<close> its round trips, \<open>Base64\<close> the encoding of encoding/base64.
  \<open>Storage\<close> is \<open>memory.go\<close>; \<open>Storage_Laws\<close> has the locale \<open>script_storage\<close>, the contract of
  \<open>storage.go\<close>, its interpretation, and the refinement of a specification by name and active name.
  \<open>Server\<close> is \<open>conn.go\<close>, with the outcomes of the TLS handshakes to come as part of the connection (a
  failed one keeps the buffered plaintext, a successful one drops it); one round of the loop is \<open>serveStep\<close>, the loop runs on fuel and
  \<open>Server_Theorems\<close> shows that one more than the bytes to be read is enough.  \<open>Server_Laws\<close> has the
  locales \<open>conn_relation\<close> and \<open>conn_loop\<close>, like \<open>exec_relation\<close> for commands of a connection; they are
  interpreted for authentication, for storage, for the input left and for the output.  \<open>Sasl\<close> is
  \<open>auth.go\<close> and \<open>scram.go\<close>.  \<open>Client\<close> is \<open>client.go\<close> and the capabilities of \<open>types.go\<close>;
  \<open>Client_Laws\<close> connects it to the server through the locale \<open>remote_storage\<close> and shows that a session
  of calls is a session on the storage.  The authentication loop of the client runs on fuel with
  \<open>None\<close> for a peer that never stops sending challenges; no theorem relies on it.

  This theory joins storage, loader and interpreter.

  \<^bold>\<open>Not modelled.\<close>  \<open>replace\<close> and \<open>enclose\<close> (\<open>mime_actions.go\<close>) rewrite the MIME tree through pointers that
  enclosing loops hold, where the model has the tree as a value.  \<open>ParseBodyParts\<close> and
  \<open>walkMIMEParts\<close> drive the readers of go-message.  The commands of the Dovecot test suite run the
  interpreter inside Go's testing package.  Saved scripts (\<open>binary.go\<close>, \<open>RestoreSaved\<close>) are calls of
  encoding/gob.  The listener, the table of connections and deadlines of the server, dialling and
  TLS configuration of the client, logging, contexts and locks are effects of the runtime; a
  deadline that passes is a timeout error of a read.  The command line tool and the static
  message it uses are plain input and output.  Error messages of lexer, parser and loader are reduced to their
  kind.
\<close>

section \<open>Scripts from storage to execution\<close>

lemma Load_gated:
  assumes "Load h b ops = Inr (sc, cs)"
  shows "cmdsGated waived cs (Extensions sc)"
proof -
  obtain cmds where "LoadScript h cmds (InterpOptions ops) = Inr (sc, cs)"
    using assms by (auto simp: Load_def map_sum_def split: sum.splits)
  from LoadScript_state [OF this] show ?thesis
    using gates_LoadBlock [of h cmds] by (simp add: ensures_def gives_def)
qed

lemma exampleKeep: "\<exists>x. Load exampleHost ''keep;'' DefaultOptions = Inr x"
proof -
  have "\<not> isl (Load exampleHost ''keep;'' DefaultOptions)" by code_simp
  then show ?thesis by (cases "Load exampleHost ''keep;'' DefaultOptions") auto
qed

definition exampleOpts :: memory_options where
  "exampleOpts =
     \<lparr>Implementation = [], Version = [], Language = [], Notify = [], SieveExtensions = [], SASLMechanisms = None,
      MaxRedirects = None, MaxScripts = 0, MaxScriptLen = 0, LoadFn = None\<rparr>"

lemma stored_loads:
  assumes "LoadFn os = None" "(n, b) \<in> set (scripts (fold perform rs (NewMemorySession h et os)))"
  shows "\<exists>sc cs. Load h b DefaultOptions = Inr (sc, cs) \<and> cmdsGated waived cs (Extensions sc)"
proof -
  let ?s = "fold perform rs (NewMemorySession h et os)"
  have "storeOk ?s" by (intro storeOk_fold storeOk_new)
  then have "callLoad ?s b = None" using assms(2) by (auto simp: storeOk_def list_all_iff entryOk_def)
  moreover have "LoadFn (mopts ?s) = Some (defaultLoad h et)"
    using assms(1) by (simp add: NewMemorySession_def Let_def)
  ultimately have "defaultLoad h et b = None" by (simp add: callLoad_def)
  then show ?thesis using Load_gated by (fastforce simp: defaultLoad_def split: sum.splits)
qed

text \<open>
  C14: what the storage holds can run.  In a session in memory with the default loader, after any
  sequence of operations, every script that \<open>GETSCRIPT\<close> returns lexes, parses and loads, and its
  commands rely only on extensions it may use, apart from the waived constructs; and when a script
  is marked active, \<open>GETSCRIPT\<close> of that name returns one.
\<close>

theorem stored_scripts_load:
  assumes "LoadFn os = None" "s = fold perform rs (NewMemorySession h et os)"
  shows "(\<forall>n b s'. GetScript n s = (Inr b, s') \<longrightarrow>
      (\<exists>sc cs. Load h b DefaultOptions = Inr (sc, cs) \<and> cmdsGated waived cs (Extensions sc))) \<and>
    (active s \<noteq> [] \<longrightarrow> (\<exists>b. GetScript (active s) s = (Inr b, s)))"
proof (intro conjI allI impI)
  fix n b s'
  assume "GetScript n s = (Inr b, s')"
  then have "(n, b) \<in> set (scripts s)" by (auto simp: GetScript_def split: option.splits dest: map_of_SomeD)
  then show "\<exists>sc cs. Load h b DefaultOptions = Inr (sc, cs) \<and> cmdsGated waived cs (Extensions sc)"
    using stored_loads [OF assms(1)] assms(2) by blast
next
  assume "active s \<noteq> []"
  moreover have "storeOk s" unfolding assms(2) by (intro storeOk_fold storeOk_new)
  ultimately obtain b where b: "(active s, b) \<in> set (scripts s)" and ok: "storeOk s" by (auto simp: storeOk_def)
  then have "map_of (scripts s) (active s) = Some b" by (simp add: storeOk_def)
  moreover have "validateScriptName (active s) False = None"
    using b ok by (auto simp: storeOk_def list_all_iff entryOk_def)
  ultimately show "\<exists>b. GetScript (active s) s = (Inr b, s)" by (simp add: GetScript_def)
qed

theorem stored_scripts_load_witness:
  "\<exists>sc cs. Load exampleHost ''keep;'' DefaultOptions = Inr (sc, cs) \<and> cmdsGated waived cs (Extensions sc)"
proof -
  let ?s = "fold perform [ReqPut ''a'' ''keep;'', ReqSetActive ''a''] (NewMemorySession exampleHost (\<lambda>_. []) exampleOpts)"
  have "validateScriptName ''a'' True = None"
    by (simp add: validateScriptName_def runes_def decodeRune_def ValidString_def badNameRune_def runeError_def)
  moreover have "defaultLoad exampleHost (\<lambda>_. []) ''keep;'' = None" using exampleKeep by (auto simp: defaultLoad_def)
  ultimately have "GetScript ''a'' ?s = (Inr ''keep;'', ?s)"
    by (simp add: exampleOpts_def NewMemorySession_def Let_def GetScript_def PutScript_def SetActive_def exampleNames callLoad_def)
  moreover have "LoadFn exampleOpts = None" by (simp add: exampleOpts_def)
  ultimately show ?thesis using stored_scripts_load [of exampleOpts ?s] by blast
qed

end
